(* ===== verification/Prelude.thy ===== *)
theory Prelude
  imports Main "HOL-Library.Word" "HOL-Library.Multiset" "HOL-Library.Monad_Syntax"
begin

text \<open>
  Shared vocabulary of the development.

  \<^item> The machine integers of the crate (a 64-bit target: \<open>usize\<close> and \<open>u64\<close> are both 64
    bits wide) and the results of \<open>std::io\<close>: an error is either an operating system code
    (\<open>io::Error::from_raw_os_error\<close>) or a kind with a message (\<open>io::Error::new\<close>).
  \<^item> Functions that may panic return an option: \<open>None\<close> is the panic.
  \<^item> The operations of \<open>Vec\<close>, \<open>VecDeque\<close> and of iterators that the drivers use
    (\<open>position\<close>, \<open>remove\<close>) with their lemmas.
  \<^item> The collection \<open>crate_defs\<close> of the constructors, getters and conversions that
    component proofs unfold.
\<close>

named_theorems crate_defs "constructors, getters and conversions to unfold"

subsection \<open>Integers\<close>

type_synonym u8 = "8 word"
type_synonym u32 = "32 word"
type_synonym i32 = "32 word"
type_synonym u64 = "64 word"
type_synonym usize = "64 word"

text \<open>The sign of an \<open>i32\<close>, and the conversion \<open>i32 as usize\<close> (sign extension).\<close>

definition is_negative :: "i32 \<Rightarrow> bool" where
  "is_negative x \<longleftrightarrow> sint x < 0"

definition i32_as_usize :: "i32 \<Rightarrow> usize" where
  "i32_as_usize x = scast x"

lemma sint_uminus:
  fixes x :: i32
  assumes "- (2 ^ 31) < sint x"
  shows "sint (- x) = - sint x"
proof -
  have "sint x < 2 ^ 31" using sint_lt [of x] by simp
  then have "signed_take_bit 31 (- sint x) = - sint x"
    using assms by (intro signed_take_bit_int_eq_self) auto
  then show ?thesis by (simp add: sint_word_ariths)
qed

lemma sint_uminus_pos:
  fixes x :: i32
  shows "0 < sint x \<Longrightarrow> sint (- x) = - sint x"
  by (simp add: sint_uminus)

lemma is_negative_uminus: "0 < sint x \<Longrightarrow> is_negative (- x)"
  by (simp add: is_negative_def sint_uminus_pos)

lemma unat_i32_as_usize:
  assumes "\<not> is_negative x"
  shows "int (unat (i32_as_usize x)) = sint x"
proof -
  have pos: "0 \<le> sint x" using assms by (simp add: is_negative_def)
  have "sint x < 2 ^ 31" using sint_lt [of x] by simp
  then have "take_bit 64 (sint x) = sint x"
    using pos by (intro take_bit_int_eq_self) auto
  moreover have "uint (i32_as_usize x) = take_bit 64 (sint x)"
    unfolding i32_as_usize_def scast_eq uint_word_of_int_eq by simp
  ultimately show ?thesis by (simp only: unat_eq_nat_uint int_nat_eq) (simp add: pos)
qed

lemma take_bit_word_small:
  fixes x :: "'a::len word"
  assumes "unat x < 2 ^ n"
  shows "take_bit n x = x"
proof -
  have "unat (take_bit n x) = unat x"
    using assms by (simp only: unsigned_take_bit_eq take_bit_nat_eq_self)
  then show ?thesis by (rule unsigned_word_eqI)
qed

subsection \<open>Results of the io module\<close>

datatype error_kind =
    TimedOut | WouldBlock | UnexpectedEof | InvalidInput | InvalidData
  | Unsupported | AddrNotAvailable | OtherKind

datatype io_error = Os i32 | Custom error_kind string

type_synonym 'a io_result = "io_error + 'a"

fun raw_os_error :: "io_error \<Rightarrow> i32 option" where
  "raw_os_error (Os c) = Some c"
| "raw_os_error (Custom k m) = None"

abbreviation Err :: "'e \<Rightarrow> 'e + 'a" where "Err \<equiv> Inl"
abbreviation Ok :: "'a \<Rightarrow> 'e + 'a" where "Ok \<equiv> Inr"

text \<open>The error of the exact reads, and an addition of \<open>usize\<close> values that panics on overflow.\<close>

definition unexpected_eof :: io_error where
  "unexpected_eof = Custom UnexpectedEof ''failed to fill whole buffer''"

definition checked_add :: "nat \<Rightarrow> nat \<Rightarrow> nat option" where
  "checked_add x y = (if x + y < 2 ^ 64 then Some (x + y) else None)"

lemma unat_of_nat_usize [simp]: "n < 2 ^ 64 \<Longrightarrow> unat (of_nat n :: usize) = n"
  by (simp add: unat_of_nat)

subsection \<open>Vectors and iterators\<close>

text \<open>\<open>Iterator::position\<close>: the index of the first element that satisfies the predicate.\<close>

fun position :: "('a \<Rightarrow> bool) \<Rightarrow> 'a list \<Rightarrow> nat option" where
  "position P [] = None"
| "position P (x # xs) = (if P x then Some 0 else map_option Suc (position P xs))"

text \<open>\<open>Vec::remove\<close> and \<open>VecDeque::remove\<close> at an index in range.\<close>

definition remove_nth :: "nat \<Rightarrow> 'a list \<Rightarrow> 'a list" where
  "remove_nth i xs = take i xs @ drop (Suc i) xs"

lemma remove_nth_Cons_0 [simp]: "remove_nth 0 (x # xs) = xs"
  by (simp add: remove_nth_def)

lemma remove_nth_Cons_Suc [simp]: "remove_nth (Suc i) (x # xs) = x # remove_nth i xs"
  by (simp add: remove_nth_def)

text \<open>Removing the first match, and what it leaves behind.\<close>

definition remove_first :: "('a \<Rightarrow> bool) \<Rightarrow> 'a list \<Rightarrow> 'a list" where
  "remove_first P xs = (case position P xs of None \<Rightarrow> xs | Some i \<Rightarrow> remove_nth i xs)"

lemma remove_first_simps [simp]:
  "remove_first P [] = []"
  "remove_first P (x # xs) = (if P x then xs else x # remove_first P xs)"
  by (auto simp: remove_first_def split: option.splits)

lemma remove_first_none: "(\<forall>x \<in> set xs. \<not> P x) \<Longrightarrow> remove_first P xs = xs"
  by (induction xs) auto

lemma set_remove_first_subset: "set (remove_first P xs) \<subseteq> set xs"
  by (induction xs) auto

lemma length_remove_first: "length (remove_first P xs) \<le> length xs"
  by (induction xs) auto

lemma remove_first_distinct:
  "distinct (map f xs) \<Longrightarrow> remove_first (\<lambda>x. f x = k) xs = filter (\<lambda>x. f x \<noteq> k) xs"
  by (induction xs) (auto simp: image_iff intro!: filter_True [symmetric])

lemma filter_remove_first:
  "\<forall>x. P x \<longrightarrow> \<not> Q x \<Longrightarrow> filter Q (remove_first P xs) = filter Q xs"
  by (induction xs) auto

subsection \<open>Filtering by position\<close>

text \<open>The elements whose index lies outside a set of indices, the shape of a scan over a
  queue that drops the completed slots.\<close>

definition keep_idx :: "(nat \<Rightarrow> bool) \<Rightarrow> nat \<Rightarrow> 'a list \<Rightarrow> 'a list" where
  "keep_idx K i xs = map snd (filter (\<lambda>(j, x). K j) (enumerate i xs))"

lemma keep_idx_simps [simp]:
  "keep_idx K i [] = []"
  "keep_idx K i (x # xs) = (if K i then x # keep_idx K (Suc i) xs else keep_idx K (Suc i) xs)"
  by (simp_all add: keep_idx_def)

lemma in_set_keep_idx:
  "x \<in> set (keep_idx K i xs) \<longleftrightarrow> (\<exists>j < length xs. K (i + j) \<and> xs ! j = x)"
proof (induction xs arbitrary: i)
  case Nil
  show ?case by simp
next
  case (Cons y xs)
  show ?case by (auto simp: Cons.IH Ex_less_Suc2)
qed

lemma keep_idx_all: "(\<And>j. i \<le> j \<Longrightarrow> K j) \<Longrightarrow> keep_idx K i xs = xs"
  by (induction xs arbitrary: i) auto

lemma length_keep_idx: "length (keep_idx K i xs) \<le> length xs"
  by (induction xs arbitrary: i) (auto simp: le_SucI)

lemma set_keep_idx_subset: "set (keep_idx K i xs) \<subseteq> set xs"
  by (auto simp: in_set_keep_idx)

lemma map_keep_idx: "map f (keep_idx K i xs) = keep_idx K i (map f xs)"
  by (induction xs arbitrary: i) auto

lemma keep_idx_snoc:
  "keep_idx K i (xs @ [x]) = keep_idx K i xs @ (if K (i + length xs) then [x] else [])"
  by (induction xs arbitrary: i) auto

lemma mset_keep_idx_split:
  "mset xs = mset (keep_idx K i xs) + mset (keep_idx (\<lambda>j. \<not> K j) i xs)"
  by (induction xs arbitrary: i) auto

lemma mset_keep_idx:
  "mset (keep_idx K 0 xs) = image_mset (\<lambda>j. xs ! j) (mset_set {j. j < length xs \<and> K j})"
proof (induction xs rule: rev_induct)
  case (snoc x xs)
  have "{j. j < Suc (length xs) \<and> K j} =
      (if K (length xs) then insert (length xs) {j. j < length xs \<and> K j} else {j. j < length xs \<and> K j})"
    by (auto simp: less_Suc_eq)
  moreover have "image_mset (\<lambda>j. (xs @ [x]) ! j) (mset_set {j. j < length xs \<and> K j}) =
      image_mset (\<lambda>j. xs ! j) (mset_set {j. j < length xs \<and> K j})"
    by (intro image_mset_cong) (auto simp: nth_append)
  ultimately show ?case using snoc by (simp add: keep_idx_snoc)
qed simp

end
