(* ===== verification/Buf.thy ===== *)
theory Buf
  imports Prelude
begin

text \<open>
  The buffers of \<open>src/buf\<close>: the traits \<open>IoBuf\<close> and \<open>IoBufMut\<close> with their
  implementations, the owned view \<open>Slice\<close>, and the wrappers that carry the scatter and
  gather lists of vectored operations.

  A buffer owns an allocation: an address, the bytes of the whole allocation (initialised or
  not) and the number of initialised bytes. \<open>Slice\<close> is a view that owns another buffer, so
  buffers nest. Addresses and lengths are natural numbers (an allocation never exceeds
  \<open>isize::MAX\<close>); an operation that would panic returns \<open>None\<close>.

  The locales \<open>io_buf\<close> and \<open>io_buf_mut\<close> state what the unsafe traits promise, and the
  interpretations discharge it for every implementation at once.
\<close>

subsection \<open>Implementations of the buffer traits\<close>

datatype buf_kind =
    VecU8 | MutSliceU8 | SliceU8 | StringBuf | MutStr | Str
  | Bytes | BytesMut | BorrowedBuf | ArrayVec

record raw_buf =
  raw_kind :: buf_kind
  raw_ptr :: nat
  raw_mem :: "u8 list"
  raw_len :: nat

datatype iobuf = Raw raw_buf | Slice iobuf nat nat

text \<open>The kinds whose capacity is \<open>capacity()\<close>; the others answer \<open>len()\<close>.\<close>

fun has_spare :: "buf_kind \<Rightarrow> bool" where
  "has_spare VecU8 = True"
| "has_spare StringBuf = True"
| "has_spare BytesMut = True"
| "has_spare BorrowedBuf = True"
| "has_spare ArrayVec = True"
| "has_spare _ = False"

text \<open>The kinds that implement \<open>IoBufMut\<close>.\<close>

fun mut_kind :: "buf_kind \<Rightarrow> bool" where
  "mut_kind VecU8 = True"
| "mut_kind MutSliceU8 = True"
| "mut_kind BytesMut = True"
| "mut_kind BorrowedBuf = True"
| "mut_kind ArrayVec = True"
| "mut_kind _ = False"

definition raw_capacity :: "raw_buf \<Rightarrow> nat" where
  "raw_capacity r = (if has_spare (raw_kind r) then length (raw_mem r) else raw_len r)"

text \<open>
  \<open>set_buf_init\<close> of the growable kinds is \<open>set_len(len + self.buf_len())\<close>; for
  \<open>&mut [u8]\<close> it is the debug assertion that nothing was added.
\<close>

definition raw_set_buf_init :: "nat \<Rightarrow> raw_buf \<Rightarrow> raw_buf option" where
  "raw_set_buf_init len r =
     (case raw_kind r of
        VecU8 \<Rightarrow> Some (r\<lparr>raw_len := len + raw_len r\<rparr>)
      | BytesMut \<Rightarrow> Some (r\<lparr>raw_len := len + raw_len r\<rparr>)
      | BorrowedBuf \<Rightarrow> Some (r\<lparr>raw_len := len + raw_len r\<rparr>)
      | ArrayVec \<Rightarrow> Some (r\<lparr>raw_len := len + raw_len r\<rparr>)
      | MutSliceU8 \<Rightarrow> (if len = 0 then Some r else None)
      | _ \<Rightarrow> None)"

text \<open>The trait methods, with the implementation for \<open>Slice\<close> as the recursive case.\<close>

fun buf_len :: "iobuf \<Rightarrow> nat option" where
  "buf_len (Raw r) = Some (raw_len r)"
| "buf_len (Slice b s e) =
     do { n \<leftarrow> buf_len b;
          let e' = min e n;
          if s \<le> e' then Some (e' - s) else None }"

fun buf_capacity :: "iobuf \<Rightarrow> nat option" where
  "buf_capacity (Raw r) = Some (raw_capacity r)"
| "buf_capacity (Slice b s e) = (if s \<le> e then Some (e - s) else None)"

fun as_buf_ptr :: "iobuf \<Rightarrow> nat option" where
  "as_buf_ptr (Raw r) = Some (raw_ptr r)"
| "as_buf_ptr (Slice b s e) =
     do { p \<leftarrow> as_buf_ptr b;
          n \<leftarrow> buf_len b;
          if s \<le> n then Some (p + s) else None }"

fun set_buf_init :: "nat \<Rightarrow> iobuf \<Rightarrow> iobuf option" where
  "set_buf_init len (Raw r) = map_option Raw (raw_set_buf_init len r)"
| "set_buf_init len (Slice b s e) = map_option (\<lambda>b'. Slice b' s e) (set_buf_init len b)"

text \<open>The allocation behind a view, and the bytes of it at an address.\<close>

fun root :: "iobuf \<Rightarrow> raw_buf" where
  "root (Raw r) = r"
| "root (Slice b s e) = root b"

definition bytes_at :: "raw_buf \<Rightarrow> nat \<Rightarrow> nat \<Rightarrow> u8 list" where
  "bytes_at r a n = take n (drop (a - raw_ptr r) (raw_mem r))"

definition as_slice :: "iobuf \<Rightarrow> u8 list option" where
  "as_slice b =
     do { p \<leftarrow> as_buf_ptr b;
          n \<leftarrow> buf_len b;
          Some (bytes_at (root b) p n) }"

text \<open>The spare part as an address and a length, which is what the kernel is handed.\<close>

definition as_uninit_slice :: "iobuf \<Rightarrow> (nat \<times> nat) option" where
  "as_uninit_slice b =
     do { p \<leftarrow> as_buf_ptr b;
          n \<leftarrow> buf_len b;
          c \<leftarrow> buf_capacity b;
          if n \<le> c then Some (p + n, c - n) else None }"

datatype range_bound = Included nat | Excluded nat | Unbounded

text \<open>\<open>IoBuf::slice\<close>: the three assertions in the order of the code.\<close>

definition range_begin :: "range_bound \<Rightarrow> nat option" where
  "range_begin b =
     (case b of
        Included n \<Rightarrow> Some n
      | Excluded n \<Rightarrow> (if n + 1 < 2 ^ 64 then Some (n + 1) else None)
      | Unbounded \<Rightarrow> Some 0)"

definition range_end :: "nat \<Rightarrow> range_bound \<Rightarrow> nat option" where
  "range_end c b =
     (case b of
        Included n \<Rightarrow> (if n + 1 < 2 ^ 64 then Some (n + 1) else None)
      | Excluded n \<Rightarrow> Some n
      | Unbounded \<Rightarrow> Some c)"

definition slice :: "iobuf \<Rightarrow> range_bound \<Rightarrow> range_bound \<Rightarrow> iobuf option" where
  "slice b lo hi =
     do { first \<leftarrow> range_begin lo;
          c \<leftarrow> buf_capacity b;
          if first < c then
            do { last \<leftarrow> range_end c hi;
                 n \<leftarrow> buf_len b;
                 if last \<le> c \<and> first \<le> n then Some (Slice b first last) else None }
          else None }"

subsection \<open>Well-formed buffers\<close>

definition wf_raw :: "raw_buf \<Rightarrow> bool" where
  "wf_raw r \<longleftrightarrow> raw_len r \<le> length (raw_mem r) \<and>
     (has_spare (raw_kind r) \<or> raw_len r = length (raw_mem r))"

fun wf_buf :: "iobuf \<Rightarrow> bool" where
  "wf_buf (Raw r) \<longleftrightarrow> wf_raw r"
| "wf_buf (Slice b s e) \<longleftrightarrow> wf_buf b \<and> s \<le> e \<and>
     (case buf_len b of Some n \<Rightarrow> s \<le> n | None \<Rightarrow> False) \<and>
     (case buf_capacity b of Some c \<Rightarrow> e \<le> c | None \<Rightarrow> False)"

definition mut_buf :: "iobuf \<Rightarrow> bool" where
  "mut_buf b \<longleftrightarrow> mut_kind (raw_kind (root b))"

text \<open>
  The geometry of a well-formed buffer: the view starts inside its allocation, ends inside
  it, covers initialised bytes first, and whenever it has spare room that room starts
  exactly where the initialised bytes of the allocation end.
\<close>

definition geometry :: "iobuf \<Rightarrow> nat \<Rightarrow> nat \<Rightarrow> nat \<Rightarrow> bool" where
  "geometry b p n c \<longleftrightarrow>
     as_buf_ptr b = Some p \<and> buf_len b = Some n \<and> buf_capacity b = Some c \<and>
     n \<le> c \<and> raw_ptr (root b) \<le> p \<and>
     p + n \<le> raw_ptr (root b) + raw_len (root b) \<and>
     p + c \<le> raw_ptr (root b) + length (raw_mem (root b)) \<and>
     (n < c \<longrightarrow> p + n = raw_ptr (root b) + raw_len (root b))"

lemma geometry_Slice:
  "geometry b p n c \<Longrightarrow> s \<le> e \<Longrightarrow> s \<le> n \<Longrightarrow> e \<le> c \<Longrightarrow>
   geometry (Slice b s e) (p + s) (min e n - s) (e - s)"
  by (auto simp: geometry_def min_def split: if_splits)

lemma wf_buf_geometry: "wf_buf b \<Longrightarrow> \<exists>p n c. geometry b p n c"
proof (induction b)
  case (Raw r)
  then show ?case by (auto simp: geometry_def wf_raw_def raw_capacity_def)
next
  case (Slice b s e)
  then obtain p n c where g: "geometry b p n c" and "s \<le> e" "s \<le> n" "e \<le> c"
    by (fastforce simp: geometry_def)
  then show ?case by (blast intro: geometry_Slice)
qed

lemma geometry_uninit: "geometry b p n c \<Longrightarrow> as_uninit_slice b = Some (p + n, c - n)"
  by (simp add: geometry_def as_uninit_slice_def)

lemma geometry_as_slice: "geometry b p n c \<Longrightarrow> as_slice b = Some (bytes_at (root b) p n)"
  by (simp add: geometry_def as_slice_def)

lemma bytes_at_sub:
  assumes "raw_ptr r \<le> p"
  shows "bytes_at r (p + s) (min e n - s) = take (e - s) (drop s (bytes_at r p n))"
proof -
  have "p + s - raw_ptr r = s + (p - raw_ptr r)" using assms by simp
  then show ?thesis by (simp add: bytes_at_def drop_take min_diff)
qed

lemma geometry_unique:
  "geometry b p n c \<Longrightarrow> geometry b p' n' c' \<Longrightarrow> p' = p \<and> n' = n \<and> c' = c"
  by (auto simp: geometry_def)

text \<open>
  Reporting \<open>m\<close> new bytes to a mutable buffer with at least \<open>m\<close> bytes of spare room
  moves the boundary by \<open>m\<close> and changes nothing else.
\<close>

lemma raw_set_buf_init_ok:
  assumes "mut_kind (raw_kind r)" "wf_raw r" "m \<le> raw_capacity r - raw_len r"
  shows "raw_set_buf_init m r = Some (r\<lparr>raw_len := raw_len r + m\<rparr>)"
  using assms
  by (cases "raw_kind r") (auto simp: raw_set_buf_init_def raw_capacity_def wf_raw_def add.commute)

lemma set_buf_init_geometry:
  assumes "wf_buf b" "mut_buf b" "geometry b p n c" "m \<le> c - n"
  shows "\<exists>b'. set_buf_init m b = Some b' \<and> wf_buf b' \<and> mut_buf b' \<and> geometry b' p (n + m) c \<and>
           root b' = (root b)\<lparr>raw_len := raw_len (root b) + m\<rparr>"
  using assms
proof (induction b arbitrary: p n c)
  case (Raw r)
  then have "raw_set_buf_init m r = Some (r\<lparr>raw_len := raw_len r + m\<rparr>)"
    by (intro raw_set_buf_init_ok) (auto simp: mut_buf_def geometry_def)
  then show ?case using Raw
    by (auto simp: geometry_def mut_buf_def wf_raw_def raw_capacity_def split: if_splits)
next
  case (Slice b s e)
  then have wf: "wf_buf b" and mu: "mut_buf b" by (simp_all add: mut_buf_def)
  obtain q k d where g: "geometry b q k d"
    using wf_buf_geometry [OF wf] by blast
  have se: "s \<le> e" "s \<le> k" "e \<le> d" using Slice.prems(1) g by (auto simp: geometry_def)
  have pnc: "p = q + s" "n = min e k - s" "c = e - s"
    using geometry_unique [OF geometry_Slice [OF g se] Slice.prems(3)] by auto
  have m: "m \<le> d - k" "n + m = min e (k + m) - s"
    using Slice.prems(4) se pnc by (auto simp: min_def split: if_splits)
  obtain b' where b': "set_buf_init m b = Some b'" "wf_buf b'" "mut_buf b'"
      "geometry b' q (k + m) d" "root b' = (root b)\<lparr>raw_len := raw_len (root b) + m\<rparr>"
    using Slice.IH [OF wf mu g m(1)] by blast
  have "geometry (Slice b' s e) p (n + m) c"
    using geometry_Slice [OF b'(4) se(1) _ se(3)] se(2) pnc(1,3) m(2) by simp
  moreover have "wf_buf (Slice b' s e)" using b' se by (auto simp: geometry_def)
  ultimately show ?case using b' by (auto simp: mut_buf_def)
qed

subsection \<open>What the kernel does to a buffer\<close>

text \<open>
  Storing bytes at an address of the allocation: the effect of a completed read on the
  memory behind a buffer. The recorded length is not touched.
\<close>

definition store_raw :: "nat \<Rightarrow> u8 list \<Rightarrow> raw_buf \<Rightarrow> raw_buf" where
  "store_raw a ds r =
     (let i = a - raw_ptr r
      in r\<lparr>raw_mem := take i (raw_mem r) @ ds @ drop (i + length ds) (raw_mem r)\<rparr>)"

fun store_bytes :: "nat \<Rightarrow> u8 list \<Rightarrow> iobuf \<Rightarrow> iobuf" where
  "store_bytes a ds (Raw r) = Raw (store_raw a ds r)"
| "store_bytes a ds (Slice b s e) = Slice (store_bytes a ds b) s e"

lemma root_store_bytes [simp]: "root (store_bytes a ds b) = store_raw a ds (root b)"
  by (induction b) auto

lemma store_raw_fields [simp]:
  "raw_kind (store_raw a ds r) = raw_kind r"
  "raw_ptr (store_raw a ds r) = raw_ptr r"
  "raw_len (store_raw a ds r) = raw_len r"
  by (simp_all add: store_raw_def Let_def)

lemma length_store_raw:
  "raw_ptr r \<le> a \<Longrightarrow> a + length ds \<le> raw_ptr r + length (raw_mem r) \<Longrightarrow>
   length (raw_mem (store_raw a ds r)) = length (raw_mem r)"
  by (simp add: store_raw_def Let_def)

lemma buf_len_store [simp]: "buf_len (store_bytes a ds b) = buf_len b"
  by (induction b) auto

lemma as_buf_ptr_store [simp]: "as_buf_ptr (store_bytes a ds b) = as_buf_ptr b"
  by (induction b) auto

lemma buf_capacity_store:
  "raw_ptr (root b) \<le> a \<Longrightarrow> a + length ds \<le> raw_ptr (root b) + length (raw_mem (root b)) \<Longrightarrow>
   buf_capacity (store_bytes a ds b) = buf_capacity b"
  by (induction b) (auto simp: raw_capacity_def length_store_raw)

lemma wf_store_bytes:
  "wf_buf b \<Longrightarrow> raw_ptr (root b) \<le> a \<Longrightarrow>
   a + length ds \<le> raw_ptr (root b) + length (raw_mem (root b)) \<Longrightarrow>
   wf_buf (store_bytes a ds b)"
  by (induction b) (auto simp: wf_raw_def length_store_raw buf_capacity_store split: option.splits)

lemma geometry_store:
  "geometry b p n c \<Longrightarrow> raw_ptr (root b) \<le> a \<Longrightarrow>
   a + length ds \<le> raw_ptr (root b) + length (raw_mem (root b)) \<Longrightarrow>
   geometry (store_bytes a ds b) p n c"
  by (simp add: geometry_def buf_capacity_store length_store_raw)

lemma bytes_at_store_append:
  assumes "raw_ptr r \<le> p" "p + n + length ds \<le> raw_ptr r + length (raw_mem r)"
  shows "bytes_at (store_raw (p + n) ds r) p (n + length ds) = bytes_at r p n @ ds"
proof -
  define i where "i = p - raw_ptr r"
  have i: "p + n - raw_ptr r = i + n" "i + n + length ds \<le> length (raw_mem r)"
    using assms by (auto simp: i_def)
  then have "drop i (take (i + n) (raw_mem r)) = take n (drop i (raw_mem r))"
    by (simp add: drop_take)
  moreover have "length (take n (drop i (raw_mem r))) = n" using i by simp
  ultimately show ?thesis
    using i by (simp add: bytes_at_def store_raw_def Let_def i_def [symmetric])
qed

subsection \<open>The contracts of the buffer traits\<close>

text \<open>
  What \<open>IoBuf\<close> promises to the operations that use it (a stable pointer and no more
  initialised bytes than capacity), and what \<open>IoBufMut\<close> adds: reporting bytes inside the
  spare room extends the initialised part by exactly that many, keeping the pointer and the
  capacity. \<open>init_all\<close> is a run of reports, one per completed read.
\<close>

fun init_all :: "(nat \<Rightarrow> 'b \<Rightarrow> 'b option) \<Rightarrow> nat list \<Rightarrow> 'b \<Rightarrow> 'b option" where
  "init_all si [] b = Some b"
| "init_all si (m # ms) b = do { b' \<leftarrow> si m b; init_all si ms b' }"

locale io_buf =
  fixes valid :: "'b \<Rightarrow> bool"
    and ptr :: "'b \<Rightarrow> nat option"
    and len :: "'b \<Rightarrow> nat option"
    and cap :: "'b \<Rightarrow> nat option"
  assumes defined: "valid b \<Longrightarrow> \<exists>p n c. ptr b = Some p \<and> len b = Some n \<and> cap b = Some c \<and> n \<le> c"
begin

lemma spare_defined:
  assumes "valid b"
  obtains p n k where "ptr b = Some p" "len b = Some n" "cap b = Some (n + k)"
  using defined [OF assms] by (metis le_add_diff_inverse)

end

locale io_buf_mut = io_buf valid ptr len cap
  for valid :: "'b \<Rightarrow> bool" and ptr len cap :: "'b \<Rightarrow> nat option" +
  fixes set_init :: "nat \<Rightarrow> 'b \<Rightarrow> 'b option"
  assumes extends: "valid b \<Longrightarrow> len b = Some n \<Longrightarrow> cap b = Some c \<Longrightarrow> m \<le> c - n \<Longrightarrow>
    \<exists>b'. set_init m b = Some b' \<and> valid b' \<and> ptr b' = ptr b \<and> len b' = Some (n + m) \<and> cap b' = Some c"
begin

lemma init_all_extends:
  assumes "valid b" "len b = Some n" "cap b = Some c" "sum_list ms \<le> c - n"
  shows "\<exists>b'. init_all set_init ms b = Some b' \<and> valid b' \<and> ptr b' = ptr b \<and>
           len b' = Some (n + sum_list ms) \<and> cap b' = Some c"
  using assms
proof (induction ms arbitrary: b n)
  case Nil
  then show ?case by simp
next
  case (Cons m ms)
  then obtain b1 where b1: "set_init m b = Some b1" "valid b1" "ptr b1 = ptr b"
      "len b1 = Some (n + m)" "cap b1 = Some c"
    using extends [of b n c m] by auto
  moreover have "sum_list ms \<le> c - (n + m)" using Cons.prems(4) by simp
  ultimately obtain b2 where "init_all set_init ms b1 = Some b2" "valid b2" "ptr b2 = ptr b1"
      "len b2 = Some (n + m + sum_list ms)" "cap b2 = Some c"
    using Cons.IH by blast
  with b1 show ?case by (auto simp: add.assoc)
qed

end

interpretation buf: io_buf wf_buf as_buf_ptr buf_len buf_capacity
  by unfold_locales (use wf_buf_geometry in \<open>fastforce simp: geometry_def\<close>)

interpretation buf_mut: io_buf_mut "\<lambda>b. wf_buf b \<and> mut_buf b" as_buf_ptr buf_len buf_capacity set_buf_init
proof unfold_locales
  fix b assume "wf_buf b \<and> mut_buf b"
  then show "\<exists>p n c. as_buf_ptr b = Some p \<and> buf_len b = Some n \<and> buf_capacity b = Some c \<and> n \<le> c"
    using buf.defined by blast
next
  fix b n c and m :: nat
  assume b: "wf_buf b \<and> mut_buf b" "buf_len b = Some n" "buf_capacity b = Some c" "m \<le> c - n"
  then obtain p where "geometry b p n c"
    using wf_buf_geometry [of b] by (auto simp: geometry_def)
  then show "\<exists>b'. set_buf_init m b = Some b' \<and> (wf_buf b' \<and> mut_buf b') \<and> as_buf_ptr b' = as_buf_ptr b \<and>
      buf_len b' = Some (n + m) \<and> buf_capacity b' = Some c"
    using set_buf_init_geometry [of b p n c m] b by (auto simp: geometry_def)
qed

subsection \<open>Wrappers and scatter lists\<close>

record buf_wrapper =
  bw_buffer :: iobuf
  bw_io_slice :: "nat \<times> nat"

definition buf_wrapper_from :: "iobuf \<Rightarrow> buf_wrapper option" where
  "buf_wrapper_from b =
     do { p \<leftarrow> as_buf_ptr b;
          n \<leftarrow> buf_len b;
          Some \<lparr>bw_buffer = b, bw_io_slice = (p, n)\<rparr> }"

definition buf_wrapper_as_io_slices :: "buf_wrapper \<Rightarrow> (nat \<times> nat) list" where
  "buf_wrapper_as_io_slices w = [bw_io_slice w]"

record buf_wrapper_mut =
  bwm_buffer :: iobuf
  bwm_io_slice_mut :: "nat \<times> nat"

definition buf_wrapper_mut_from :: "iobuf \<Rightarrow> buf_wrapper_mut option" where
  "buf_wrapper_mut_from b =
     do { r \<leftarrow> as_uninit_slice b;
          Some \<lparr>bwm_buffer = b, bwm_io_slice_mut = r\<rparr> }"

definition buf_wrapper_mut_as_io_slices_mut :: "buf_wrapper_mut \<Rightarrow> (nat \<times> nat) list" where
  "buf_wrapper_mut_as_io_slices_mut w = [bwm_io_slice_mut w]"

definition buf_wrapper_mut_set_init :: "nat \<Rightarrow> buf_wrapper_mut \<Rightarrow> buf_wrapper_mut option" where
  "buf_wrapper_mut_set_init len w =
     map_option (\<lambda>b. w\<lparr>bwm_buffer := b\<rparr>) (set_buf_init len (bwm_buffer w))"

record vectored_buf_wrapper =
  vb_buffers :: "iobuf list"
  vb_io_slices :: "(nat \<times> nat) list"
  vb_io_slices_mut :: "(nat \<times> nat) list"

definition vectored_from :: "iobuf list \<Rightarrow> vectored_buf_wrapper option" where
  "vectored_from bs =
     do { ios \<leftarrow> those (map (\<lambda>b. do { p \<leftarrow> as_buf_ptr b; n \<leftarrow> buf_len b; Some (p, n) }) bs);
          mos \<leftarrow> those (map as_uninit_slice bs);
          Some \<lparr>vb_buffers = bs, vb_io_slices = ios, vb_io_slices_mut = mos\<rparr> }"

text \<open>The loop of \<open>VectoredBufWrapper::set_init\<close> over the buffers, with the running \<open>len\<close>.\<close>

fun set_init_loop :: "nat \<Rightarrow> iobuf list \<Rightarrow> iobuf list option" where
  "set_init_loop len [] = Some []"
| "set_init_loop len (b # bs) =
     do { capacity \<leftarrow> buf_capacity b;
          if len \<ge> capacity then
            do { b' \<leftarrow> set_buf_init capacity b;
                 bs' \<leftarrow> set_init_loop (len - capacity) bs;
                 Some (b' # bs') }
          else
            do { b' \<leftarrow> set_buf_init len b;
                 bs' \<leftarrow> set_init_loop 0 bs;
                 Some (b' # bs') } }"

definition vectored_set_init :: "nat \<Rightarrow> vectored_buf_wrapper \<Rightarrow> vectored_buf_wrapper option" where
  "vectored_set_init len w =
     map_option (\<lambda>bs. w\<lparr>vb_buffers := bs\<rparr>) (set_init_loop len (vb_buffers w))"

subsection \<open>Results that carry a buffer\<close>

text \<open>
  \<open>BufResult<T, B>\<close> is a result and the buffer that comes back with it. The four
  implementations of \<open>UpdateBufferLen\<close> differ in the method that receives the length
  (\<open>set_init\<close> or \<open>set_buf_init\<close>) and in whether the result carries an address as well.
\<close>

definition update_buffer_len ::
  "(nat \<Rightarrow> 'b \<Rightarrow> 'b option) \<Rightarrow> usize io_result \<times> 'b \<Rightarrow> (usize io_result \<times> 'b) option" where
  "update_buffer_len si rb =
     (case rb of (res, buffer) \<Rightarrow>
        (case res of
           Ok n \<Rightarrow> map_option (\<lambda>b. (res, b)) (si (unat n) buffer)
         | Err e \<Rightarrow> Some (res, buffer)))"

definition update_buffer_len_addr ::
  "(nat \<Rightarrow> 'b \<Rightarrow> 'b option) \<Rightarrow> (usize \<times> 'o) io_result \<times> 'b \<Rightarrow> ((usize \<times> 'o) io_result \<times> 'b) option" where
  "update_buffer_len_addr si rb =
     (case rb of (res, buffer) \<Rightarrow>
        (case res of
           Ok (n, _) \<Rightarrow> map_option (\<lambda>b. (res, b)) (si (unat n) buffer)
         | Err e \<Rightarrow> Some (res, buffer)))"

definition map_addr :: "usize io_result \<times> ('t \<times> 'addr) \<Rightarrow> (usize \<times> 'addr) io_result \<times> 't" where
  "map_addr rb =
     (case rb of (res, (buffer, addr)) \<Rightarrow>
        ((case res of Ok received \<Rightarrow> Ok (received, addr) | Err e \<Rightarrow> Err e), buffer))"

definition buf_result_into_inner :: "('t \<Rightarrow> 'i) \<Rightarrow> 'r \<times> 't \<Rightarrow> 'r \<times> 'i" where
  "buf_result_into_inner ii rb = (fst rb, ii (snd rb))"

text \<open>\<open>Slice::into_inner\<close> gives back the viewed buffer.\<close>

fun slice_into_inner :: "iobuf \<Rightarrow> iobuf" where
  "slice_into_inner (Slice b s e) = b"
| "slice_into_inner (Raw r) = Raw r"

text \<open>The \<open>buf_try!\<close> macro in its two forms: continue on success, return early with the
  buffer on failure. The continuation is the rest of the function.\<close>

definition buf_try ::
  "'a io_result \<times> 'b \<Rightarrow> ('a \<Rightarrow> 'b \<Rightarrow> 'r io_result \<times> 'b) \<Rightarrow> 'r io_result \<times> 'b" where
  "buf_try e k = (case e of (Ok res, buf) \<Rightarrow> k res buf | (Err err, buf) \<Rightarrow> (Err err, buf))"

subsection \<open>Vectored reads\<close>

text \<open>
  A vectored read stores the received bytes into the listed regions in order, filling each
  before the next one. A list of buffers is described by what it may still take.
\<close>

fun scatter :: "u8 list \<Rightarrow> iobuf list \<Rightarrow> iobuf list" where
  "scatter ds [] = []"
| "scatter ds (b # bs) =
     (case as_uninit_slice b of
        Some (a, k) \<Rightarrow> store_bytes a (take k ds) b # scatter (drop k ds) bs
      | None \<Rightarrow> b # scatter ds bs)"

definition empty_buf :: "iobuf \<Rightarrow> bool" where
  "empty_buf b \<longleftrightarrow> wf_buf b \<and> mut_buf b \<and> buf_len b = Some 0"

definition cap_of :: "iobuf \<Rightarrow> nat" where
  "cap_of b = (case buf_capacity b of Some c \<Rightarrow> c | None \<Rightarrow> 0)"

definition slice_of :: "iobuf \<Rightarrow> u8 list" where
  "slice_of b = (case as_slice b of Some ds \<Rightarrow> ds | None \<Rightarrow> [])"

lemma mut_store_bytes [simp]: "mut_buf (store_bytes a ds b) \<longleftrightarrow> mut_buf b"
  by (simp add: mut_buf_def)

text \<open>The bytes stored at the boundary become the tail of the initialised bytes.\<close>

lemma store_then_init:
  assumes "wf_buf b" "mut_buf b" "geometry b p n c" "length ds \<le> c - n"
  shows "\<exists>b'. set_buf_init (length ds) (store_bytes (p + n) ds b) = Some b' \<and> wf_buf b' \<and> mut_buf b' \<and>
           geometry b' p (n + length ds) c \<and> as_slice b' = Some (bytes_at (root b) p n @ ds)"
proof -
  have g: "raw_ptr (root b) \<le> p" "n \<le> c" "p + c \<le> raw_ptr (root b) + length (raw_mem (root b))"
    using assms(3) by (simp_all add: geometry_def)
  then have room: "raw_ptr (root b) \<le> p + n"
      "p + n + length ds \<le> raw_ptr (root b) + length (raw_mem (root b))"
    using assms(4) by auto
  let ?b = "store_bytes (p + n) ds b"
  have "wf_buf ?b" "mut_buf ?b" "geometry ?b p n c"
    using assms room wf_store_bytes geometry_store by simp_all
  then obtain b' where b': "set_buf_init (length ds) ?b = Some b'" "wf_buf b'" "mut_buf b'"
      "geometry b' p (n + length ds) c" "root b' = (root ?b)\<lparr>raw_len := raw_len (root ?b) + length ds\<rparr>"
    using set_buf_init_geometry [of ?b p n c "length ds"] assms(4) by blast
  have "bytes_at (root b') p (n + length ds) = bytes_at (store_raw (p + n) ds (root b)) p (n + length ds)"
    using b'(5) by (simp add: bytes_at_def)
  then have "as_slice b' = Some (bytes_at (root b) p n @ ds)"
    using geometry_as_slice [OF b'(4)] bytes_at_store_append [OF g(1) room(2)] by simp
  with b' show ?thesis by blast
qed

lemma empty_bufE:
  assumes "empty_buf b"
  obtains p where "geometry b p 0 (cap_of b)" "as_uninit_slice b = Some (p, cap_of b)"
proof -
  obtain p n c where g: "geometry b p n c"
    using assms wf_buf_geometry unfolding empty_buf_def by blast
  then have "n = 0" "c = cap_of b" using assms by (auto simp: geometry_def empty_buf_def cap_of_def)
  then show thesis using that [of p] g geometry_uninit [OF g] by simp
qed

lemma fill_empty_buf:
  assumes "empty_buf b" "length ds \<le> cap_of b" "as_uninit_slice b = Some (a, k)"
  shows "\<exists>b'. set_buf_init (length ds) (store_bytes a ds b) = Some b' \<and> wf_buf b' \<and> slice_of b' = ds \<and>
    buf_capacity (store_bytes a ds b) = Some (cap_of b)"
proof -
  obtain p where p: "geometry b p 0 (cap_of b)" "as_uninit_slice b = Some (p, cap_of b)"
    using assms(1) by (rule empty_bufE)
  then have a: "a = p" using assms(3) by simp
  have "wf_buf b" "mut_buf b" using assms(1) by (simp_all add: empty_buf_def)
  then obtain b' where "set_buf_init (length ds) (store_bytes a ds b) = Some b'" "wf_buf b'"
      "as_slice b' = Some (bytes_at (root b) p 0 @ ds)"
    using store_then_init [of b p 0 "cap_of b" ds] p a assms(2) by auto
  moreover have "buf_capacity (store_bytes a ds b) = Some (cap_of b)"
    using buf_capacity_store [of b a ds] p(1) assms(2) a by (simp add: geometry_def)
  ultimately show ?thesis by (simp add: slice_of_def bytes_at_def)
qed

lemma set_init_loop_scatter:
  assumes "list_all empty_buf bs" "length ds \<le> sum_list (map cap_of bs)"
  shows "\<exists>bs'. set_init_loop (length ds) (scatter ds bs) = Some bs' \<and> list_all wf_buf bs' \<and>
    length bs' = length bs \<and> concat (map slice_of bs') = ds"
  using assms
proof (induction bs arbitrary: ds)
  case Nil
  then show ?case by simp
next
  case (Cons b bs)
  let ?c = "cap_of b"
  have b: "empty_buf b" using Cons.prems(1) by simp
  then obtain p where p: "as_uninit_slice b = Some (p, ?c)" by (rule empty_bufE)
  obtain b' where b': "set_buf_init (length (take ?c ds)) (store_bytes p (take ?c ds) b) = Some b'"
      "wf_buf b'" "slice_of b' = take ?c ds" "buf_capacity (store_bytes p (take ?c ds) b) = Some ?c"
    using fill_empty_buf [OF b _ p, of "take ?c ds"] by auto
  have "list_all empty_buf bs" "length (drop ?c ds) \<le> sum_list (map cap_of bs)"
    using Cons.prems by auto
  then obtain bs' where bs': "set_init_loop (length (drop ?c ds)) (scatter (drop ?c ds) bs) = Some bs'"
      "list_all wf_buf bs'" "length bs' = length bs" "concat (map slice_of bs') = drop ?c ds"
    using Cons.IH by blast
  have "set_init_loop (length ds) (scatter ds (b # bs)) = Some (b' # bs')"
    using b'(1,4) bs'(1) p by (cases "?c \<le> length ds") (auto simp: min.absorb1 min.absorb2)
  then show ?case using b' bs' by simp
qed

lemma store_bytes_nothing [simp]: "store_bytes a [] b = b"
  by (induction b) (simp_all add: store_raw_def Let_def)

lemma scatter_nothing: "list_all empty_buf bs \<Longrightarrow> scatter [] bs = bs"
  by (induction bs) (auto elim: empty_bufE split: option.splits)

lemma vectored_from_defined:
  "list_all wf_buf bs \<Longrightarrow> \<exists>w. vectored_from bs = Some w \<and> vb_buffers w = bs"
proof -
  assume "list_all wf_buf bs"
  then have "\<exists>ios. those (map (\<lambda>b. do { p \<leftarrow> as_buf_ptr b; n \<leftarrow> buf_len b; Some (p, n) }) bs) = Some ios"
    and "\<exists>mos. those (map as_uninit_slice bs) = Some mos"
    by (induction bs) (auto dest!: wf_buf_geometry simp: geometry_def as_uninit_slice_def)
  then show ?thesis by (auto simp: vectored_from_def)
qed

subsection \<open>Properties\<close>

text \<open>
  C10. A completed read is reported exactly. Let a well-formed mutable buffer hold \<open>old\<close> and
  hand its spare room to the kernel; if the kernel stores \<open>ds\<close> there and completes with
  their number, then \<open>update_buffer_len\<close> returns the same result with a well-formed buffer
  that holds \<open>old\<close> followed by \<open>ds\<close>.
\<close>

theorem read_completion_appends:
  assumes "wf_buf b" and "mut_buf b" and "as_slice b = Some old"
    and "as_uninit_slice b = Some (a, k)" and "length ds \<le> k" and "unat n = length ds"
  shows "\<exists>b'. update_buffer_len set_buf_init (Ok n, store_bytes a ds b) = Some (Ok n, b') \<and>
    wf_buf b' \<and> as_slice b' = Some (old @ ds) \<and> as_buf_ptr b' = as_buf_ptr b \<and>
    buf_capacity b' = buf_capacity b"
proof -
  obtain p m c where g: "geometry b p m c" using wf_buf_geometry [OF assms(1)] by blast
  then have a: "a = p + m" and "length ds \<le> c - m" and old: "old = bytes_at (root b) p m"
    using assms(3-5) geometry_uninit [OF g] geometry_as_slice [OF g] by simp_all
  then obtain b' where "set_buf_init (length ds) (store_bytes a ds b) = Some b'" "wf_buf b'"
      "geometry b' p (m + length ds) c" "as_slice b' = Some (old @ ds)"
    using store_then_init [OF assms(1,2) g] by blast
  then show ?thesis using g assms(6) by (auto simp: update_buffer_len_def geometry_def)
qed

definition sample_vec :: iobuf where
  "sample_vec = Raw \<lparr>raw_kind = VecU8, raw_ptr = 4096, raw_mem = [104, 105, 0, 0, 0], raw_len = 2\<rparr>"

theorem read_completion_appends_witness:
  "\<exists>b'. update_buffer_len set_buf_init (Ok 2, store_bytes 4098 [33, 10] sample_vec) = Some (Ok 2, b') \<and>
    wf_buf b' \<and> as_slice b' = Some ([104, 105] @ [33, 10]) \<and> as_buf_ptr b' = as_buf_ptr sample_vec \<and>
    buf_capacity b' = buf_capacity sample_vec"
proof (rule read_completion_appends)
  show "wf_buf sample_vec" by (simp add: sample_vec_def wf_raw_def)
  show "mut_buf sample_vec" by (simp add: sample_vec_def mut_buf_def)
  show "as_slice sample_vec = Some [104, 105]" by (simp add: sample_vec_def as_slice_def bytes_at_def)
  show "as_uninit_slice sample_vec = Some (4098, 3)"
    by (simp add: sample_vec_def as_uninit_slice_def raw_capacity_def)
qed simp_all

text \<open>
  Memory safety of the region handed to the kernel: for a well-formed buffer, however
  deeply sliced, \<open>as_uninit_slice\<close> is defined and its region lies inside the allocation
  and behind the initialised bytes of the whole allocation, so a read never overwrites data
  and never runs past the capacity.
\<close>

theorem uninit_region_safe:
  assumes "wf_buf b"
  shows "\<exists>a k. as_uninit_slice b = Some (a, k) \<and>
    (k > 0 \<longrightarrow> raw_ptr (root b) + raw_len (root b) = a) \<and>
    a + k \<le> raw_ptr (root b) + length (raw_mem (root b))"
proof -
  obtain p n c where "geometry b p n c" using wf_buf_geometry [OF assms] by blast
  then show ?thesis using geometry_uninit by (fastforce simp: geometry_def)
qed

theorem uninit_region_safe_witness:
  "\<exists>a k. as_uninit_slice (Slice sample_vec 1 4) = Some (a, k) \<and>
    (k > 0 \<longrightarrow> raw_ptr (root (Slice sample_vec 1 4)) + raw_len (root (Slice sample_vec 1 4)) = a) \<and>
    a + k \<le> raw_ptr (root (Slice sample_vec 1 4)) + length (raw_mem (root (Slice sample_vec 1 4)))"
  by (rule uninit_region_safe) (simp add: sample_vec_def wf_raw_def raw_capacity_def)

text \<open>
  \<open>IoBuf::slice\<close> views the requested bytes: when the range is ordered, the view it
  returns is well formed, and its bytes are the bytes of the buffer from \<open>begin\<close> up to
  \<open>end\<close> (or to the last initialised byte).
\<close>

theorem slice_views_range:
  assumes "wf_buf b" and "slice b lo hi = Some v" and "as_slice b = Some ds"
    and "range_begin lo = Some s" and "buf_capacity b = Some c" and "range_end c hi = Some e"
    and "s \<le> e"
  shows "v = Slice b s e \<and> wf_buf v \<and> as_slice v = Some (take (e - s) (drop s ds))"
proof -
  obtain p n c' where g: "geometry b p n c'" using wf_buf_geometry [OF assms(1)] by blast
  then have c: "c' = c" "s \<le> n" "e \<le> c" and v: "v = Slice b s e"
    using assms by (auto simp: slice_def geometry_def split: if_splits)
  have gv: "geometry v (p + s) (min e n - s) (e - s)"
    using geometry_Slice [OF g assms(7)] c v by simp
  have "ds = bytes_at (root b) p n" using geometry_as_slice [OF g] assms(3) by simp
  moreover have "raw_ptr (root b) \<le> p" using g by (simp add: geometry_def)
  ultimately have "as_slice v = Some (take (e - s) (drop s ds))"
    using geometry_as_slice [OF gv] v by (simp add: bytes_at_sub)
  moreover have "wf_buf v" using v assms(1,7) c g by (auto simp: geometry_def)
  ultimately show ?thesis using v by simp
qed

theorem slice_views_range_witness:
  "Slice sample_vec 1 4 = Slice sample_vec 1 4 \<and> wf_buf (Slice sample_vec 1 4) \<and>
   as_slice (Slice sample_vec 1 4) = Some (take (4 - 1) (drop 1 [104, 105]))"
  by (rule slice_views_range [where lo = "Included 1" and hi = "Excluded 4" and c = 5])
    (simp_all add: sample_vec_def wf_raw_def slice_def range_begin_def range_end_def
      raw_capacity_def as_slice_def bytes_at_def)

text \<open>
  C35. Vectored reads into empty buffers: after the kernel scatters \<open>ds\<close> over the spare
  regions of the wrapper's buffers and reports their number, \<open>set_init\<close> leaves well-formed
  buffers whose contents, taken in order, are exactly \<open>ds\<close>.
\<close>

theorem vectored_set_init_exact:
  assumes "list_all empty_buf (vb_buffers w)"
    and "length ds \<le> sum_list (map cap_of (vb_buffers w))"
  shows "\<exists>w'. vectored_set_init (length ds) (w\<lparr>vb_buffers := scatter ds (vb_buffers w)\<rparr>) = Some w' \<and>
    list_all wf_buf (vb_buffers w') \<and> length (vb_buffers w') = length (vb_buffers w) \<and>
    concat (map slice_of (vb_buffers w')) = ds"
  using set_init_loop_scatter [OF assms] by (auto simp: vectored_set_init_def)

definition sample_pair :: vectored_buf_wrapper where
  "sample_pair =
     (let mk = \<lambda>a. Raw \<lparr>raw_kind = VecU8, raw_ptr = a, raw_mem = [0, 0, 0], raw_len = 0\<rparr>
      in \<lparr>vb_buffers = [mk 4096, mk 8192], vb_io_slices = [(4096, 0), (8192, 0)],
          vb_io_slices_mut = [(4096, 3), (8192, 3)]\<rparr>)"

theorem vectored_set_init_exact_witness:
  "\<exists>w'. vectored_set_init (length [1, 2, 3, 4 :: u8])
      (sample_pair\<lparr>vb_buffers := scatter [1, 2, 3, 4] (vb_buffers sample_pair)\<rparr>) = Some w' \<and>
    list_all wf_buf (vb_buffers w') \<and> length (vb_buffers w') = length (vb_buffers sample_pair) \<and>
    concat (map slice_of (vb_buffers w')) = [1, 2, 3, 4]"
  by (rule vectored_set_init_exact)
    (simp_all add: sample_pair_def empty_buf_def wf_raw_def mut_buf_def cap_of_def raw_capacity_def)

text \<open>
  The loop of \<open>set_init\<close> compares with the whole capacity of a buffer, not with its
  spare room. Whenever the first buffer already holds bytes and the kernel returns at least
  one byte more than that buffer could take (up to its capacity), the buffer is told to have
  more initialised bytes than it has memory, and the buffers behind it get none.
\<close>

theorem vectored_set_init_overflows_partly_filled:
  assumes "raw_kind r = VecU8" and "wf_raw r" and "list_all empty_buf bs"
    and "length (raw_mem r) - raw_len r < n" and "n < length (raw_mem r)"
  shows "\<exists>r' bs'. set_init_loop n (Raw r # bs) = Some (Raw r' # bs') \<and>
    raw_len r' > length (raw_mem r') \<and> \<not> wf_buf (Raw r') \<and> concat (map slice_of bs') = []"
proof -
  obtain bs' where "set_init_loop 0 bs = Some bs'" "concat (map slice_of bs') = []"
    using set_init_loop_scatter [OF assms(3), of "[]"] scatter_nothing [OF assms(3)] by auto
  then show ?thesis using assms
    by (auto simp: raw_set_buf_init_def raw_capacity_def wf_raw_def)
qed

definition sample_raw :: raw_buf where
  "sample_raw = \<lparr>raw_kind = VecU8, raw_ptr = 4096, raw_mem = [104, 105, 0, 0, 0], raw_len = 2\<rparr>"

theorem vectored_set_init_overflows_partly_filled_witness:
  "\<exists>r' bs'. set_init_loop 4 (Raw sample_raw # vb_buffers sample_pair) = Some (Raw r' # bs') \<and>
    raw_len r' > length (raw_mem r') \<and> \<not> wf_buf (Raw r') \<and> concat (map slice_of bs') = []"
  by (rule vectored_set_init_overflows_partly_filled)
    (simp_all add: sample_raw_def sample_pair_def wf_raw_def empty_buf_def mut_buf_def)

text \<open>
  \<open>IoBuf::slice\<close> checks both ends of the range against the capacity but not against
  each other: a reversed range inside the buffer is accepted, and the view it returns panics
  on its first use (its length and its capacity are both undefined).
\<close>

theorem slice_accepts_reversed_range:
  assumes "buf_len b = Some n" and "buf_capacity b = Some c" and "s \<le> n" and "s < c" and "e < s"
  shows "\<exists>v. slice b (Included s) (Excluded e) = Some v \<and> buf_len v = None \<and> buf_capacity v = None"
  using assms by (simp add: slice_def range_begin_def range_end_def)

theorem slice_accepts_reversed_range_witness:
  "\<exists>v. slice sample_vec (Included 2) (Excluded 1) = Some v \<and> buf_len v = None \<and> buf_capacity v = None"
  by (rule slice_accepts_reversed_range [of _ 2 5]) (simp_all add: sample_vec_def raw_capacity_def)

end
