(* ===== verification/Driver_Base.thy ===== *)
theory Driver_Base
  imports Prelude
begin

text \<open>
  The platform independent part of \<open>src/driver/mod.rs\<close>: operations with their user data,
  completed entries, and the submission side of the trait \<open>CompleteIo\<close> as a locale.

  A driver is seen through the user data it has queued for submission. The laws of
  \<open>submission_queue\<close> are what the trait documents for \<open>try_push_dyn\<close>,
  \<open>push_queue\<close> and \<open>capacity_left\<close>; each of the three drivers interprets it.
\<close>

subsection \<open>Operations and entries\<close>

record 'o operation =
  operation_op :: 'o
  operation_user_data :: usize

definition operation_new :: "'o \<Rightarrow> usize \<Rightarrow> 'o operation" where
  [crate_defs]: "operation_new op ud = \<lparr>operation_op = op, operation_user_data = ud\<rparr>"

definition operation_from_pair :: "'o \<times> usize \<Rightarrow> 'o operation" where
  [crate_defs]: "operation_from_pair p = operation_new (fst p) (snd p)"

definition operation_into_pair :: "'o operation \<Rightarrow> 'o \<times> usize" where
  [crate_defs]: "operation_into_pair x = (operation_op x, operation_user_data x)"

record 'op op_object =
  obj_op :: 'op
  obj_user_data :: usize

definition op_object_new :: "'op \<Rightarrow> usize \<Rightarrow> 'op op_object" where
  [crate_defs]: "op_object_new op ud = \<lparr>obj_op = op, obj_user_data = ud\<rparr>"

definition op_object_from_pair :: "'op \<times> usize \<Rightarrow> 'op op_object" where
  [crate_defs]: "op_object_from_pair p = op_object_new (fst p) (snd p)"

text \<open>\<open>From<Operation<O>> for OpObject\<close>: the reference is coerced to \<open>dyn OpCode\<close>.\<close>

definition op_object_from_operation :: "('o \<Rightarrow> 'op) \<Rightarrow> 'o operation \<Rightarrow> 'op op_object" where
  [crate_defs]: "op_object_from_operation dyn x = op_object_new (dyn (operation_op x)) (operation_user_data x)"

definition op_object_into_pair :: "'op op_object \<Rightarrow> 'op \<times> usize" where
  [crate_defs]: "op_object_into_pair x = (obj_op x, obj_user_data x)"

record entry =
  entry_user_data :: usize
  entry_result :: "usize io_result"

definition entry_new :: "usize \<Rightarrow> usize io_result \<Rightarrow> entry" where
  [crate_defs]: "entry_new ud res = \<lparr>entry_user_data = ud, entry_result = res\<rparr>"

lemma entry_new_sel [simp]:
  "entry_user_data (entry_new ud r) = ud" "entry_result (entry_new ud r) = r"
  by (simp_all add: entry_new_def)

lemma op_object_pair_roundtrip: "op_object_into_pair (op_object_from_pair p) = p"
  by (simp add: crate_defs)

text \<open>The user data of a list of operations and of a list of entries, for bookkeeping.\<close>

definition op_uds :: "'op op_object list \<Rightarrow> usize multiset" where
  "op_uds xs = mset (map obj_user_data xs)"

definition entry_uds :: "entry list \<Rightarrow> usize multiset" where
  "entry_uds es = mset (map entry_user_data es)"

lemma uds_simps [simp]:
  "op_uds [] = {#}" "op_uds (x # xs) = add_mset (obj_user_data x) (op_uds xs)"
  "op_uds (xs @ ys) = op_uds xs + op_uds ys"
  "entry_uds [] = {#}" "entry_uds (e # es) = add_mset (entry_user_data e) (entry_uds es)"
  "entry_uds (es @ es') = entry_uds es + entry_uds es'"
  by (simp_all add: op_uds_def entry_uds_def)

subsection \<open>The submission side of CompleteIo\<close>

text \<open>
  \<open>push_each\<close> is the reference for a batch push: offer the operations one at a time with
  \<open>try_push_dyn\<close> until the first one that is refused.
\<close>

fun push_each ::
  "('op op_object \<Rightarrow> 's \<Rightarrow> (('op op_object + unit) \<times> 's) option) \<Rightarrow> 'op op_object list \<Rightarrow> 's \<Rightarrow>
   ('op op_object list \<times> 's) option" where
  "push_each push [] s = Some ([], s)"
| "push_each push (x # xs) s =
     (case push x s of
        None \<Rightarrow> None
      | Some (Inr _, s') \<Rightarrow> push_each push xs s'
      | Some (Inl x', s') \<Rightarrow> Some (x' # xs, s'))"

locale submission_queue =
  fixes invar :: "'s \<Rightarrow> bool"
    and ready :: "'op op_object \<Rightarrow> bool"
    and queued :: "'s \<Rightarrow> usize list"
    and capacity_left :: "'s \<Rightarrow> nat"
    and try_push :: "'op op_object \<Rightarrow> 's \<Rightarrow> (('op op_object + unit) \<times> 's) option"
    and push_queue :: "'op op_object list \<Rightarrow> 's \<Rightarrow> ('op op_object list \<times> 's) option"
  assumes accepts: "invar s \<Longrightarrow> ready x \<Longrightarrow> 0 < capacity_left s \<Longrightarrow>
      \<exists>s'. try_push x s = Some (Inr (), s') \<and> invar s' \<and>
        queued s' = queued s @ [obj_user_data x] \<and> capacity_left s' = capacity_left s - 1"
    and refuses: "invar s \<Longrightarrow> ready x \<Longrightarrow> capacity_left s = 0 \<Longrightarrow>
      \<exists>x'. try_push x s = Some (Inl x', s) \<and> obj_user_data x' = obj_user_data x"
    and drains: "invar s \<Longrightarrow> \<forall>x \<in> set xs. ready x \<Longrightarrow> k = min (capacity_left s) (length xs) \<Longrightarrow>
      \<exists>s'. push_queue xs s = Some (drop k xs, s') \<and> invar s' \<and>
        queued s' = queued s @ map obj_user_data (take k xs) \<and> capacity_left s' = capacity_left s - k"
begin

lemma push_queue_conserves:
  assumes "invar s" "\<forall>x \<in> set xs. ready x"
  shows "\<exists>rest s'. push_queue xs s = Some (rest, s') \<and> invar s' \<and>
    queued s' @ map obj_user_data rest = queued s @ map obj_user_data xs \<and>
    (rest = [] \<or> capacity_left s' = 0)"
proof -
  let ?k = "min (capacity_left s) (length xs)"
  obtain s' where s': "push_queue xs s = Some (drop ?k xs, s')" "invar s'"
      "queued s' = queued s @ map obj_user_data (take ?k xs)" "capacity_left s' = capacity_left s - ?k"
    using drains [OF assms refl] by blast
  then have "queued s' @ map obj_user_data (drop ?k xs) = queued s @ map obj_user_data xs"
    by (simp add: map_append [symmetric] del: map_append)
  moreover have "drop ?k xs = [] \<or> capacity_left s' = 0" using s'(4) by auto
  ultimately show ?thesis using s'(1,2) by blast
qed

lemma push_each_queued:
  assumes "invar s" "\<forall>x \<in> set xs. ready x"
  shows "\<exists>rest s'. push_each try_push xs s = Some (rest, s') \<and> invar s' \<and>
    queued s' = queued s @ map obj_user_data (take (capacity_left s) xs) \<and>
    map obj_user_data rest = map obj_user_data (drop (capacity_left s) xs) \<and>
    capacity_left s' = capacity_left s - min (capacity_left s) (length xs)"
  using assms
proof (induction xs arbitrary: s)
  case Nil
  then show ?case by simp
next
  case (Cons x xs)
  show ?case
  proof (cases "capacity_left s")
    case 0
    then obtain x' where "try_push x s = Some (Inl x', s)" "obj_user_data x' = obj_user_data x"
      using refuses [of s x] Cons.prems by auto
    then show ?thesis using 0 Cons.prems by simp
  next
    case (Suc n)
    then obtain s1 where "try_push x s = Some (Inr (), s1)" "invar s1"
        "queued s1 = queued s @ [obj_user_data x]" "capacity_left s1 = n"
      using accepts [of s x] Cons.prems by auto
    then show ?thesis using Cons.IH [of s1] Cons.prems Suc by auto
  qed
qed

lemma push_queue_eq_push_each:
  assumes "invar s" "\<forall>x \<in> set xs. ready x"
    and "push_queue xs s = Some (r1, s1)" and "push_each try_push xs s = Some (r2, s2)"
  shows "queued s1 = queued s2 \<and> map obj_user_data r1 = map obj_user_data r2 \<and>
    capacity_left s1 = capacity_left s2"
proof -
  let ?k = "min (capacity_left s) (length xs)"
  have "take ?k xs = take (capacity_left s) xs" "drop ?k xs = drop (capacity_left s) xs"
    by (simp_all add: min_def)
  then show ?thesis
    using drains [OF assms(1,2) refl] push_each_queued [OF assms(1,2)] assms(3,4) by auto
qed

end

end
