(* ===== verification/Timer_Wheel.thy ===== *)
theory Timer_Wheel
  imports Driver_Base
begin

text \<open>
  The timer wheel of \<open>src/driver/time.rs\<close>, used by the kqueue and IOCP drivers.

  The wheel is a \<open>BinaryHeap\<close> of timers whose order is reversed, so that the greatest timer
  is the one with the earliest deadline. The heap of the standard library is a list kept
  in descending order (which of several timers with the same deadline comes first is not
  specified by the library, and no theorem here depends on it); the locale \<open>max_heap\<close> holds
  the laws the wheel needs. Instants and durations are nanoseconds as natural numbers, and
  \<open>Instant::now()\<close> is an argument.
\<close>

subsection \<open>Binary heaps\<close>

fun heap_push :: "('a \<Rightarrow> 'a \<Rightarrow> bool) \<Rightarrow> 'a \<Rightarrow> 'a list \<Rightarrow> 'a list" where
  "heap_push le x [] = [x]"
| "heap_push le x (y # ys) = (if le x y then y # heap_push le x ys else x # y # ys)"

fun heap_peek :: "'a list \<Rightarrow> 'a option" where
  "heap_peek [] = None"
| "heap_peek (x # xs) = Some x"

fun heap_pop :: "'a list \<Rightarrow> ('a \<times> 'a list) option" where
  "heap_pop [] = None"
| "heap_pop (x # xs) = Some (x, xs)"

text \<open>
  The loop \<open>while let Some(x) = peek() { if due { pop(); emit } else { break } }\<close> over any
  heap. Every turn removes an element, so a budget of one more than the size never runs out.
\<close>

fun drain_while ::
  "('h \<Rightarrow> 'a option) \<Rightarrow> ('h \<Rightarrow> ('a \<times> 'h) option) \<Rightarrow> ('a \<Rightarrow> bool) \<Rightarrow> nat \<Rightarrow> 'h \<Rightarrow> 'a list \<times> 'h" where
  "drain_while peek pop due 0 h = ([], h)"
| "drain_while peek pop due (Suc fuel) h =
     (case peek h of
        None \<Rightarrow> ([], h)
      | Some x \<Rightarrow>
          if due x then
            (case pop h of
               None \<Rightarrow> ([], h)
             | Some (y, h') \<Rightarrow>
                 (let (ys, h'') = drain_while peek pop due fuel h' in (y # ys, h'')))
          else ([], h))"

locale max_heap =
  fixes le :: "'a \<Rightarrow> 'a \<Rightarrow> bool"
    and invar :: "'h \<Rightarrow> bool"
    and elems :: "'h \<Rightarrow> 'a multiset"
    and push :: "'a \<Rightarrow> 'h \<Rightarrow> 'h"
    and peek :: "'h \<Rightarrow> 'a option"
    and pop :: "'h \<Rightarrow> ('a \<times> 'h) option"
  assumes peek_None: "invar h \<Longrightarrow> peek h = None \<longleftrightarrow> elems h = {#}"
    and peek_max: "invar h \<Longrightarrow> peek h = Some x \<Longrightarrow> y \<in># elems h \<Longrightarrow> le y x"
    and pop_peek: "invar h \<Longrightarrow> peek h = Some x \<Longrightarrow>
      \<exists>h'. pop h = Some (x, h') \<and> invar h' \<and> elems h = add_mset x (elems h')"
    and push_elems: "invar h \<Longrightarrow> invar (push x h) \<and> elems (push x h) = add_mset x (elems h)"
begin

lemma drain_while_exact:
  assumes "invar h" and "\<And>x y. le y x \<Longrightarrow> due y \<Longrightarrow> due x" and "size (elems h) < fuel"
    and "drain_while peek pop due fuel h = (xs, h')"
  shows "invar h' \<and> mset xs = filter_mset due (elems h) \<and>
    elems h' = filter_mset (\<lambda>x. \<not> due x) (elems h) \<and> sorted_wrt (\<lambda>x y. le y x) xs"
  using assms(1,3,4)
proof (induction fuel arbitrary: h xs h')
  case 0
  then show ?case by simp
next
  case (Suc fuel)
  show ?case
  proof (cases "peek h")
    case None
    moreover have "elems h = {#}" using None peek_None [OF Suc.prems(1)] by blast
    ultimately show ?thesis using Suc.prems by simp
  next
    case (Some x)
    then obtain g where g: "pop h = Some (x, g)" "invar g" "elems h = add_mset x (elems g)"
      using pop_peek Suc.prems(1) by blast
    show ?thesis
    proof (cases "due x")
      case True
      then obtain ys where ys: "drain_while peek pop due fuel g = (ys, h')" "xs = x # ys"
        using Suc.prems(3) Some g(1) by (auto split: prod.splits)
      have "size (elems g) < fuel" using Suc.prems(2) g(3) by simp
      then have IH: "invar h'" "mset ys = filter_mset due (elems g)"
          "elems h' = filter_mset (\<lambda>x. \<not> due x) (elems g)" "sorted_wrt (\<lambda>x y. le y x) ys"
        using Suc.IH [OF g(2) _ ys(1)] by auto
      have "y \<in># elems h" if "y \<in> set ys" for y
        using that IH(2) g(3) by (metis filter_mset_eq_conv insert_iff set_mset_add_mset_insert
            set_mset_mset mset_subset_eqD multiset_filter_subset)
      then show ?thesis using True ys(2) IH g(3) peek_max [OF Suc.prems(1) Some] by auto
    next
      case False
      then have "\<not> due y" if "y \<in># elems h" for y
        using that peek_max [OF Suc.prems(1) Some] assms(2) by blast
      then have "filter_mset due (elems h) = {#}" "filter_mset (\<lambda>x. \<not> due x) (elems h) = elems h"
        by (auto simp: filter_mset_eq_conv)
      then show ?thesis using Suc.prems Some False by auto
    qed
  qed
qed

end

subsection \<open>Timers\<close>

record timer =
  timer_key :: usize
  timer_deadline :: nat

text \<open>\<open>Ord for Timer\<close>: the comparison of the deadlines with the operands swapped.\<close>

definition timer_le :: "timer \<Rightarrow> timer \<Rightarrow> bool" where
  "timer_le a b \<longleftrightarrow> timer_deadline b \<le> timer_deadline a"

definition timer_eq :: "timer \<Rightarrow> timer \<Rightarrow> bool" where
  "timer_eq a b \<longleftrightarrow> timer_deadline a = timer_deadline b"

type_synonym timer_wheel = "timer list"

definition wheel_with_capacity :: "nat \<Rightarrow> timer_wheel" where
  "wheel_with_capacity c = []"

definition wheel_insert :: "nat \<Rightarrow> usize \<Rightarrow> nat \<Rightarrow> timer_wheel \<Rightarrow> timer_wheel" where
  "wheel_insert now key delay w =
     heap_push timer_le \<lparr>timer_key = key, timer_deadline = now + delay\<rparr> w"

definition duration_till_next_timer :: "nat \<Rightarrow> timer_wheel \<Rightarrow> nat option" where
  "duration_till_next_timer now w = map_option (\<lambda>t. timer_deadline t - now) (heap_peek w)"

definition till_next_timer_or_timeout :: "nat \<Rightarrow> nat option \<Rightarrow> timer_wheel \<Rightarrow> nat option" where
  "till_next_timer_or_timeout now timeout w =
     (case duration_till_next_timer now w of
        Some next_timer_delay \<Rightarrow>
          Some (case timeout of Some t \<Rightarrow> min t next_timer_delay | None \<Rightarrow> next_timer_delay)
      | None \<Rightarrow> timeout)"

text \<open>\<open>saturating_duration_since\<close> is the truncated difference.\<close>

definition timer_due :: "nat \<Rightarrow> timer \<Rightarrow> bool" where
  "timer_due now t \<longleftrightarrow> timer_deadline t - now = 0"

definition expire_timers :: "nat \<Rightarrow> timer_wheel \<Rightarrow> entry list \<times> timer_wheel" where
  "expire_timers now w =
     (let (ts, w') = drain_while heap_peek heap_pop (timer_due now) (Suc (length w)) w
      in (map (\<lambda>t. entry_new (timer_key t) (Ok 0)) ts, w'))"

definition wheel_extend :: "nat \<Rightarrow> (usize \<times> nat) list \<Rightarrow> timer_wheel \<Rightarrow> timer_wheel" where
  "wheel_extend now kds w =
     fold (\<lambda>(key, delay). heap_push timer_le \<lparr>timer_key = key, timer_deadline = now + delay\<rparr>) kds w"

subsection \<open>The heap of the wheel\<close>

definition wheel_ok :: "timer_wheel \<Rightarrow> bool" where
  "wheel_ok w \<longleftrightarrow> sorted_wrt (\<lambda>x y. timer_le y x) w"

lemma mset_heap_push: "mset (heap_push le x h) = add_mset x (mset h)"
  by (induction h) auto

lemma set_heap_push: "set (heap_push le x h) = insert x (set h)"
  by (induction h) auto

lemma wheel_ok_push: "wheel_ok w \<Longrightarrow> wheel_ok (heap_push timer_le t w)"
  by (induction w) (auto simp: wheel_ok_def timer_le_def set_heap_push)

interpretation wheel: max_heap timer_le wheel_ok mset "heap_push timer_le" heap_peek heap_pop
proof unfold_locales
  fix h :: timer_wheel and x :: timer
  show "heap_peek h = None \<longleftrightarrow> mset h = {#}" by (cases h) auto
  show "wheel_ok h \<Longrightarrow> heap_peek h = Some x \<Longrightarrow> y \<in># mset h \<Longrightarrow> timer_le y x" for y
    by (cases h) (auto simp: wheel_ok_def timer_le_def)
  show "wheel_ok h \<Longrightarrow> heap_peek h = Some x \<Longrightarrow>
      \<exists>h'. heap_pop h = Some (x, h') \<and> wheel_ok h' \<and> mset h = add_mset x (mset h')"
    by (cases h) (auto simp: wheel_ok_def)
  show "wheel_ok h \<Longrightarrow> wheel_ok (heap_push timer_le x h) \<and> mset (heap_push timer_le x h) = add_mset x (mset h)"
    by (simp add: wheel_ok_push mset_heap_push)
qed

lemma timer_due_iff: "timer_due now t \<longleftrightarrow> timer_deadline t \<le> now"
  by (auto simp: timer_due_def)

lemma wheel_ok_insert: "wheel_ok w \<Longrightarrow> wheel_ok (wheel_insert now k d w)"
  by (simp add: wheel_insert_def wheel_ok_push)

lemma mset_wheel_insert:
  "mset (wheel_insert now k d w) = add_mset \<lparr>timer_key = k, timer_deadline = now + d\<rparr> (mset w)"
  by (simp add: wheel_insert_def mset_heap_push)

lemma wheel_extend_eq_inserts:
  "wheel_extend now kds w = fold (\<lambda>(k, d). wheel_insert now k d) kds w"
  by (simp add: wheel_extend_def wheel_insert_def [abs_def] case_prod_unfold)

lemma wheel_ok_extend: "wheel_ok w \<Longrightarrow> wheel_ok (wheel_extend now kds w)"
  unfolding wheel_extend_eq_inserts
  by (induction kds arbitrary: w) (auto simp: wheel_ok_insert split: prod.splits)

lemma expire_timers_wheel:
  assumes "wheel_ok w" "expire_timers now w = (es, w')"
  obtains ts where "es = map (\<lambda>t. entry_new (timer_key t) (Ok 0)) ts" "wheel_ok w'"
    "mset ts = filter_mset (\<lambda>t. timer_deadline t \<le> now) (mset w)"
    "mset w' = filter_mset (\<lambda>t. now < timer_deadline t) (mset w)"
    "sorted_wrt (\<lambda>x y. timer_deadline x \<le> timer_deadline y) ts"
proof -
  obtain ts where ts: "drain_while heap_peek heap_pop (timer_due now) (Suc (length w)) w = (ts, w')"
      "es = map (\<lambda>t. entry_new (timer_key t) (Ok 0)) ts"
    using assms(2) by (auto simp: expire_timers_def split: prod.splits)
  have "wheel_ok w' \<and> mset ts = filter_mset (timer_due now) (mset w) \<and>
      mset w' = filter_mset (\<lambda>x. \<not> timer_due now x) (mset w) \<and> sorted_wrt (\<lambda>x y. timer_le y x) ts"
    by (rule wheel.drain_while_exact [OF assms(1) _ _ ts(1)]) (auto simp: timer_due_iff timer_le_def)
  then show thesis using that ts(2)
    by (auto simp: timer_due_iff [abs_def] timer_le_def not_le)
qed

definition timer_uds :: "timer_wheel \<Rightarrow> usize multiset" where
  "timer_uds tm = image_mset timer_key (mset tm)"

lemma timer_uds_insert [simp]: "timer_uds (wheel_insert now k t tm) = add_mset k (timer_uds tm)"
  by (simp add: timer_uds_def mset_wheel_insert)

lemma expire_timers_conserves:
  assumes "wheel_ok tm" "expire_timers now tm = (es, tm')"
  shows "timer_uds tm = entry_uds es + timer_uds tm'" "wheel_ok tm'"
proof -
  obtain ts where ts: "es = map (\<lambda>t. entry_new (timer_key t) (Ok 0)) ts" "wheel_ok tm'"
    "mset ts = filter_mset (\<lambda>t. timer_deadline t \<le> now) (mset tm)"
    "mset tm' = filter_mset (\<lambda>t. now < timer_deadline t) (mset tm)"
    by (rule expire_timers_wheel [OF assms])
  have "mset tm = mset ts + mset tm'"
    using multiset_partition [of "mset tm" "\<lambda>t. timer_deadline t \<le> now"] ts(3,4) by (simp add: not_le)
  then show "timer_uds tm = entry_uds es + timer_uds tm'" by (simp add: timer_uds_def entry_uds_def ts(1) comp_def)
  show "wheel_ok tm'" by (rule ts(2))
qed

lemma expire_timers_ok: "wheel_ok w \<Longrightarrow> wheel_ok (snd (expire_timers now w))"
  by (metis expire_timers_wheel prod.collapse)

lemma expire_timers_Nil [simp]: "expire_timers now [] = ([], [])"
  by (simp add: expire_timers_def)

subsection \<open>Properties\<close>

text \<open>
  C11. \<open>expire_timers\<close> fires exactly the timers that are due: for a wheel built by the
  operations above, the entries are the keys of the timers whose deadline has been reached,
  each once, in the order of their deadlines and with the result \<open>Ok(0)\<close>; the wheel keeps
  exactly the others and stays a heap.
\<close>

theorem expire_timers_exact:
  assumes "wheel_ok w" and "expire_timers now w = (es, w')"
  shows "\<exists>ts. es = map (\<lambda>t. entry_new (timer_key t) (Ok 0)) ts \<and>
    mset ts = filter_mset (\<lambda>t. timer_deadline t \<le> now) (mset w) \<and>
    sorted_wrt (\<lambda>x y. timer_deadline x \<le> timer_deadline y) ts \<and>
    mset w' = filter_mset (\<lambda>t. now < timer_deadline t) (mset w) \<and> wheel_ok w'"
  using expire_timers_wheel [OF assms] by metis

definition sample_wheel :: timer_wheel where
  "sample_wheel = wheel_extend 100 [(1, 50), (2, 10), (3, 400)] (wheel_with_capacity 16)"

theorem expire_timers_exact_witness:
  "\<exists>ts. [entry_new 2 (Ok 0), entry_new 1 (Ok 0)] = map (\<lambda>t. entry_new (timer_key t) (Ok 0)) ts \<and>
    mset ts = filter_mset (\<lambda>t. timer_deadline t \<le> 200) (mset sample_wheel) \<and>
    sorted_wrt (\<lambda>x y. timer_deadline x \<le> timer_deadline y) ts \<and>
    mset [\<lparr>timer_key = 3, timer_deadline = 500\<rparr>] =
      filter_mset (\<lambda>t. 200 < timer_deadline t) (mset sample_wheel) \<and>
    wheel_ok [\<lparr>timer_key = 3, timer_deadline = 500\<rparr>]"
proof (rule expire_timers_exact)
  show "wheel_ok sample_wheel"
    unfolding sample_wheel_def wheel_with_capacity_def
    by (rule wheel_ok_extend) (simp add: wheel_ok_def)
  show "expire_timers 200 sample_wheel =
      ([entry_new 2 (Ok 0), entry_new 1 (Ok 0)], [\<lparr>timer_key = 3, timer_deadline = 500\<rparr>])"
    by (simp add: sample_wheel_def wheel_extend_def wheel_with_capacity_def expire_timers_def
        timer_le_def timer_due_def)
qed

text \<open>
  The wait never outlasts a timer or the caller's timeout: the duration that
  \<open>till_next_timer_or_timeout\<close> returns is a lower bound of the timeout and of the time left
  for every timer, and it is one of them; it is absent only when there is neither a timer nor
  a timeout.
\<close>

theorem till_next_timer_or_timeout_least:
  assumes "wheel_ok w"
  shows "till_next_timer_or_timeout now timeout w =
    (if w = [] \<and> timeout = None then None
     else Some (Min ((\<lambda>t. timer_deadline t - now) ` set w \<union> set_option timeout)))"
proof (cases w)
  case Nil
  then show ?thesis
    by (cases timeout) (simp_all add: till_next_timer_or_timeout_def duration_till_next_timer_def)
next
  case (Cons t ts)
  have least: "Min ((\<lambda>t. timer_deadline t - now) ` set w) = timer_deadline t - now"
    using assms Cons by (intro Min_eqI) (auto simp: wheel_ok_def timer_le_def)
  have "Min ((\<lambda>t. timer_deadline t - now) ` set w \<union> set_option timeout) =
      (case timeout of Some d \<Rightarrow> min d (timer_deadline t - now) | None \<Rightarrow> timer_deadline t - now)"
    using least Cons by (cases timeout) (auto simp: min.commute)
  then show ?thesis
    using Cons by (simp add: till_next_timer_or_timeout_def duration_till_next_timer_def)
qed

theorem till_next_timer_or_timeout_least_witness:
  "till_next_timer_or_timeout 120 (Some 70) sample_wheel =
    (if sample_wheel = [] \<and> Some (70 :: nat) = None then None
     else Some (Min ((\<lambda>t. timer_deadline t - 120) ` set sample_wheel \<union> set_option (Some 70))))"
proof (rule till_next_timer_or_timeout_least)
  show "wheel_ok sample_wheel"
    unfolding sample_wheel_def wheel_with_capacity_def
    by (rule wheel_ok_extend) (simp add: wheel_ok_def)
qed

end
