(* ===== verification/Unix_Op.thy ===== *)
theory Unix_Op
  imports Buf
begin

text \<open>
  The operation structures shared by the io_uring and kqueue drivers,
  \<open>src/driver/unix/op.rs\<close>: constructors, \<open>into_inner\<close>, the accept and connect
  epilogues and the message headers of \<open>recvmsg\<close>/\<open>sendmsg\<close>.

  The descriptor type \<open>'fd\<close> is the platform's \<open>FdOrFixed\<close>; \<open>into\<close> is the conversion of
  the trait \<open>IntoFdOrFixed\<close>. The size of \<open>sockaddr_storage\<close> is an argument. Pointers
  into the operation itself are named by what they point at.
\<close>

subsection \<open>Buffers of vectored operations\<close>

text \<open>The implementations of \<open>AsIoSlices\<close> and \<open>AsIoSlicesMut\<close>.\<close>

datatype slices_buf =
    Wrapped buf_wrapper
  | WrappedMut buf_wrapper_mut
  | Vectored vectored_buf_wrapper

fun as_io_slices :: "slices_buf \<Rightarrow> (nat \<times> nat) list" where
  "as_io_slices (Wrapped w) = buf_wrapper_as_io_slices w"
| "as_io_slices (Vectored w) = vb_io_slices w"
| "as_io_slices (WrappedMut w) = []"

fun as_io_slices_mut :: "slices_buf \<Rightarrow> (nat \<times> nat) list" where
  "as_io_slices_mut (WrappedMut w) = buf_wrapper_mut_as_io_slices_mut w"
| "as_io_slices_mut (Vectored w) = vb_io_slices_mut w"
| "as_io_slices_mut (Wrapped w) = []"

fun slices_set_init :: "nat \<Rightarrow> slices_buf \<Rightarrow> slices_buf option" where
  "slices_set_init n (WrappedMut w) = map_option WrappedMut (buf_wrapper_mut_set_init n w)"
| "slices_set_init n (Vectored w) = map_option Vectored (vectored_set_init n w)"
| "slices_set_init n (Wrapped w) = None"

text \<open>\<open>IntoInner\<close> of the single-buffer wrappers gives the buffer back.\<close>

fun wrapper_into_inner :: "slices_buf \<Rightarrow> iobuf list" where
  "wrapper_into_inner (Wrapped w) = [bw_buffer w]"
| "wrapper_into_inner (WrappedMut w) = [bwm_buffer w]"
| "wrapper_into_inner (Vectored w) = vb_buffers w"

subsection \<open>Addresses and message headers\<close>

record sock_addr =
  sa_storage :: "u8 list"
  sa_len :: u32

definition zeroed_addr :: "u32 \<Rightarrow> sock_addr" where
  "zeroed_addr sz = \<lparr>sa_storage = replicate (unat sz) 0, sa_len = sz\<rparr>"

text \<open>A pointer held in a message header: null, or the address stored in the operation.\<close>

datatype msg_ptr = NullPtr | OwnAddr

record msghdr =
  msg_name :: msg_ptr
  msg_namelen :: u32
  msg_iov :: "(nat \<times> nat) list"
  msg_iovlen :: nat
  msg_control :: msg_ptr
  msg_controllen :: nat
  msg_flags :: i32

definition zeroed_msg :: msghdr where
  "zeroed_msg = \<lparr>msg_name = NullPtr, msg_namelen = 0, msg_iov = [], msg_iovlen = 0,
     msg_control = NullPtr, msg_controllen = 0, msg_flags = 0\<rparr>"

subsection \<open>Reads and writes\<close>

record 'fd read_op =
  read_fd :: 'fd
  read_buffer :: iobuf

definition read_new :: "('f \<Rightarrow> 'fd) \<Rightarrow> 'f \<Rightarrow> iobuf \<Rightarrow> 'fd read_op" where
  "read_new into fd buffer = \<lparr>read_fd = into fd, read_buffer = buffer\<rparr>"

definition read_into_inner :: "'fd read_op \<Rightarrow> iobuf" where
  "read_into_inner op = read_buffer op"

record 'fd read_at_op =
  read_at_fd :: 'fd
  read_at_offset :: usize
  read_at_buffer :: iobuf

definition read_at_new :: "('f \<Rightarrow> 'fd) \<Rightarrow> 'f \<Rightarrow> usize \<Rightarrow> iobuf \<Rightarrow> 'fd read_at_op" where
  "read_at_new into fd offset buffer =
     \<lparr>read_at_fd = into fd, read_at_offset = offset, read_at_buffer = buffer\<rparr>"

definition read_at_into_inner :: "'fd read_at_op \<Rightarrow> iobuf" where
  "read_at_into_inner op = read_at_buffer op"

record 'fd write_op =
  write_fd :: 'fd
  write_buffer :: iobuf

definition write_new :: "('f \<Rightarrow> 'fd) \<Rightarrow> 'f \<Rightarrow> iobuf \<Rightarrow> 'fd write_op" where
  "write_new into fd buffer = \<lparr>write_fd = into fd, write_buffer = buffer\<rparr>"

definition write_into_inner :: "'fd write_op \<Rightarrow> iobuf" where
  "write_into_inner op = write_buffer op"

record 'fd write_at_op =
  write_at_fd :: 'fd
  write_at_offset :: usize
  write_at_buffer :: iobuf

definition write_at_new :: "('f \<Rightarrow> 'fd) \<Rightarrow> 'f \<Rightarrow> usize \<Rightarrow> iobuf \<Rightarrow> 'fd write_at_op" where
  "write_at_new into fd offset buffer =
     \<lparr>write_at_fd = into fd, write_at_offset = offset, write_at_buffer = buffer\<rparr>"

definition write_at_into_inner :: "'fd write_at_op \<Rightarrow> iobuf" where
  "write_at_into_inner op = write_at_buffer op"

subsection \<open>Connect, accept and sync\<close>

text \<open>\<open>initiated\<close> exists on the kqueue platforms only; on Linux it stays \<open>False\<close>.\<close>

record 'fd connect_op =
  connect_fd :: 'fd
  connect_addr :: sock_addr
  connect_initiated :: bool

definition connect_new :: "('f \<Rightarrow> 'fd) \<Rightarrow> 'f \<Rightarrow> sock_addr \<Rightarrow> 'fd connect_op" where
  "connect_new into fd addr =
     \<lparr>connect_fd = into fd, connect_addr = addr, connect_initiated = False\<rparr>"

definition connect_on_connect :: "'fd connect_op \<Rightarrow> usize io_result \<Rightarrow> unit io_result" where
  "connect_on_connect op result = (case result of Ok _ \<Rightarrow> Ok () | Err e \<Rightarrow> Err e)"

record 'fd accept_op =
  accept_fd :: 'fd
  accept_addr :: sock_addr
  accept_addr_len :: u32

definition accept_new :: "u32 \<Rightarrow> ('f \<Rightarrow> 'fd) \<Rightarrow> 'f \<Rightarrow> 'fd accept_op" where
  "accept_new sz into fd =
     \<lparr>accept_fd = into fd, accept_addr = zeroed_addr sz, accept_addr_len = sz\<rparr>"

definition accept_with_socket_opts ::
  "u32 \<Rightarrow> ('f \<Rightarrow> 'fd) \<Rightarrow> 'f \<Rightarrow> 'd \<Rightarrow> 't \<Rightarrow> 'p option \<Rightarrow> 'fd accept_op" where
  "accept_with_socket_opts sz into fd domain ty protocol = accept_new sz into fd"

definition accept_init_with_socket_opts ::
  "('f \<Rightarrow> 'fd) \<Rightarrow> 'f \<Rightarrow> 'd \<Rightarrow> 't \<Rightarrow> 'p option \<Rightarrow> 'fd accept_op \<Rightarrow> 'fd accept_op" where
  "accept_init_with_socket_opts into fd domain ty protocol op = op\<lparr>accept_fd := into fd\<rparr>"

definition accept_as_sockaddr :: "'fd accept_op \<Rightarrow> sock_addr \<times> 'fd accept_op" where
  "accept_as_sockaddr op =
     (let addr = (accept_addr op)\<lparr>sa_len := accept_addr_len op\<rparr>
      in (addr, op\<lparr>accept_addr := addr\<rparr>))"

text \<open>
  \<open>on_accept\<close>: the accepted socket is the descriptor in the result; the kqueue platforms
  then switch it to non-blocking mode (\<open>Some set_nonblocking\<close>), Linux does not (\<open>None\<close>).
\<close>

definition accept_on_accept ::
  "(i32 \<Rightarrow> unit io_result) option \<Rightarrow> usize io_result \<Rightarrow> 'fd accept_op \<Rightarrow>
   (i32 \<times> sock_addr) io_result \<times> 'fd accept_op" where
  "accept_on_accept set_nonblocking result op =
     (case result of
        Err e \<Rightarrow> (Err e, op)
      | Ok r \<Rightarrow>
          (let accept_sock = ucast r
           in case (case set_nonblocking of None \<Rightarrow> Ok () | Some f \<Rightarrow> f accept_sock) of
                Err e \<Rightarrow> (Err e, op)
              | Ok _ \<Rightarrow> (let (addr, op') = accept_as_sockaddr op in (Ok (accept_sock, addr), op'))))"

record 'fd sync_op =
  sync_fd :: 'fd
  sync_datasync :: bool

definition sync_new :: "('f \<Rightarrow> 'fd) \<Rightarrow> 'f \<Rightarrow> bool \<Rightarrow> 'fd sync_op" where
  "sync_new into fd datasync = \<lparr>sync_fd = into fd, sync_datasync = datasync\<rparr>"

subsection \<open>Receiving and sending\<close>

record 'fd recv_op =
  recv_fd :: 'fd
  recv_buffer :: iobuf

definition recv_new :: "('f \<Rightarrow> 'fd) \<Rightarrow> 'f \<Rightarrow> iobuf \<Rightarrow> 'fd recv_op" where
  "recv_new into fd buffer = \<lparr>recv_fd = into fd, recv_buffer = buffer\<rparr>"

definition recv_into_inner :: "'fd recv_op \<Rightarrow> iobuf" where
  "recv_into_inner op = recv_buffer op"

record 'fd recv_vectored_op =
  recvv_fd :: 'fd
  recvv_buffer :: slices_buf

definition recv_vectored_new :: "('f \<Rightarrow> 'fd) \<Rightarrow> 'f \<Rightarrow> slices_buf \<Rightarrow> 'fd recv_vectored_op" where
  "recv_vectored_new into fd buffer = \<lparr>recvv_fd = into fd, recvv_buffer = buffer\<rparr>"

definition recv_vectored_into_inner :: "'fd recv_vectored_op \<Rightarrow> slices_buf" where
  "recv_vectored_into_inner op = recvv_buffer op"

record 'fd send_op =
  send_fd :: 'fd
  send_buffer :: iobuf

definition send_new :: "('f \<Rightarrow> 'fd) \<Rightarrow> 'f \<Rightarrow> iobuf \<Rightarrow> 'fd send_op" where
  "send_new into fd buffer = \<lparr>send_fd = into fd, send_buffer = buffer\<rparr>"

definition send_into_inner :: "'fd send_op \<Rightarrow> iobuf" where
  "send_into_inner op = send_buffer op"

record 'fd send_vectored_op =
  sendv_fd :: 'fd
  sendv_buffer :: slices_buf

definition send_vectored_new :: "('f \<Rightarrow> 'fd) \<Rightarrow> 'f \<Rightarrow> slices_buf \<Rightarrow> 'fd send_vectored_op" where
  "send_vectored_new into fd buffer = \<lparr>sendv_fd = into fd, sendv_buffer = buffer\<rparr>"

definition send_vectored_into_inner :: "'fd send_vectored_op \<Rightarrow> slices_buf" where
  "send_vectored_into_inner op = sendv_buffer op"

record 'fd recv_msg_op =
  recvm_fd :: 'fd
  recvm_buffer :: slices_buf
  recvm_addr :: "u8 list"
  recvm_msg :: msghdr

definition recv_msg_new :: "u32 \<Rightarrow> ('f \<Rightarrow> 'fd) \<Rightarrow> 'f \<Rightarrow> slices_buf \<Rightarrow> 'fd recv_msg_op" where
  "recv_msg_new sz into fd buffer =
     \<lparr>recvm_fd = into fd, recvm_buffer = buffer, recvm_addr = replicate (unat sz) 0,
      recvm_msg = zeroed_msg\<rparr>"

definition recv_msg_set_msg :: "'fd recv_msg_op \<Rightarrow> msghdr \<times> 'fd recv_msg_op" where
  "recv_msg_set_msg op =
     (let slices = as_io_slices_mut (recvm_buffer op);
          msg = \<lparr>msg_name = OwnAddr, msg_namelen = of_nat (length (recvm_addr op)),
                 msg_iov = slices, msg_iovlen = length slices,
                 msg_control = NullPtr, msg_controllen = 0, msg_flags = 0\<rparr>
      in (msg, op\<lparr>recvm_msg := msg\<rparr>))"

definition recv_msg_into_inner :: "'fd recv_msg_op \<Rightarrow> slices_buf \<times> sock_addr" where
  "recv_msg_into_inner op =
     (recvm_buffer op, \<lparr>sa_storage = recvm_addr op, sa_len = msg_namelen (recvm_msg op)\<rparr>)"

record 'fd send_msg_op =
  sendm_fd :: 'fd
  sendm_buffer :: slices_buf
  sendm_addr :: sock_addr
  sendm_msg :: msghdr

definition send_msg_new :: "('f \<Rightarrow> 'fd) \<Rightarrow> 'f \<Rightarrow> slices_buf \<Rightarrow> sock_addr \<Rightarrow> 'fd send_msg_op" where
  "send_msg_new into fd buffer addr =
     \<lparr>sendm_fd = into fd, sendm_buffer = buffer, sendm_addr = addr, sendm_msg = zeroed_msg\<rparr>"

definition send_msg_set_msg :: "'fd send_msg_op \<Rightarrow> msghdr \<times> 'fd send_msg_op" where
  "send_msg_set_msg op =
     (let slices = as_io_slices (sendm_buffer op);
          msg = \<lparr>msg_name = OwnAddr, msg_namelen = sa_len (sendm_addr op),
                 msg_iov = slices, msg_iovlen = length slices,
                 msg_control = NullPtr, msg_controllen = 0, msg_flags = 0\<rparr>
      in (msg, op\<lparr>sendm_msg := msg\<rparr>))"

definition send_msg_into_inner :: "'fd send_msg_op \<Rightarrow> slices_buf" where
  "send_msg_into_inner op = sendm_buffer op"

subsection \<open>Lemmas\<close>

lemma recv_msg_set_msg_idem:
  "recv_msg_set_msg (snd (recv_msg_set_msg op)) = recv_msg_set_msg op"
  by (simp add: recv_msg_set_msg_def Let_def)

lemma send_msg_set_msg_idem:
  "send_msg_set_msg (snd (send_msg_set_msg op)) = send_msg_set_msg op"
  by (simp add: send_msg_set_msg_def Let_def)

text \<open>The two epilogues of accept: an error is passed on without touching the operation, a
  success pairs the descriptor with the stored address at the length the kernel wrote.\<close>

lemma on_accept_Err: "accept_on_accept nb (Err e) op = (Err e, op)"
  by (simp add: accept_on_accept_def)

lemma on_accept_Ok:
  "(\<And>f. nb = Some f \<Longrightarrow> f (ucast r) = Ok ()) \<Longrightarrow>
   fst (accept_on_accept nb (Ok r) op) =
     Ok (ucast r, (accept_addr op)\<lparr>sa_len := accept_addr_len op\<rparr>)"
  by (cases nb) (simp_all add: accept_on_accept_def accept_as_sockaddr_def Let_def)

subsection \<open>The memory an operation hands to the kernel\<close>

text \<open>
  A region the kernel may write lies in the spare room of the allocation, one it may read in
  the initialised bytes. \<open>slices_ok\<close> says that the recorded slices are those of the buffers.
\<close>

definition spare_region :: "iobuf \<Rightarrow> nat \<times> nat \<Rightarrow> bool" where
  "spare_region b r \<longleftrightarrow> snd r = 0 \<or>
     raw_ptr (root b) + raw_len (root b) \<le> fst r \<and>
     fst r + snd r \<le> raw_ptr (root b) + length (raw_mem (root b))"

definition data_region :: "iobuf \<Rightarrow> nat \<times> nat \<Rightarrow> bool" where
  "data_region b r \<longleftrightarrow> raw_ptr (root b) \<le> fst r \<and> fst r + snd r \<le> raw_ptr (root b) + raw_len (root b)"

lemma spare_region_shrink: "spare_region b (a, k) \<Longrightarrow> k' \<le> k \<Longrightarrow> spare_region b (a, k')"
  by (auto simp: spare_region_def)

lemma data_region_shrink: "data_region b (a, k) \<Longrightarrow> k' \<le> k \<Longrightarrow> data_region b (a, k')"
  by (auto simp: data_region_def)

lemma uninit_spare_region:
  assumes "wf_buf b"
  obtains a k where "as_uninit_slice b = Some (a, k)" "spare_region b (a, k)"
proof -
  obtain p n c where g: "geometry b p n c" using wf_buf_geometry [OF assms] by blast
  then have "spare_region b (p + n, c - n)" by (auto simp: geometry_def spare_region_def)
  then show ?thesis using that geometry_uninit [OF g] by blast
qed

lemma slice_data_region:
  assumes "wf_buf b"
  obtains p n where "as_buf_ptr b = Some p" "buf_len b = Some n" "data_region b (p, n)"
  using wf_buf_geometry [OF assms] by (auto simp: geometry_def data_region_def)

definition init_region :: "iobuf \<Rightarrow> (nat \<times> nat) option" where
  "init_region b = do { p \<leftarrow> as_buf_ptr b; s \<leftarrow> as_slice b; Some (p, length s) }"

lemma init_data_region:
  assumes "wf_buf b"
  obtains p n where "init_region b = Some (p, n)" "data_region b (p, n)"
proof -
  obtain p n c where g: "geometry b p n c" using wf_buf_geometry [OF assms] by blast
  then have "as_buf_ptr b = Some p" "data_region b (p, n)" by (auto simp: geometry_def data_region_def)
  moreover have "length (bytes_at (root b) p n) \<le> n" by (simp add: bytes_at_def)
  ultimately show ?thesis
    using that geometry_as_slice [OF g] data_region_shrink by (auto simp: init_region_def)
qed

fun slices_ok :: "slices_buf \<Rightarrow> bool" where
  "slices_ok (Wrapped w) \<longleftrightarrow> buf_wrapper_from (bw_buffer w) = Some w"
| "slices_ok (WrappedMut w) \<longleftrightarrow> buf_wrapper_mut_from (bwm_buffer w) = Some w"
| "slices_ok (Vectored w) \<longleftrightarrow> vectored_from (vb_buffers w) = Some w"

lemma those_mem:
  "those (map f xs) = Some ys \<Longrightarrow> y \<in> set ys \<Longrightarrow> \<exists>x \<in> set xs. f x = Some y"
  by (induction xs arbitrary: ys) (auto split: option.splits)

lemma from_SomeD:
  "vectored_from bs = Some w \<Longrightarrow> those (map as_uninit_slice bs) = Some (vb_io_slices_mut w)"
  "vectored_from bs = Some w \<Longrightarrow>
     those (map (\<lambda>b. do { p \<leftarrow> as_buf_ptr b; n \<leftarrow> buf_len b; Some (p, n) }) bs) = Some (vb_io_slices w)"
  "buf_wrapper_mut_from b = Some m \<Longrightarrow> as_uninit_slice b = Some (bwm_io_slice_mut m)"
  "buf_wrapper_from b = Some v \<Longrightarrow> do { p \<leftarrow> as_buf_ptr b; n \<leftarrow> buf_len b; Some (p, n) } = Some (bw_io_slice v)"
  by (auto simp: vectored_from_def buf_wrapper_mut_from_def buf_wrapper_from_def split: bind_splits)

lemma slices_mut_regions:
  assumes "slices_ok sb" "\<forall>b \<in> set (wrapper_into_inner sb). wf_buf b" "r \<in> set (as_io_slices_mut sb)"
  shows "\<exists>b \<in> set (wrapper_into_inner sb). spare_region b r"
proof -
  have "\<exists>b \<in> set (wrapper_into_inner sb). as_uninit_slice b = Some r"
  proof (cases sb)
    case (Vectored w)
    then show ?thesis
      using those_mem [OF from_SomeD(1) [of "vb_buffers w" w], of r] assms(1,3) by auto
  qed (use assms from_SomeD(3) in \<open>auto simp: buf_wrapper_mut_as_io_slices_mut_def\<close>)
  then show ?thesis using assms(2) uninit_spare_region by (metis option.inject)
qed

lemma slices_regions:
  assumes "slices_ok sb" "\<forall>b \<in> set (wrapper_into_inner sb). wf_buf b" "r \<in> set (as_io_slices sb)"
  shows "\<exists>b \<in> set (wrapper_into_inner sb). data_region b r"
proof -
  have "\<exists>b \<in> set (wrapper_into_inner sb). do { p \<leftarrow> as_buf_ptr b; n \<leftarrow> buf_len b; Some (p, n) } = Some r"
  proof (cases sb)
    case (Vectored w)
    then show ?thesis
      using those_mem [OF from_SomeD(2) [of "vb_buffers w" w], of r] assms(1,3) by auto
  qed (use assms from_SomeD(4) in \<open>auto simp: buf_wrapper_as_io_slices_def\<close>)
  then obtain b where b: "b \<in> set (wrapper_into_inner sb)"
    "do { p \<leftarrow> as_buf_ptr b; n \<leftarrow> buf_len b; Some (p, n) } = Some r" by blast
  obtain p n where "as_buf_ptr b = Some p" "buf_len b = Some n" "data_region b (p, n)"
    using b(1) assms(2) slice_data_region by blast
  then show ?thesis using b by auto
qed

end
