(* ===== verification/Iour_Driver.thy ===== *)
theory Iour_Driver
  imports Driver_Base Unix_Op
begin

text \<open>
  The io_uring driver, \<open>src/driver/iour/mod.rs\<close>: descriptors, the submission queue, the
  asynchronous registration of fixed files and the processing of completions.

  The crate \<open>io_uring\<close> and the kernel behind it are a parameter: a record of the
  operations the driver calls on an abstract ring state \<open>'r\<close>. \<open>ring_spec\<close> is what their
  documentation promises about the submission queue, seen through the list \<open>sq r\<close> of
  entries that wait in it; the theorems name it as a hypothesis where they need it. The
  error numbers of the platform are a parameter as well.
\<close>

subsection \<open>Descriptors\<close>

datatype fd = Fd (fd_raw: i32)
datatype fixed_fd = FixedFd (fixed_offset: u32)
datatype fd_or_fixed = OfFd fd | OfFixed fixed_fd

definition INVALID_FD :: fd where
  "INVALID_FD = Fd (-1)"

definition INVALID_FIXED_FD :: fixed_fd where
  "INVALID_FIXED_FD = FixedFd (-1)"

text \<open>The two instances of \<open>IntoFdOrFixed\<close>.\<close>

definition fd_into :: "fd \<Rightarrow> fd_or_fixed" where "fd_into f = OfFd f"
definition fixed_fd_into :: "fixed_fd \<Rightarrow> fd_or_fixed" where "fixed_fd_into f = OfFixed f"

subsection \<open>Entries of the two queues\<close>

datatype io_target = TFd i32 | TFixed u32

type_synonym timespec = "nat \<times> nat"

datatype sqe_op =
    OpRead io_target nat u32 "usize option"
  | OpWrite io_target nat u32 "usize option"
  | OpFsync io_target bool
  | OpAccept io_target u32
  | OpConnect io_target sock_addr
  | OpRecv io_target nat u32
  | OpReadv io_target "(nat \<times> nat) list" u32
  | OpSend io_target nat u32
  | OpWritev io_target "(nat \<times> nat) list" u32
  | OpRecvMsg io_target msghdr
  | OpSendMsg io_target msghdr
  | OpTimeout timespec u32
  | OpClose i32
  | OpAsyncCancel u64
  | OpFilesUpdate u32

record sqe =
  sqe_op :: sqe_op
  sqe_user_data :: u64

record cqe =
  cqe_user_data :: u64
  cqe_result :: i32

record errnos =
  ETIME :: i32
  EBUSY :: i32
  EAGAIN :: i32
  ENOENT :: i32
  EALREADY :: i32

subsection \<open>The ring\<close>

datatype submit_mode = SubmitAndWait1 | SubmitOnly | SubmitWait1For timespec

record 'r io_uring =
  ring_new :: "u32 \<Rightarrow> 'r io_result"
  sq_capacity :: "'r \<Rightarrow> nat"
  sq_len :: "'r \<Rightarrow> nat"
  sq_is_full :: "'r \<Rightarrow> bool"
  sq_push :: "sqe \<Rightarrow> 'r \<Rightarrow> 'r option"
  sq_push_multiple :: "sqe list \<Rightarrow> 'r \<Rightarrow> 'r option"
  sq_sync :: "'r \<Rightarrow> 'r"
  ring_submit :: "submit_mode \<Rightarrow> 'r \<Rightarrow> nat io_result \<times> 'r"
  ring_completion :: "'r \<Rightarrow> cqe list \<times> 'r"
  probe_socket :: "'r \<Rightarrow> bool io_result \<times> 'r"
  ring_register_files_sparse :: "u32 \<Rightarrow> 'r \<Rightarrow> unit io_result \<times> 'r"
  ring_register_files :: "i32 list \<Rightarrow> 'r \<Rightarrow> unit io_result \<times> 'r"
  ring_files_update :: "u32 \<Rightarrow> i32 list \<Rightarrow> 'r \<Rightarrow> nat io_result \<times> 'r"
  SKIP_FILE :: i32

definition ring_spec :: "'r io_uring \<Rightarrow> ('r \<Rightarrow> sqe list) \<Rightarrow> bool" where
  "ring_spec U sq \<longleftrightarrow>
     (\<forall>r. sq_len U r = length (sq r) \<and> length (sq r) \<le> sq_capacity U r) \<and>
     (\<forall>r. sq_is_full U r \<longleftrightarrow> sq_len U r = sq_capacity U r) \<and>
     (\<forall>e r. case sq_push U e r of
        None \<Rightarrow> length (sq r) = sq_capacity U r
      | Some r' \<Rightarrow> length (sq r) < sq_capacity U r \<and> sq r' = sq r @ [e] \<and>
                  sq_capacity U r' = sq_capacity U r) \<and>
     (\<forall>es r. case sq_push_multiple U es r of
        None \<Rightarrow> sq_capacity U r < length (sq r) + length es
      | Some r' \<Rightarrow> sq r' = sq r @ es \<and> sq_capacity U r' = sq_capacity U r)"

subsection \<open>The driver\<close>

datatype files_update_state = NoUpdateInProgress | Pushed | Submitted

record 'r iour_driver =
  inner :: 'r
  squeue_buffer :: "sqe list"
  files_update_fds :: "i32 list"
  files_update_state :: files_update_state

definition FILES_UPDATE_KEY :: u64 where
  "FILES_UPDATE_KEY = -1"

definition iour_with :: "'r io_uring \<Rightarrow> u32 \<Rightarrow> u32 \<Rightarrow> 'r iour_driver io_result" where
  "iour_with U entries files_to_register =
     (let mk = \<lambda>r fds. \<lparr>inner = r, squeue_buffer = [], files_update_fds = fds,
                         files_update_state = NoUpdateInProgress\<rparr>;
          n = unat files_to_register
      in case ring_new U entries of
           Err e \<Rightarrow> Err e
         | Ok r \<Rightarrow>
             if 0 < files_to_register then
               (case probe_socket U r of
                  (Err e, _) \<Rightarrow> Err e
                | (Ok supported, r) \<Rightarrow>
                    if supported then
                      (case ring_register_files_sparse U files_to_register r of
                         (Err e, _) \<Rightarrow> Err e
                       | (Ok _, r) \<Rightarrow> Ok (mk r (replicate n (SKIP_FILE U))))
                    else
                      (case ring_register_files U (replicate n (-1)) r of
                         (Err e, _) \<Rightarrow> Err e
                       | (Ok _, r) \<Rightarrow> Ok (mk r (map (\<lambda>_. SKIP_FILE U) (replicate n (-1 :: i32))))))
             else Ok (mk r []))"

definition iour_new :: "'r io_uring \<Rightarrow> 'r iour_driver io_result" where
  "iour_new U = iour_with U 1024 0"

definition timespec :: "nat \<Rightarrow> timespec" where
  "timespec duration = (duration div 1000000000, duration mod 1000000000)"

definition submit_impl ::
  "'r io_uring \<Rightarrow> errnos \<Rightarrow> nat option \<Rightarrow> 'r iour_driver \<Rightarrow> unit io_result \<times> 'r iour_driver" where
  "submit_impl U no timeout d =
     (let (res, r) =
            (case timeout of
               None \<Rightarrow> ring_submit U SubmitAndWait1 (inner d)
             | Some duration \<Rightarrow>
                 if duration = 0 then ring_submit U SubmitOnly (inner d)
                 else ring_submit U (SubmitWait1For (timespec duration)) (inner d));
          d' = d\<lparr>inner := r\<rparr>
      in case res of
           Ok _ \<Rightarrow> (Ok (), d')
         | Err e \<Rightarrow>
             (case raw_os_error e of
                Some c \<Rightarrow>
                  if c = ETIME no then (Ok (), d')
                  else if c = EBUSY no \<or> c = EAGAIN no then (Ok (), d')
                  else (Err e, d')
              | None \<Rightarrow> (Err e, d')))"

definition create_entry :: "cqe \<Rightarrow> entry" where
  "create_entry c =
     (let result = cqe_result c;
          result = (if is_negative result then Err (Os (- result)) else Ok (i32_as_usize result))
      in entry_new (cqe_user_data c) result)"

definition reset_files_update :: "'r io_uring \<Rightarrow> 'r iour_driver \<Rightarrow> 'r iour_driver" where
  "reset_files_update U d =
     d\<lparr>files_update_fds := map (\<lambda>_. SKIP_FILE U) (files_update_fds d),
       files_update_state := NoUpdateInProgress\<rparr>"

definition complete_cqe ::
  "'r io_uring \<Rightarrow> errnos \<Rightarrow> cqe \<Rightarrow> 'r iour_driver \<Rightarrow> entry option \<times> 'r iour_driver" where
  "complete_cqe U no c d =
     (if cqe_user_data c = FILES_UPDATE_KEY then (None, reset_files_update U d)
      else if cqe_result c = - ETIME no then (Some (entry_new (cqe_user_data c) (Ok 0)), d)
      else if cqe_result c = - ENOENT no \<or> cqe_result c = - EALREADY no then (None, d)
      else (Some (create_entry c), d))"

fun complete_cqes ::
  "'r io_uring \<Rightarrow> errnos \<Rightarrow> cqe list \<Rightarrow> 'r iour_driver \<Rightarrow> entry list \<times> 'r iour_driver" where
  "complete_cqes U no [] d = ([], d)"
| "complete_cqes U no (c # cs) d =
     (let (e, d') = complete_cqe U no c d;
          (es, d'') = complete_cqes U no cs d'
      in ((case e of None \<Rightarrow> es | Some x \<Rightarrow> x # es), d''))"

definition complete_entries ::
  "'r io_uring \<Rightarrow> errnos \<Rightarrow> 'r iour_driver \<Rightarrow> entry list \<times> 'r iour_driver" where
  "complete_entries U no d =
     (let (cs, r) = ring_completion U (inner d) in complete_cqes U no cs (d\<lparr>inner := r\<rparr>))"

text \<open>
  \<open>register_fd_impl\<close>. The two debug assertions, the index into \<open>files_update_fds\<close> and the
  \<open>expect\<close> on the push are the panics.
\<close>

definition register_fd_impl ::
  "'r io_uring \<Rightarrow> i32 \<Rightarrow> u32 \<Rightarrow> 'r iour_driver \<Rightarrow> (unit io_result \<times> 'r iour_driver) option" where
  "register_fd_impl U fd ix d =
     (let i = unat ix; fds = files_update_fds d
      in if \<not> (0 < length fds \<and> i < length fds) then None
         else if sq_is_full U (inner d) \<or> files_update_state d = Submitted then
           (case ring_files_update U ix [fd] (inner d) of
              (Err e, r) \<Rightarrow> Some (Err e, d\<lparr>inner := r\<rparr>)
            | (Ok _, r) \<Rightarrow> Some (Ok (), d\<lparr>inner := r\<rparr>))
         else if files_update_state d = NoUpdateInProgress then
           (let squeue_entry = \<lparr>sqe_op = OpFilesUpdate (of_nat (length fds)),
                                sqe_user_data = FILES_UPDATE_KEY\<rparr>
            in case sq_push U squeue_entry (inner d) of
                 None \<Rightarrow> None
               | Some r \<Rightarrow> Some (Ok (), d\<lparr>inner := r, files_update_fds := fds[i := fd],
                                          files_update_state := Pushed\<rparr>))
         else Some (Ok (), d\<lparr>files_update_fds := fds[i := fd]\<rparr>))"

definition iour_attach :: "i32 \<Rightarrow> 'r iour_driver \<Rightarrow> fd io_result \<times> 'r iour_driver" where
  "iour_attach fd d = (Ok (Fd fd), d)"

definition iour_register_fd ::
  "'r io_uring \<Rightarrow> i32 \<Rightarrow> u32 \<Rightarrow> 'r iour_driver \<Rightarrow> (fixed_fd io_result \<times> 'r iour_driver) option" where
  "iour_register_fd U fd ix d =
     do { (res, d') \<leftarrow> register_fd_impl U fd ix d;
          Some ((case res of Ok _ \<Rightarrow> Ok (FixedFd ix) | Err e \<Rightarrow> Err e), d') }"

definition iour_unregister_fd ::
  "'r io_uring \<Rightarrow> fixed_fd \<Rightarrow> 'r iour_driver \<Rightarrow> (unit io_result \<times> 'r iour_driver) option" where
  "iour_unregister_fd U fixed_fd d = register_fd_impl U (-1) (fixed_offset fixed_fd) d"

definition iour_try_cancel ::
  "'r io_uring \<Rightarrow> usize \<Rightarrow> 'r iour_driver \<Rightarrow> (unit + unit) \<times> 'r iour_driver" where
  "iour_try_cancel U user_data d =
     (case sq_push U \<lparr>sqe_op = OpAsyncCancel user_data, sqe_user_data = user_data\<rparr> (inner d) of
        None \<Rightarrow> (Err (), d)
      | Some r \<Rightarrow> (Ok (), d\<lparr>inner := r\<rparr>))"

text \<open>
  Pushing an operation asks it for its submission entry first (\<open>OpCode::create_entry\<close>, a
  method that may change the operation and may panic: the argument \<open>C\<close>), then offers the
  entry to the ring. A refused operation comes back in the state \<open>create_entry\<close> left it in.
\<close>

definition iour_try_push_dyn ::
  "'r io_uring \<Rightarrow> ('op \<Rightarrow> (sqe_op \<times> 'op) option) \<Rightarrow> 'op op_object \<Rightarrow> 'r iour_driver \<Rightarrow>
   (('op op_object + unit) \<times> 'r iour_driver) option" where
  "iour_try_push_dyn U C op d =
     do { (e, op') \<leftarrow> C (obj_op op);
          case sq_push U \<lparr>sqe_op = e, sqe_user_data = obj_user_data op\<rparr> (inner d) of
            None \<Rightarrow> Some (Err (op\<lparr>obj_op := op'\<rparr>), d)
          | Some r \<Rightarrow> Some (Ok (), d\<lparr>inner := r\<rparr>) }"

definition iour_try_push ::
  "'r io_uring \<Rightarrow> ('o \<Rightarrow> (sqe_op \<times> 'o) option) \<Rightarrow> 'o operation \<Rightarrow> 'r iour_driver \<Rightarrow>
   (('o operation + unit) \<times> 'r iour_driver) option" where
  "iour_try_push U C op d =
     do { (e, op') \<leftarrow> C (operation_op op);
          case sq_push U \<lparr>sqe_op = e, sqe_user_data = operation_user_data op\<rparr> (inner d) of
            None \<Rightarrow> Some (Err (op\<lparr>operation_op := op'\<rparr>), d)
          | Some r \<Rightarrow> Some (Ok (), d\<lparr>inner := r\<rparr>) }"

definition iour_capacity_left :: "'r io_uring \<Rightarrow> 'r iour_driver \<Rightarrow> nat" where
  "iour_capacity_left U d = sq_capacity U (inner d) - sq_len U (inner d)"

definition entry_of :: "('op \<Rightarrow> (sqe_op \<times> 'op) option) \<Rightarrow> 'op op_object \<Rightarrow> sqe option" where
  "entry_of C op =
     do { (e, _) \<leftarrow> C (obj_op op); Some \<lparr>sqe_op = e, sqe_user_data = obj_user_data op\<rparr> }"

definition iour_push_queue ::
  "'r io_uring \<Rightarrow> ('op \<Rightarrow> (sqe_op \<times> 'op) option) \<Rightarrow> 'op op_object list \<Rightarrow> 'r iour_driver \<Rightarrow>
   ('op op_object list \<times> 'r iour_driver) option" where
  "iour_push_queue U C ops_queue d =
     (let to_drain = min (iour_capacity_left U d) (length ops_queue)
      in if to_drain = 0 then Some (ops_queue, d)
         else
           do { es \<leftarrow> those (map (entry_of C) (take to_drain ops_queue));
                r \<leftarrow> sq_push_multiple U es (inner d);
                Some (drop to_drain ops_queue, d\<lparr>inner := r, squeue_buffer := es\<rparr>) })"

definition iour_submit ::
  "'r io_uring \<Rightarrow> errnos \<Rightarrow> nat option \<Rightarrow> 'r iour_driver \<Rightarrow>
   (unit io_result \<times> entry list) \<times> 'r iour_driver" where
  "iour_submit U no timeout d =
     (let d1 = d\<lparr>inner := sq_sync U (inner d)\<rparr>;
          d2 = (if files_update_state d1 = Pushed then d1\<lparr>files_update_state := Submitted\<rparr> else d1);
          (res, d3) = submit_impl U no timeout d2;
          (es, d4) = complete_entries U no d3
      in ((res, es), d4))"

subsection \<open>The submission queue contract\<close>

lemma ring_len:
  "ring_spec U sq \<Longrightarrow> sq_len U r = length (sq r)"
  "ring_spec U sq \<Longrightarrow> length (sq r) \<le> sq_capacity U r"
  by (simp_all add: ring_spec_def)

lemma ring_full: "ring_spec U sq \<Longrightarrow> sq_is_full U r \<longleftrightarrow> length (sq r) = sq_capacity U r"
  by (simp add: ring_spec_def)

lemma ring_push_cases:
  "ring_spec U sq \<Longrightarrow> case sq_push U e r of
     None \<Rightarrow> length (sq r) = sq_capacity U r
   | Some r' \<Rightarrow> length (sq r) < sq_capacity U r \<and> sq r' = sq r @ [e] \<and>
               sq_capacity U r' = sq_capacity U r"
  unfolding ring_spec_def by (elim conjE allE)

lemma ring_push_multiple_cases:
  "ring_spec U sq \<Longrightarrow> case sq_push_multiple U es r of
     None \<Rightarrow> sq_capacity U r < length (sq r) + length es
   | Some r' \<Rightarrow> sq r' = sq r @ es \<and> sq_capacity U r' = sq_capacity U r"
  unfolding ring_spec_def by (elim conjE allE)

lemma ring_push_room:
  assumes "ring_spec U sq" "length (sq r) < sq_capacity U r"
  obtains r' where "sq_push U e r = Some r'" "sq r' = sq r @ [e]" "sq_capacity U r' = sq_capacity U r"
  using ring_push_cases [OF assms(1), where e = e and r = r] assms(2) by (auto split: option.splits)

lemma ring_push_full:
  assumes "ring_spec U sq" "length (sq r) = sq_capacity U r"
  shows "sq_push U e r = None"
  using ring_push_cases [OF assms(1), where e = e and r = r] assms(2) by (auto split: option.splits)

lemma ring_push_multiple_room:
  assumes "ring_spec U sq" "length (sq r) + length es \<le> sq_capacity U r"
  obtains r' where "sq_push_multiple U es r = Some r'" "sq r' = sq r @ es"
    "sq_capacity U r' = sq_capacity U r"
  using ring_push_multiple_cases [OF assms(1), where es = es and r = r] assms(2) by (auto split: option.splits)

definition iour_queued :: "('r \<Rightarrow> sqe list) \<Rightarrow> 'r iour_driver \<Rightarrow> usize list" where
  "iour_queued sq d = map sqe_user_data (sq (inner d))"

lemma capacity_left_ring:
  "ring_spec U sq \<Longrightarrow> iour_capacity_left U d = sq_capacity U (inner d) - length (sq (inner d))"
  by (simp add: iour_capacity_left_def ring_len)

lemma those_entries:
  "\<forall>x \<in> set xs. C (obj_op x) \<noteq> None \<Longrightarrow>
   \<exists>es. those (map (entry_of C) xs) = Some es \<and> map sqe_user_data es = map obj_user_data xs"
  by (induction xs) (auto simp: entry_of_def)

interpretation iour: submission_queue "\<lambda>d. ring_spec U sq" "\<lambda>x. C (obj_op x) \<noteq> None"
  "iour_queued sq" "iour_capacity_left U" "iour_try_push_dyn U C" "iour_push_queue U C"
  for U :: "'r io_uring" and sq and C :: "'op \<Rightarrow> (sqe_op \<times> 'op) option"
proof unfold_locales
  fix d :: "'r iour_driver" and x :: "'op op_object"
  assume U: "ring_spec U sq" and "C (obj_op x) \<noteq> None" "0 < iour_capacity_left U d"
  then have "length (sq (inner d)) < sq_capacity U (inner d)" by (simp add: capacity_left_ring)
  then obtain r' where "sq_push U \<lparr>sqe_op = fst (the (C (obj_op x))), sqe_user_data = obj_user_data x\<rparr> (inner d) = Some r'"
      "sq r' = sq (inner d) @ [\<lparr>sqe_op = fst (the (C (obj_op x))), sqe_user_data = obj_user_data x\<rparr>]"
      "sq_capacity U r' = sq_capacity U (inner d)"
    by (rule ring_push_room [OF U])
  then show "\<exists>d'. iour_try_push_dyn U C x d = Some (Ok (), d') \<and> ring_spec U sq \<and>
      iour_queued sq d' = iour_queued sq d @ [obj_user_data x] \<and>
      iour_capacity_left U d' = iour_capacity_left U d - 1"
    using \<open>C (obj_op x) \<noteq> None\<close> U
    by (auto simp: iour_try_push_dyn_def iour_queued_def capacity_left_ring)
next
  fix d :: "'r iour_driver" and x :: "'op op_object"
  assume U: "ring_spec U sq" and "C (obj_op x) \<noteq> None" "iour_capacity_left U d = 0"
  then have "length (sq (inner d)) = sq_capacity U (inner d)"
    using ring_len(2) [OF U, of "inner d"] by (simp add: capacity_left_ring)
  then have "sq_push U e (inner d) = None" for e by (rule ring_push_full [OF U])
  then show "\<exists>x'. iour_try_push_dyn U C x d = Some (Err x', d) \<and> obj_user_data x' = obj_user_data x"
    using \<open>C (obj_op x) \<noteq> None\<close> by (auto simp: iour_try_push_dyn_def)
next
  fix d :: "'r iour_driver" and xs :: "'op op_object list" and k
  assume U: "ring_spec U sq" and xs: "\<forall>x \<in> set xs. C (obj_op x) \<noteq> None"
    and k: "k = min (iour_capacity_left U d) (length xs)"
  have "\<forall>x \<in> set (take k xs). C (obj_op x) \<noteq> None" using xs by (meson in_set_takeD)
  then obtain es where es: "those (map (entry_of C) (take k xs)) = Some es"
      "map sqe_user_data es = map obj_user_data (take k xs)"
    using those_entries by blast
  have "length es = length (map sqe_user_data es)" by simp
  also have "\<dots> = k" unfolding es(2) by (simp add: k)
  finally have "length es = k" .
  then have "length (sq (inner d)) + length es \<le> sq_capacity U (inner d)"
    using k ring_len(2) [OF U, of "inner d"] by (simp add: capacity_left_ring [OF U])
  then obtain r' where "sq_push_multiple U es (inner d) = Some r'" "sq r' = sq (inner d) @ es"
      "sq_capacity U r' = sq_capacity U (inner d)"
    by (rule ring_push_multiple_room [OF U])
  note r' = this
  have "iour_push_queue U C xs d =
      Some (drop k xs, if k = 0 then d else d\<lparr>inner := r', squeue_buffer := es\<rparr>)"
    unfolding iour_push_queue_def k [symmetric] Let_def by (simp add: es(1) r'(1))
  then show "\<exists>d'. iour_push_queue U C xs d = Some (drop k xs, d') \<and> ring_spec U sq \<and>
      iour_queued sq d' = iour_queued sq d @ map obj_user_data (take k xs) \<and>
      iour_capacity_left U d' = iour_capacity_left U d - k"
  proof (intro exI conjI)
    let ?d = "if k = 0 then d else d\<lparr>inner := r', squeue_buffer := es\<rparr>"
    show "iour_queued sq ?d = iour_queued sq d @ map obj_user_data (take k xs)"
      by (simp add: iour_queued_def r'(2) es(2))
    show "iour_capacity_left U ?d = iour_capacity_left U d - k"
      by (simp add: capacity_left_ring [OF U] r'(2,3) \<open>length es = k\<close>)
  qed (use U in simp_all)
qed

subsection \<open>A ring kept as lists\<close>

text \<open>
  An instance of the ring, for the witnesses: the submission queue and the entries the kernel
  works on are lists, submitting hands the whole queue over, every request completes with 0.
\<close>

record list_ring =
  lr_cap :: nat
  lr_sq :: "sqe list"
  lr_flight :: "sqe list"

definition lr_push :: "sqe list \<Rightarrow> list_ring \<Rightarrow> list_ring option" where
  "lr_push es r = (if length (lr_sq r) + length es \<le> lr_cap r then Some (r\<lparr>lr_sq := lr_sq r @ es\<rparr>) else None)"

definition list_io_uring :: "list_ring io_uring" where
  "list_io_uring = \<lparr>ring_new = (\<lambda>n. Ok \<lparr>lr_cap = unat n, lr_sq = [], lr_flight = []\<rparr>),
     sq_capacity = (\<lambda>r. max (lr_cap r) (length (lr_sq r))), sq_len = (\<lambda>r. length (lr_sq r)),
     sq_is_full = (\<lambda>r. lr_cap r \<le> length (lr_sq r)), sq_push = (\<lambda>e. lr_push [e]),
     sq_push_multiple = (\<lambda>es r. if es = [] then Some r else lr_push es r), sq_sync = (\<lambda>r. r),
     ring_submit = (\<lambda>m r. (Ok (length (lr_sq r)), r\<lparr>lr_sq := [], lr_flight := lr_flight r @ lr_sq r\<rparr>)),
     ring_completion = (\<lambda>r. (map (\<lambda>e. \<lparr>cqe_user_data = sqe_user_data e, cqe_result = 0\<rparr>) (lr_flight r),
       r\<lparr>lr_flight := []\<rparr>)),
     probe_socket = (\<lambda>r. (Ok True, r)), ring_register_files_sparse = (\<lambda>n r. (Ok (), r)),
     ring_register_files = (\<lambda>fs r. (Ok (), r)), ring_files_update = (\<lambda>i fs r. (Ok (length fs), r)),
     SKIP_FILE = -2\<rparr>"

lemma ring_spec_list: "ring_spec list_io_uring lr_sq"
  by (auto simp: ring_spec_def list_io_uring_def lr_push_def)

definition linux_errnos :: errnos where
  "linux_errnos = \<lparr>ETIME = 62, EBUSY = 16, EAGAIN = 11, ENOENT = 2, EALREADY = 114\<rparr>"

definition list_driver :: "sqe list \<Rightarrow> sqe list \<Rightarrow> i32 list \<Rightarrow> files_update_state \<Rightarrow> list_ring iour_driver" where
  "list_driver q fl fds st =
     \<lparr>inner = \<lparr>lr_cap = 2, lr_sq = q, lr_flight = fl\<rparr>, squeue_buffer = [], files_update_fds = fds,
      files_update_state = st\<rparr>"

subsection \<open>Pushing\<close>

text \<open>
  A batch push on the io_uring driver neither loses, duplicates nor reorders an operation:
  it does not panic, the identifiers in the ring's submission queue followed by those of the
  operations left in the caller's queue are the ones before, and operations are left only when
  the ring has no room.
\<close>

theorem iour_push_queue_conserves:
  assumes "ring_spec U sq" "\<forall>x \<in> set ops. C (obj_op x) \<noteq> None"
  shows "\<exists>rest d'. iour_push_queue U C ops d = Some (rest, d') \<and>
    map sqe_user_data (sq (inner d')) @ map obj_user_data rest =
      map sqe_user_data (sq (inner d)) @ map obj_user_data ops \<and>
    (rest = [] \<or> iour_capacity_left U d' = 0)"
  using iour.push_queue_conserves [OF assms, of d] unfolding iour_queued_def by blast

theorem iour_push_queue_conserves_witness:
  "\<exists>rest d'. iour_push_queue list_io_uring (\<lambda>e. Some (e, e))
      [op_object_new (OpClose 7) 1, op_object_new (OpClose 8) 2, op_object_new (OpClose 9) 3]
      (list_driver [] [] [] NoUpdateInProgress) = Some (rest, d') \<and>
    map sqe_user_data (lr_sq (inner d')) @ map obj_user_data rest = [1, 2, 3]"
  using iour_push_queue_conserves [OF ring_spec_list, where C = "\<lambda>e. Some (e, e)"
      and ops = "[op_object_new (OpClose 7) 1, op_object_new (OpClose 8) 2, op_object_new (OpClose 9) 3]"
      and d = "list_driver [] [] [] NoUpdateInProgress"]
  by (auto simp: list_driver_def op_object_new_def)



end
