(* ===== verification/Iour_Spec.thy ===== *)
theory Iour_Spec
  imports Iour_Driver "HOL-Library.Multiset"
begin

text \<open>
  What the io_uring driver guarantees about completions and about the registration of fixed
  files: how completion entries are reported, and the driver as a transition system whose
  steps are the calls of the trait \<open>CompleteIo\<close>, with the protocol of the asynchronous
  \<open>FilesUpdate\<close> as an invariant of the reachable states.
\<close>

subsection \<open>Reporting completions\<close>

definition cqe_visible :: "errnos \<Rightarrow> cqe \<Rightarrow> bool" where
  "cqe_visible no c \<longleftrightarrow> cqe_user_data c \<noteq> FILES_UPDATE_KEY \<and>
     (cqe_result c = - ETIME no \<or> cqe_result c \<notin> {- ENOENT no, - EALREADY no})"

definition reports :: "errnos \<Rightarrow> cqe \<Rightarrow> entry \<Rightarrow> bool" where
  "reports no c e \<longleftrightarrow> entry_user_data e = cqe_user_data c \<and>
     (case entry_result e of
        Ok n \<Rightarrow> if cqe_result c = - ETIME no then n = 0 else int (unat n) = sint (cqe_result c)
      | Err (Os k) \<Rightarrow> cqe_result c \<noteq> - ETIME no \<and> sint (cqe_result c) < 0 \<and>
                      (- (2 ^ 31) < sint (cqe_result c) \<longrightarrow> sint k = - sint (cqe_result c))
      | Err (Custom _ _) \<Rightarrow> False)"

lemma reports_create_entry: "cqe_result c \<noteq> - ETIME no \<Longrightarrow> reports no c (create_entry c)"
  using unat_i32_as_usize [of "cqe_result c"]
  by (simp add: reports_def create_entry_def Let_def sint_uminus) (simp add: is_negative_def)

lemma complete_cqe_fst:
  "(case fst (complete_cqe U no c d) of None \<Rightarrow> \<not> cqe_visible no c
    | Some e \<Rightarrow> cqe_visible no c \<and> reports no c e)"
  using reports_create_entry [of c no]
  by (simp add: complete_cqe_def cqe_visible_def) (simp add: reports_def)

lemma complete_cqe_snd:
  "snd (complete_cqe U no c d) = (if cqe_user_data c = FILES_UPDATE_KEY then reset_files_update U d else d)"
  by (simp add: complete_cqe_def)

lemma reset_files_update_idem [simp]:
  "reset_files_update U (reset_files_update U d) = reset_files_update U d"
  by (simp add: reset_files_update_def)

lemma complete_cqes_state:
  "snd (complete_cqes U no cs d) =
     (if FILES_UPDATE_KEY \<in> cqe_user_data ` set cs then reset_files_update U d else d)"
  by (induction cs arbitrary: d) (auto simp: Let_def split_def complete_cqe_snd)

lemma complete_cqes_reports:
  "list_all2 (reports no) (filter (cqe_visible no) cs) (fst (complete_cqes U no cs d))"
proof (induction cs arbitrary: d)
  case (Cons c cs)
  then show ?case
    using complete_cqe_fst [where U = U and no = no and c = c and d = d]
    by (simp add: Let_def split_def split: option.splits)
qed simp


lemma list_all2_user_data:
  "list_all2 (reports no) cs es \<Longrightarrow> map entry_user_data es = map cqe_user_data cs"
  by (induction rule: list_all2_induct) (auto simp: reports_def)

text \<open>
  C39. An operation whose request ends with \<open>ENOENT\<close> or \<open>EALREADY\<close> is never reported: the
  errors that \<open>complete_entries\<close> takes for answers to a cancellation are dropped for every
  request, so that an operation that fails with one of them on its own account does not
  complete.
\<close>

theorem no_entry_result_never_reported:
  assumes "\<forall>c \<in> set (fst (ring_completion U (inner d))). cqe_user_data c = ud \<longrightarrow>
      cqe_result c \<in> {- ENOENT no, - EALREADY no} - {- ETIME no}"
  shows "ud \<notin> entry_user_data ` set (fst (complete_entries U no d))"
proof
  assume "ud \<in> entry_user_data ` set (fst (complete_entries U no d))"
  then have "ud \<in> set (map entry_user_data (fst (complete_entries U no d)))" by simp
  then have "ud \<in> set (map cqe_user_data (filter (cqe_visible no) (fst (ring_completion U (inner d)))))"
    using list_all2_user_data [OF complete_cqes_reports [of no _ U "d\<lparr>inner := snd (ring_completion U (inner d))\<rparr>"]]
    by (simp add: complete_entries_def split_def Let_def del: set_map)
  then show False using assms by (auto simp: cqe_visible_def)
qed

theorem no_entry_result_never_reported_witness:
  "5 \<notin> entry_user_data ` set (fst (complete_entries
      (list_io_uring\<lparr>ring_completion := \<lambda>r. ([\<lparr>cqe_user_data = 5, cqe_result = -2\<rparr>], r)\<rparr>)
      linux_errnos (list_driver [] [] [] NoUpdateInProgress)))"
  using no_entry_result_never_reported [where d = "list_driver [] [] [] NoUpdateInProgress" and ud = 5
      and U = "list_io_uring\<lparr>ring_completion := \<lambda>r. ([\<lparr>cqe_user_data = 5, cqe_result = -2\<rparr>], r)\<rparr>"
      and no = linux_errnos]
  by (simp add: linux_errnos_def)

subsection \<open>The driver as a transition system\<close>

datatype 'op iour_call =
    RegisterFd i32 u32
  | UnregisterFd fixed_fd
  | TryCancel usize
  | TryPush "'op op_object"
  | PushQueue "'op op_object list"
  | Submit "nat option"

fun iour_step ::
  "'r io_uring \<Rightarrow> errnos \<Rightarrow> ('op \<Rightarrow> (sqe_op \<times> 'op) option) \<Rightarrow> 'op iour_call \<Rightarrow> 'r iour_driver \<Rightarrow>
   'r iour_driver option" where
  "iour_step U no C (RegisterFd fd ix) d = map_option snd (iour_register_fd U fd ix d)"
| "iour_step U no C (UnregisterFd f) d = map_option snd (iour_unregister_fd U f d)"
| "iour_step U no C (TryCancel ud) d = Some (snd (iour_try_cancel U ud d))"
| "iour_step U no C (TryPush x) d = map_option snd (iour_try_push_dyn U C x d)"
| "iour_step U no C (PushQueue xs) d = map_option snd (iour_push_queue U C xs d)"
| "iour_step U no C (Submit t) d = Some (snd (iour_submit U no t d))"

text \<open>The user data of the driver's own request is not for the caller's operations.\<close>

fun call_ok :: "'op iour_call \<Rightarrow> bool" where
  "call_ok (TryCancel ud) \<longleftrightarrow> ud \<noteq> FILES_UPDATE_KEY"
| "call_ok (TryPush x) \<longleftrightarrow> obj_user_data x \<noteq> FILES_UPDATE_KEY"
| "call_ok (PushQueue xs) \<longleftrightarrow> FILES_UPDATE_KEY \<notin> obj_user_data ` set xs"
| "call_ok _ \<longleftrightarrow> True"

inductive iour_reachable ::
  "'r io_uring \<Rightarrow> errnos \<Rightarrow> ('op \<Rightarrow> (sqe_op \<times> 'op) option) \<Rightarrow> 'r iour_driver \<Rightarrow> 'r iour_driver \<Rightarrow> bool"
  for U no C d0 where
  start: "iour_reachable U no C d0 d0"
| step: "iour_reachable U no C d0 d \<Longrightarrow> call_ok c \<Longrightarrow> iour_step U no C c d = Some d' \<Longrightarrow>
    iour_reachable U no C d0 d'"

text \<open>
  What the kernel promises about the flow of requests, \<open>fl r\<close> being the user data of the
  requests it has taken and not completed: pushing does not involve it, submitting takes
  requests out of the submission queue, every taken request gets one completion, and
  synchronous registration touches neither queue.
\<close>

definition ring_flow :: "'r io_uring \<Rightarrow> ('r \<Rightarrow> sqe list) \<Rightarrow> ('r \<Rightarrow> u64 multiset) \<Rightarrow> bool" where
  "ring_flow U sq fl \<longleftrightarrow>
     (\<forall>e r r'. sq_push U e r = Some r' \<longrightarrow> fl r' = fl r) \<and>
     (\<forall>es r r'. sq_push_multiple U es r = Some r' \<longrightarrow> fl r' = fl r) \<and>
     (\<forall>r. sq (sq_sync U r) = sq r \<and> fl (sq_sync U r) = fl r) \<and>
     (\<forall>m r. mset (map sqe_user_data (sq (snd (ring_submit U m r)))) + fl (snd (ring_submit U m r)) =
              mset (map sqe_user_data (sq r)) + fl r) \<and>
     (\<forall>m r. fl r \<subseteq># fl (snd (ring_submit U m r))) \<and>
     (\<forall>r. sq (snd (ring_completion U r)) = sq r \<and>
          mset (map cqe_user_data (fst (ring_completion U r))) + fl (snd (ring_completion U r)) = fl r) \<and>
     (\<forall>i fs r. sq (snd (ring_files_update U i fs r)) = sq r \<and>
               fl (snd (ring_files_update U i fs r)) = fl r)"

definition waiting :: "('r \<Rightarrow> sqe list) \<Rightarrow> 'r iour_driver \<Rightarrow> nat" where
  "waiting sq d = count (mset (map sqe_user_data (sq (inner d)))) FILES_UPDATE_KEY"

definition taken :: "('r \<Rightarrow> u64 multiset) \<Rightarrow> 'r iour_driver \<Rightarrow> nat" where
  "taken fl d = count (fl (inner d)) FILES_UPDATE_KEY"

text \<open>The protocol of the asynchronous registration.\<close>

definition files_inv ::
  "'r io_uring \<Rightarrow> ('r \<Rightarrow> sqe list) \<Rightarrow> ('r \<Rightarrow> u64 multiset) \<Rightarrow> nat \<Rightarrow> 'r iour_driver \<Rightarrow> bool" where
  "files_inv U sq fl n d \<longleftrightarrow> length (files_update_fds d) = n \<and>
     (case files_update_state d of
        NoUpdateInProgress \<Rightarrow> waiting sq d + taken fl d = 0 \<and> files_update_fds d = replicate n (SKIP_FILE U)
      | Pushed \<Rightarrow> waiting sq d = 1 \<and> taken fl d = 0
      | Submitted \<Rightarrow> waiting sq d + taken fl d = 1)"

lemma flow_push:
  assumes "ring_spec U sq" "ring_flow U sq fl" "sq_push U e r = Some r'"
  shows "sq r' = sq r @ [e]" "fl r' = fl r"
  using ring_push_cases [OF assms(1), where e = e and r = r] assms(2,3) unfolding ring_flow_def by auto

lemma flow_push_multiple:
  assumes "ring_spec U sq" "ring_flow U sq fl" "sq_push_multiple U es r = Some r'"
  shows "sq r' = sq r @ es" "fl r' = fl r"
  using ring_push_multiple_cases [OF assms(1), where es = es and r = r] assms(2,3)
  unfolding ring_flow_def by auto

lemma flow_files_update:
  assumes "ring_flow U sq fl" "ring_files_update U i fs r = (res, r')"
  shows "sq r' = sq r" "fl r' = fl r"
  using assms(1) unfolding ring_flow_def by (metis assms(2) snd_conv)+

lemma files_inv_congD:
  assumes "files_inv U sq fl n d" "files_update_fds d' = files_update_fds d"
    "files_update_state d' = files_update_state d" "waiting sq d' = waiting sq d" "taken fl d' = taken fl d"
  shows "files_inv U sq fl n d'"
  using assms(1) unfolding files_inv_def assms(2-5) .

lemma register_fd_impl_cases:
  assumes "ring_spec U sq" "ring_flow U sq fl" "register_fd_impl U fd ix d = Some (res, d')"
  obtains (sync) "files_update_fds d' = files_update_fds d"
      "files_update_state d' = files_update_state d" "waiting sq d' = waiting sq d" "taken fl d' = taken fl d"
    | (async) "files_update_state d = NoUpdateInProgress" "files_update_state d' = Pushed"
      "files_update_fds d' = (files_update_fds d)[unat ix := fd]"
      "waiting sq d' = waiting sq d + 1" "taken fl d' = taken fl d"
    | (batch) "files_update_state d = Pushed" "files_update_state d' = Pushed"
      "files_update_fds d' = (files_update_fds d)[unat ix := fd]"
      "waiting sq d' = waiting sq d" "taken fl d' = taken fl d"
proof (cases "sq_is_full U (inner d) \<or> files_update_state d = Submitted")
  case True
  then show ?thesis
    using assms(3) flow_files_update [OF assms(2), of ix "[fd]" "inner d"]
    by (intro sync) (auto simp: register_fd_impl_def Let_def waiting_def taken_def
        split: if_splits prod.splits sum.splits)
next
  case False
  then show ?thesis
  proof (cases "files_update_state d")
    case NoUpdateInProgress
    then show ?thesis
      using False assms(3) flow_push [OF assms(1,2)]
      by (intro async) (auto simp: register_fd_impl_def Let_def waiting_def taken_def
          split: if_splits option.splits)
  next
    case Pushed
    then show ?thesis
      using False assms(3)
      by (intro batch) (auto simp: register_fd_impl_def Let_def waiting_def taken_def split: if_splits)
  qed (use False in simp)
qed

lemma files_inv_register:
  assumes "ring_spec U sq" "ring_flow U sq fl" "register_fd_impl U fd ix d = Some (res, d')"
    and "files_inv U sq fl n d"
  shows "files_inv U sq fl n d'"
proof (rule register_fd_impl_cases [OF assms(1-3)], goal_cases)
  case 1
  then show ?thesis by (rule files_inv_congD [OF assms(4)])
qed (use assms(4) in \<open>auto simp: files_inv_def\<close>)

lemma waiting_filter:
  "waiting sq d = length (filter (\<lambda>e. sqe_user_data e = FILES_UPDATE_KEY) (sq (inner d)))"
proof -
  have "count (mset (map sqe_user_data es)) k = length (filter (\<lambda>e. sqe_user_data e = k) es)" for es k
    by (induction es) auto
  then show ?thesis by (simp add: waiting_def del: mset_map)
qed

lemma waiting_reset: "waiting sq (reset_files_update U d) = waiting sq d"
  and taken_reset: "taken fl (reset_files_update U d) = taken fl d"
  by (simp_all add: waiting_def taken_def reset_files_update_def)

lemma submit_impl_inner:
  "snd (submit_impl U no t d) = d\<lparr>inner := snd (ring_submit U
     (case t of None \<Rightarrow> SubmitAndWait1 | Some x \<Rightarrow> if x = 0 then SubmitOnly else SubmitWait1For (timespec x))
     (inner d))\<rparr>"
  by (simp add: submit_impl_def Let_def split: prod.splits option.splits sum.splits)

text \<open>
  What one \<open>submit\<close> does to the registration: the request may move to the kernel, and either
  its completion arrives and everything is reset, or the array is left alone.
\<close>

lemma iour_submit_cases:
  assumes "ring_flow U sq fl"
  obtains (reset) "files_update_state (snd (iour_submit U no t d)) = NoUpdateInProgress"
      "files_update_fds (snd (iour_submit U no t d)) = replicate (length (files_update_fds d)) (SKIP_FILE U)"
      "waiting sq (snd (iour_submit U no t d)) + taken fl (snd (iour_submit U no t d)) < waiting sq d + taken fl d"
    | (busy) "files_update_state (snd (iour_submit U no t d)) =
        (if files_update_state d = Pushed then Submitted else files_update_state d)"
      "files_update_fds (snd (iour_submit U no t d)) = files_update_fds d"
      "waiting sq (snd (iour_submit U no t d)) + taken fl (snd (iour_submit U no t d)) = waiting sq d + taken fl d"
proof -
  define r where "r = snd (ring_submit U
     (case t of None \<Rightarrow> SubmitAndWait1 | Some x \<Rightarrow> if x = 0 then SubmitOnly else SubmitWait1For (timespec x))
     (sq_sync U (inner d)))"
  define cs r' where "cs = fst (ring_completion U r)" and "r' = snd (ring_completion U r)"
  define d' where "d' = d\<lparr>inner := r', files_update_state :=
      (if files_update_state d = Pushed then Submitted else files_update_state d)\<rparr>"
  have sub: "snd (iour_submit U no t d) =
      (if FILES_UPDATE_KEY \<in> cqe_user_data ` set cs then reset_files_update U d' else d')"
    by (simp add: iour_submit_def Let_def split_def submit_impl_inner complete_entries_def
        complete_cqes_state cs_def r'_def r_def d'_def reset_files_update_def)
  have "mset (map sqe_user_data (sq r)) + fl r = mset (map sqe_user_data (sq (inner d))) + fl (inner d)"
    using assms unfolding ring_flow_def r_def by metis
  moreover have "sq r' = sq r" "fl r = mset (map cqe_user_data cs) + fl r'"
    using assms unfolding ring_flow_def cs_def r'_def by metis+
  ultimately have "count (mset (map sqe_user_data (sq r')) + (mset (map cqe_user_data cs) + fl r')) FILES_UPDATE_KEY =
      count (mset (map sqe_user_data (sq (inner d))) + fl (inner d)) FILES_UPDATE_KEY" by metis
  then have w: "waiting sq d' + taken fl d' + count (mset (map cqe_user_data cs)) FILES_UPDATE_KEY =
      waiting sq d + taken fl d"
    by (simp add: waiting_def taken_def d'_def)
  show ?thesis
  proof (cases "FILES_UPDATE_KEY \<in> cqe_user_data ` set cs")
    case True
    then have "0 < count (mset (map cqe_user_data cs)) FILES_UPDATE_KEY" by (simp add: count_greater_zero_iff)
    then have "waiting sq d' + taken fl d' < waiting sq d + taken fl d" using w by linarith
    then show ?thesis
      using True by (intro reset)
        (simp_all add: sub waiting_reset taken_reset, simp_all add: reset_files_update_def d'_def map_replicate_const)
  next
    case False
    then have "count (mset (map cqe_user_data cs)) FILES_UPDATE_KEY = 0"
      by (metis count_eq_zero_iff image_set set_mset_mset)
    then show ?thesis using w False by (intro busy) (simp_all add: sub d'_def)
  qed
qed

lemma files_inv_submit:
  assumes "ring_flow U sq fl" "files_inv U sq fl n d"
  shows "files_inv U sq fl n (snd (iour_submit U no t d))"
  using assms(2)
  by (rule_tac iour_submit_cases [OF assms(1), where no = no and t = t and d = d];
      cases "files_update_state d") (auto simp: files_inv_def)

lemma those_user_data:
  "those (map (entry_of C) xs) = Some es \<Longrightarrow> map sqe_user_data es = map obj_user_data xs"
  by (induction xs arbitrary: es) (auto simp: entry_of_def split: option.splits bind_splits)

text \<open>The calls that only push requests of the caller leave the registration alone.\<close>

lemma push_calls_frame:
  assumes "ring_spec U sq" "ring_flow U sq fl" "iour_step U no C c d = Some d'" "call_ok c"
    and "case c of TryCancel _ \<Rightarrow> True | TryPush _ \<Rightarrow> True | PushQueue _ \<Rightarrow> True | _ \<Rightarrow> False"
  shows "files_update_fds d' = files_update_fds d" "files_update_state d' = files_update_state d"
    "waiting sq d' = waiting sq d" "taken fl d' = taken fl d"
proof -
  have "files_update_fds d' = files_update_fds d \<and> files_update_state d' = files_update_state d \<and>
    waiting sq d' = waiting sq d \<and> taken fl d' = taken fl d"
  proof (cases c)
    case (PushQueue xs)
    then have "FILES_UPDATE_KEY \<notin> obj_user_data ` set (take k xs)" for k
      using assms(4) by (auto dest: in_set_takeD)
    then show ?thesis using PushQueue
      using assms flow_push_multiple [OF assms(1,2)] those_user_data [of C]
      by (auto simp: iour_push_queue_def Let_def waiting_def taken_def count_eq_zero_iff
          simp del: mset_map split: if_splits bind_splits)
  qed (use assms flow_push [OF assms(1,2)] in \<open>auto simp: iour_try_cancel_def iour_try_push_dyn_def
      waiting_def taken_def split: option.splits bind_splits\<close>)
  then show "files_update_fds d' = files_update_fds d" "files_update_state d' = files_update_state d"
    "waiting sq d' = waiting sq d" "taken fl d' = taken fl d" by blast+
qed

lemma files_inv_step:
  assumes "ring_spec U sq" "ring_flow U sq fl" "iour_step U no C c d = Some d'" "call_ok c"
    and "files_inv U sq fl n d"
  shows "files_inv U sq fl n d'"
proof (cases c)
  case (RegisterFd fd ix)
  then obtain res where "register_fd_impl U fd ix d = Some (res, d')"
    using assms(3) by (auto simp: iour_register_fd_def split: bind_splits)
  then show ?thesis using files_inv_register assms by blast
next
  case (UnregisterFd f)
  then obtain res where "register_fd_impl U (-1) (fixed_offset f) d = Some (res, d')"
    using assms(3) by (auto simp: iour_unregister_fd_def)
  then show ?thesis using files_inv_register assms by blast
next
  case (Submit t)
  then show ?thesis using assms files_inv_submit by auto
qed (use files_inv_congD [OF assms(5)] push_calls_frame [OF assms(1-4)] in auto)

lemma files_inv_with:
  assumes "iour_with U entries files = Ok d" "sq (inner d) = []" "fl (inner d) = {#}"
  shows "files_inv U sq fl (unat files) d"
  using assms by (auto simp: iour_with_def Let_def files_inv_def waiting_def taken_def
      map_replicate_const word_gt_0 split: sum.splits if_splits prod.splits)

lemma files_inv_reachable:
  assumes "ring_spec U sq" "ring_flow U sq fl" "iour_with U entries files = Ok d0"
    "sq (inner d0) = []" "fl (inner d0) = {#}" "iour_reachable U no C d0 d"
  shows "files_inv U sq fl (unat files) d"
  using assms(6) by (induction rule: iour_reachable.induct)
    (auto intro: files_inv_with assms(3-5) files_inv_step [OF assms(1,2)])

text \<open>
  C7. In every state the driver can reach from its construction, at most one asynchronous
  registration is outstanding, waiting in the submission queue or taken by the kernel; the
  state \<open>NoUpdateInProgress\<close> means there is none and the array of descriptors is all
  \<open>SKIP_FILE\<close>, so the next batch changes only what it registers.
\<close>

theorem one_files_update_outstanding:
  assumes "ring_spec U sq" "ring_flow U sq fl" "iour_with U entries files = Ok d0"
    "sq (inner d0) = []" "fl (inner d0) = {#}" "iour_reachable U no C d0 d"
  shows "length (filter (\<lambda>e. sqe_user_data e = FILES_UPDATE_KEY) (sq (inner d))) +
      count (fl (inner d)) FILES_UPDATE_KEY = (if files_update_state d = NoUpdateInProgress then 0 else 1) \<and>
    length (files_update_fds d) = unat files \<and>
    (files_update_state d = NoUpdateInProgress \<longrightarrow> files_update_fds d = replicate (unat files) (SKIP_FILE U))"
  using files_inv_reachable [OF assms]
  unfolding waiting_filter [symmetric] taken_def [symmetric]
  by (cases "files_update_state d") (auto simp: files_inv_def)

lemma ring_flow_list: "ring_flow list_io_uring lr_sq (\<lambda>r. mset (map sqe_user_data (lr_flight r)))"
  by (auto simp: ring_flow_def list_io_uring_def lr_push_def comp_def split: if_splits)

definition close_op :: "sqe_op \<Rightarrow> (sqe_op \<times> sqe_op) option" where
  "close_op e = Some (e, e)"

lemma replicate_3: "replicate 3 x = [x, x, x]"
  by (simp add: numeral_3_eq_3)

lemma list_reachable:
  "iour_with list_io_uring 2 3 = Ok (list_driver [] [] [-2, -2, -2] NoUpdateInProgress)"
  "iour_reachable list_io_uring linux_errnos close_op (list_driver [] [] [-2, -2, -2] NoUpdateInProgress)
     (list_driver [\<lparr>sqe_op = OpFilesUpdate 3, sqe_user_data = FILES_UPDATE_KEY\<rparr>] [] [-2, 9, -2] Pushed)"
proof -
  show "iour_with list_io_uring 2 3 = Ok (list_driver [] [] [-2, -2, -2] NoUpdateInProgress)"
    by (simp add: iour_with_def list_io_uring_def list_driver_def Let_def numeral_3_eq_3 [symmetric]
        replicate_3)
  show "iour_reachable list_io_uring linux_errnos close_op (list_driver [] [] [-2, -2, -2] NoUpdateInProgress)
     (list_driver [\<lparr>sqe_op = OpFilesUpdate 3, sqe_user_data = FILES_UPDATE_KEY\<rparr>] [] [-2, 9, -2] Pushed)"
    by (rule iour_reachable.step [OF iour_reachable.start, where c = "RegisterFd 9 1"])
      (simp_all add: iour_register_fd_def register_fd_impl_def list_io_uring_def list_driver_def lr_push_def)
qed

theorem one_files_update_outstanding_witness:
  "length (filter (\<lambda>e. sqe_user_data e = FILES_UPDATE_KEY)
     (lr_sq (inner (list_driver [\<lparr>sqe_op = OpFilesUpdate 3, sqe_user_data = FILES_UPDATE_KEY\<rparr>]
       [] [-2, 9, -2] Pushed)))) = 1"
  using one_files_update_outstanding [OF ring_spec_list ring_flow_list list_reachable(1) _ _ list_reachable(2)]
  by (simp add: list_driver_def)

text \<open>
  C24. While the kernel holds the registration request it may read the array of descriptors the
  request points to. No call on the driver changes the array in that time: if the request is
  with the kernel before a call and still is after it, the array is as it was.
\<close>

theorem files_array_untouched_in_flight:
  assumes "ring_spec U sq" "ring_flow U sq fl" "iour_with U entries files = Ok d0"
    "sq (inner d0) = []" "fl (inner d0) = {#}" "iour_reachable U no C d0 d"
    and "call_ok c" "iour_step U no C c d = Some d'"
    and "FILES_UPDATE_KEY \<in># fl (inner d)" "FILES_UPDATE_KEY \<in># fl (inner d')"
  shows "files_update_fds d' = files_update_fds d"
proof -
  have inv: "files_inv U sq fl (unat files) d" by (rule files_inv_reachable [OF assms(1-6)])
  have "taken fl d \<noteq> 0" "taken fl d' \<noteq> 0" using assms(9,10) by (simp_all add: taken_def)
  then have st: "files_update_state d = Submitted" "waiting sq d + taken fl d = 1"
    using inv by (cases "files_update_state d"; simp add: files_inv_def)+
  show ?thesis
  proof (cases c)
    case (RegisterFd fd ix)
    then obtain res where "register_fd_impl U fd ix d = Some (res, d')"
      using assms(8) by (auto simp: iour_register_fd_def split: bind_splits)
    then show ?thesis using st by (auto elim: register_fd_impl_cases [OF assms(1,2)])
  next
    case (UnregisterFd f)
    then obtain res where "register_fd_impl U (-1) (fixed_offset f) d = Some (res, d')"
      using assms(8) by (auto simp: iour_unregister_fd_def)
    then show ?thesis using st by (auto elim: register_fd_impl_cases [OF assms(1,2)])
  next
    case (Submit t)
    then show ?thesis
      using assms(8) st \<open>taken fl d' \<noteq> 0\<close> iour_submit_cases [OF assms(2), of no t d] by fastforce
  qed (use push_calls_frame(1) [OF assms(1,2,8,7)] in auto)
qed

text \<open>The list ring with a kernel that never completes a request.\<close>

definition slow_io_uring :: "list_ring io_uring" where
  "slow_io_uring = list_io_uring\<lparr>ring_completion := \<lambda>r. ([], r)\<rparr>"

lemma slow_ring:
  "ring_spec slow_io_uring lr_sq"
  "ring_flow slow_io_uring lr_sq (\<lambda>r. mset (map sqe_user_data (lr_flight r)))"
  by (auto simp: slow_io_uring_def ring_spec_def ring_flow_def list_io_uring_def lr_push_def comp_def
      split: if_splits)

lemma slow_with:
  "iour_with slow_io_uring 2 3 = Ok (list_driver [] [] [-2, -2, -2] NoUpdateInProgress)"
  by (simp add: slow_io_uring_def iour_with_def list_io_uring_def list_driver_def Let_def
      numeral_3_eq_3 [symmetric] replicate_3)

lemma slow_reachable:
  "iour_reachable slow_io_uring linux_errnos close_op (list_driver [] [] [-2, -2, -2] NoUpdateInProgress)
     (list_driver [] [\<lparr>sqe_op = OpFilesUpdate 3, sqe_user_data = FILES_UPDATE_KEY\<rparr>] [-2, 9, -2] Submitted)"
proof (rule iour_reachable.step [where c = "Submit (Some 0)"])
  show "iour_reachable slow_io_uring linux_errnos close_op (list_driver [] [] [-2, -2, -2] NoUpdateInProgress)
     (list_driver [\<lparr>sqe_op = OpFilesUpdate 3, sqe_user_data = FILES_UPDATE_KEY\<rparr>] [] [-2, 9, -2] Pushed)"
    by (rule iour_reachable.step [OF iour_reachable.start, where c = "RegisterFd 9 1"])
      (simp_all add: iour_register_fd_def register_fd_impl_def slow_io_uring_def list_io_uring_def
        list_driver_def lr_push_def)
qed (simp_all add: iour_submit_def submit_impl_def complete_entries_def slow_io_uring_def
    list_io_uring_def list_driver_def)

theorem files_array_untouched_in_flight_witness:
  "\<exists>d'. iour_step slow_io_uring linux_errnos close_op (RegisterFd 7 0)
     (list_driver [] [\<lparr>sqe_op = OpFilesUpdate 3, sqe_user_data = FILES_UPDATE_KEY\<rparr>] [-2, 9, -2] Submitted) = Some d' \<and>
   files_update_fds d' = [-2, 9, -2]"
proof -
  let ?d = "list_driver [] [\<lparr>sqe_op = OpFilesUpdate 3, sqe_user_data = FILES_UPDATE_KEY\<rparr>] [-2, 9, -2] Submitted"
  have s: "iour_step slow_io_uring linux_errnos close_op (RegisterFd 7 0) ?d = Some ?d"
    by (simp add: iour_register_fd_def register_fd_impl_def slow_io_uring_def list_io_uring_def list_driver_def)
  have "files_update_fds ?d = files_update_fds ?d"
    by (rule files_array_untouched_in_flight [OF slow_ring slow_with _ _ slow_reachable _ s])
      (simp_all add: list_driver_def)
  then have "files_update_fds ?d = [-2, 9, -2]" by (simp add: list_driver_def)
  with s show ?thesis by blast
qed

subsection \<open>Registering several descriptors\<close>

fun register_all ::
  "'r io_uring \<Rightarrow> (i32 \<times> u32) list \<Rightarrow> 'r iour_driver \<Rightarrow> 'r iour_driver option" where
  "register_all U [] d = Some d"
| "register_all U ((fd, ix) # rs) d =
     (case iour_register_fd U fd ix d of Some (Ok _, d') \<Rightarrow> register_all U rs d' | _ \<Rightarrow> None)"

lemma register_all_pushed:
  assumes "files_update_state d = Pushed" "\<not> sq_is_full U (inner d)"
    "\<forall>(fd, ix) \<in> set rs. unat ix < length (files_update_fds d)"
  shows "register_all U rs d =
    Some (d\<lparr>files_update_fds := fold (\<lambda>(fd, ix) fds. fds[unat ix := fd]) rs (files_update_fds d)\<rparr>)"
  using assms
proof (induction rs arbitrary: d)
  case (Cons r rs)
  obtain fd ix where r: "r = (fd, ix)" by (cases r)
  have "iour_register_fd U fd ix d = Some (Ok (FixedFd ix), d\<lparr>files_update_fds := (files_update_fds d)[unat ix := fd]\<rparr>)"
    using Cons.prems r by (auto simp: iour_register_fd_def register_fd_impl_def Let_def)
  then show ?case
    using Cons.IH [of "d\<lparr>files_update_fds := (files_update_fds d)[unat ix := fd]\<rparr>"] Cons.prems r by simp
qed simp

lemma fold_list_update_nth:
  "i < length fds \<Longrightarrow> fold (\<lambda>(fd, ix) fds. fds[unat ix := fd]) rs fds ! i =
     (case map_of (map (\<lambda>(fd, ix). (unat ix, fd)) (rev rs)) i of None \<Rightarrow> fds ! i | Some fd \<Rightarrow> fd)"
  by (induction rs arbitrary: fds)
    (auto simp: map_add_def nth_list_update split: option.splits)

lemma length_fold_list_update [simp]:
  "length (fold (\<lambda>(fd, ix) fds. fds[unat ix := fd]) rs fds) = length fds"
  by (induction rs arbitrary: fds) auto

text \<open>
  Descriptors registered one after the other share a single request: with no registration
  in progress and two free slots in the submission queue, all the calls succeed, one
  \<open>FilesUpdate\<close> is pushed, and the array it points to holds at every index the descriptor
  registered last and \<open>SKIP_FILE\<close> where none was.
\<close>

theorem registrations_share_one_request:
  assumes "ring_spec U sq" "files_update_state d = NoUpdateInProgress"
    "files_update_fds d = replicate n (SKIP_FILE U)" "2 \<le> iour_capacity_left U d"
    "rs \<noteq> []" "\<forall>(fd, ix) \<in> set rs. unat ix < n"
  shows "\<exists>d'. register_all U rs d = Some d' \<and> files_update_state d' = Pushed \<and>
    sq (inner d') = sq (inner d) @ [\<lparr>sqe_op = OpFilesUpdate (of_nat n), sqe_user_data = FILES_UPDATE_KEY\<rparr>] \<and>
    length (files_update_fds d') = n \<and>
    (\<forall>i < n. files_update_fds d' ! i =
       (case map_of (map (\<lambda>(fd, ix). (unat ix, fd)) (rev rs)) i of None \<Rightarrow> SKIP_FILE U | Some fd \<Rightarrow> fd))"
proof -
  obtain fd ix rs' where rs: "rs = (fd, ix) # rs'" using assms(5) by (cases rs) auto
  let ?e = "\<lparr>sqe_op = OpFilesUpdate (of_nat n), sqe_user_data = FILES_UPDATE_KEY\<rparr>"
  have room: "length (sq (inner d)) + 2 \<le> sq_capacity U (inner d)"
    using assms(4) ring_len(2) [OF assms(1), of "inner d"] by (simp add: capacity_left_ring [OF assms(1)])
  then obtain r' where r': "sq_push U ?e (inner d) = Some r'" "sq r' = sq (inner d) @ [?e]"
      "sq_capacity U r' = sq_capacity U (inner d)"
    using ring_push_room [OF assms(1), of "inner d" ?e] by auto
  define d1 where "d1 = d\<lparr>inner := r', files_update_fds := (replicate n (SKIP_FILE U))[unat ix := fd],
      files_update_state := Pushed\<rparr>"
  have first: "iour_register_fd U fd ix d = Some (Ok (FixedFd ix), d1)"
    using assms(2,3,6) room r'(1) rs
    by (simp add: iour_register_fd_def register_fd_impl_def Let_def ring_full [OF assms(1)] d1_def)
  have "register_all U rs' d1 =
      Some (d1\<lparr>files_update_fds := fold (\<lambda>(fd, ix) fds. fds[unat ix := fd]) rs' (files_update_fds d1)\<rparr>)"
    by (rule register_all_pushed)
      (use assms(6) rs room r' in \<open>auto simp: d1_def ring_full [OF assms(1)]\<close>)
  then have "register_all U rs d =
      Some (d1\<lparr>files_update_fds := fold (\<lambda>(fd, ix) fds. fds[unat ix := fd]) rs (replicate n (SKIP_FILE U))\<rparr>)"
    using first by (simp add: rs d1_def)
  then show ?thesis
    using r'(2) by (auto simp: fold_list_update_nth d1_def split: option.splits)
qed

theorem registrations_share_one_request_witness:
  "\<exists>d'. register_all list_io_uring [(9, 1), (7, 0), (8, 1)] (list_driver [] [] (replicate 3 (-2)) NoUpdateInProgress) = Some d' \<and>
     length (lr_sq (inner d')) = 1 \<and> files_update_fds d' ! 1 = 8"
  using registrations_share_one_request [OF ring_spec_list,
      where d = "list_driver [] [] (replicate 3 (-2)) NoUpdateInProgress" and n = 3 and rs = "[(9, 1), (7, 0), (8, 1)]"]
  by (auto simp: list_driver_def list_io_uring_def iour_capacity_left_def)

text \<open>
  A registration that finds the submission queue full is performed at once, also when an
  earlier one is still batched. Registering \<open>fda\<close> and then \<open>fdb\<close> at the same index with one
  free slot leaves \<open>fda\<close> in the array of the request that is still to be submitted, which
  then replaces \<open>fdb\<close>: the later registration is the one that is lost.
\<close>

theorem later_registration_overwritten:
  assumes "ring_spec U sq" "files_update_state d = NoUpdateInProgress" "iour_capacity_left U d = 1"
    "unat ix < length (files_update_fds d)"
    and "\<forall>r. fst (ring_files_update U ix [fdb] r) = Ok 1 \<and> sq (snd (ring_files_update U ix [fdb] r)) = sq r"
  shows "\<exists>d'. register_all U [(fda, ix), (fdb, ix)] d = Some d' \<and> files_update_state d' = Pushed \<and>
    files_update_fds d' ! unat ix = fda \<and>
    last (sq (inner d')) = \<lparr>sqe_op = OpFilesUpdate (of_nat (length (files_update_fds d))),
      sqe_user_data = FILES_UPDATE_KEY\<rparr>"
proof -
  let ?e = "\<lparr>sqe_op = OpFilesUpdate (of_nat (length (files_update_fds d))), sqe_user_data = FILES_UPDATE_KEY\<rparr>"
  have room: "length (sq (inner d)) + 1 = sq_capacity U (inner d)"
    using assms(3) ring_len(2) [OF assms(1), of "inner d"] by (simp add: capacity_left_ring [OF assms(1)])
  then obtain r' where r': "sq_push U ?e (inner d) = Some r'" "sq r' = sq (inner d) @ [?e]"
      "sq_capacity U r' = sq_capacity U (inner d)"
    using ring_push_room [OF assms(1), of "inner d" ?e] by auto
  obtain r2 where "ring_files_update U ix [fdb] r' = (Ok 1, r2)" "sq r2 = sq r'"
    using assms(5) by (metis prod.collapse)
  then show ?thesis
    using assms(2,4) room r'
    by (auto simp: iour_register_fd_def register_fd_impl_def Let_def ring_full [OF assms(1)])
qed

theorem later_registration_overwritten_witness:
  "\<exists>d'. register_all list_io_uring [(7, 1), (9, 1)]
      (list_driver [\<lparr>sqe_op = OpClose 4, sqe_user_data = 0\<rparr>] [] [-2, -2, -2] NoUpdateInProgress) = Some d' \<and>
    files_update_fds d' ! 1 = 7"
  using later_registration_overwritten [OF ring_spec_list, where ix = 1 and fda = 7 and fdb = 9
      and d = "list_driver [\<lparr>sqe_op = OpClose 4, sqe_user_data = 0\<rparr>] [] [-2, -2, -2] NoUpdateInProgress"]
  by (auto simp: list_driver_def list_io_uring_def iour_capacity_left_def)

subsection \<open>Cancellations\<close>

text \<open>
  A cancelled operation is reported twice: its request to cancel carries the key of the operation
  too, so that the answer to the request and the completion of the operation (\<open>ECANCELED\<close>, 125)
  are both entries for the key.
\<close>

lemma cancellation_reported_twice:
  assumes "k \<noteq> FILES_UPDATE_KEY" "ETIME no = 62" "ENOENT no = 2" "EALREADY no = 114"
  shows "fst (complete_cqes U no
      [\<lparr>cqe_user_data = k, cqe_result = 0\<rparr>, \<lparr>cqe_user_data = k, cqe_result = - 125\<rparr>] d) =
    [entry_new k (Ok 0), entry_new k (Err (Os 125))]"
  using assms by (simp add: complete_cqe_def create_entry_def is_negative_def i32_as_usize_def Let_def)

end
