(* ===== verification/Iour_Op.thy ===== *)
theory Iour_Op
  imports Iour_Driver
begin

text \<open>
  The submission entries of the operations on io_uring, \<open>src/driver/iour/op.rs\<close>: one
  \<open>create_entry\<close> per operation, the type \<open>iour_op\<close> of all of them behind \<open>dyn OpCode\<close>,
  and the memory the kernel is given by an entry.

  Lengths are stored in the 32-bit field of the entry. The bits of the timeout flags and the
  conversion of a duration to the crate's \<open>Timespec\<close> are arguments.
\<close>

subsection \<open>Entries of the single operations\<close>

fun apply_to_fd_or_fixed :: "(io_target \<Rightarrow> 'e) \<Rightarrow> fd_or_fixed \<Rightarrow> 'e" where
  "apply_to_fd_or_fixed opcode_new (OfFd f) = opcode_new (TFd (fd_raw f))"
| "apply_to_fd_or_fixed opcode_new (OfFixed f) = opcode_new (TFixed (fixed_offset f))"

definition read_create_entry :: "fd_or_fixed read_op \<Rightarrow> sqe_op option" where
  "read_create_entry op =
     do { (p, n) \<leftarrow> as_uninit_slice (read_buffer op);
          Some (apply_to_fd_or_fixed (\<lambda>t. OpRead t p (of_nat n) None) (read_fd op)) }"

definition read_at_create_entry :: "fd_or_fixed read_at_op \<Rightarrow> sqe_op option" where
  "read_at_create_entry op =
     do { (p, n) \<leftarrow> as_uninit_slice (read_at_buffer op);
          Some (apply_to_fd_or_fixed (\<lambda>t. OpRead t p (of_nat n) (Some (read_at_offset op))) (read_at_fd op)) }"

definition write_create_entry :: "fd_or_fixed write_op \<Rightarrow> sqe_op option" where
  "write_create_entry op =
     do { (p, n) \<leftarrow> init_region (write_buffer op);
          Some (apply_to_fd_or_fixed (\<lambda>t. OpWrite t p (of_nat n) None) (write_fd op)) }"

definition write_at_create_entry :: "fd_or_fixed write_at_op \<Rightarrow> sqe_op option" where
  "write_at_create_entry op =
     do { (p, n) \<leftarrow> init_region (write_at_buffer op);
          Some (apply_to_fd_or_fixed (\<lambda>t. OpWrite t p (of_nat n) (Some (write_at_offset op))) (write_at_fd op)) }"

definition sync_create_entry :: "fd_or_fixed sync_op \<Rightarrow> sqe_op" where
  "sync_create_entry op = apply_to_fd_or_fixed (\<lambda>t. OpFsync t (sync_datasync op)) (sync_fd op)"

definition accept_create_entry :: "fd_or_fixed accept_op \<Rightarrow> sqe_op" where
  "accept_create_entry op = apply_to_fd_or_fixed (\<lambda>t. OpAccept t (accept_addr_len op)) (accept_fd op)"

definition connect_create_entry :: "fd_or_fixed connect_op \<Rightarrow> sqe_op" where
  "connect_create_entry op = apply_to_fd_or_fixed (\<lambda>t. OpConnect t (connect_addr op)) (connect_fd op)"

definition recv_create_entry :: "fd_or_fixed recv_op \<Rightarrow> sqe_op option" where
  "recv_create_entry op =
     do { (p, n) \<leftarrow> as_uninit_slice (recv_buffer op);
          Some (apply_to_fd_or_fixed (\<lambda>t. OpRecv t p (of_nat n)) (recv_fd op)) }"

definition recv_vectored_create_entry :: "fd_or_fixed recv_vectored_op \<Rightarrow> sqe_op" where
  "recv_vectored_create_entry op =
     (let slices = as_io_slices_mut (recvv_buffer op)
      in apply_to_fd_or_fixed (\<lambda>t. OpReadv t slices (of_nat (length slices))) (recvv_fd op))"

definition send_create_entry :: "fd_or_fixed send_op \<Rightarrow> sqe_op option" where
  "send_create_entry op =
     do { (p, n) \<leftarrow> init_region (send_buffer op);
          Some (apply_to_fd_or_fixed (\<lambda>t. OpSend t p (of_nat n)) (send_fd op)) }"

definition send_vectored_create_entry :: "fd_or_fixed send_vectored_op \<Rightarrow> sqe_op" where
  "send_vectored_create_entry op =
     (let slices = as_io_slices (sendv_buffer op)
      in apply_to_fd_or_fixed (\<lambda>t. OpWritev t slices (of_nat (length slices))) (sendv_fd op))"

definition recv_msg_create_entry :: "fd_or_fixed recv_msg_op \<Rightarrow> sqe_op \<times> fd_or_fixed recv_msg_op" where
  "recv_msg_create_entry op =
     (let fd = recvm_fd op; (msg, op') = recv_msg_set_msg op
      in (apply_to_fd_or_fixed (\<lambda>t. OpRecvMsg t msg) fd, op'))"

definition send_msg_create_entry :: "fd_or_fixed send_msg_op \<Rightarrow> sqe_op \<times> fd_or_fixed send_msg_op" where
  "send_msg_create_entry op =
     (let fd = sendm_fd op; (msg, op') = send_msg_set_msg op
      in (apply_to_fd_or_fixed (\<lambda>t. OpSendMsg t msg) fd, op'))"

text \<open>\<open>RecvFrom\<close> and \<open>SendTo\<close> wrap the message operations around a single buffer.\<close>

record recv_from_op =
  rf_inner :: "fd_or_fixed recv_msg_op"

definition recv_from_new :: "u32 \<Rightarrow> ('f \<Rightarrow> fd_or_fixed) \<Rightarrow> 'f \<Rightarrow> iobuf \<Rightarrow> recv_from_op option" where
  "recv_from_new sz into fd buffer =
     do { w \<leftarrow> buf_wrapper_mut_from buffer;
          Some \<lparr>rf_inner = recv_msg_new sz into fd (WrappedMut w)\<rparr> }"

definition recv_from_into_inner :: "recv_from_op \<Rightarrow> iobuf list \<times> sock_addr" where
  "recv_from_into_inner op =
     (let (bufwrapper, sockaddr) = recv_msg_into_inner (rf_inner op)
      in (wrapper_into_inner bufwrapper, sockaddr))"

definition recv_from_create_entry :: "recv_from_op \<Rightarrow> sqe_op \<times> recv_from_op" where
  "recv_from_create_entry op =
     (let (e, op') = recv_msg_create_entry (rf_inner op) in (e, op\<lparr>rf_inner := op'\<rparr>))"

record send_to_op =
  st_inner :: "fd_or_fixed send_msg_op"

definition send_to_new ::
  "('f \<Rightarrow> fd_or_fixed) \<Rightarrow> 'f \<Rightarrow> iobuf \<Rightarrow> sock_addr \<Rightarrow> send_to_op option" where
  "send_to_new into fd buffer addr =
     do { w \<leftarrow> buf_wrapper_from buffer;
          Some \<lparr>st_inner = send_msg_new into fd (Wrapped w) addr\<rparr> }"

definition send_to_into_inner :: "send_to_op \<Rightarrow> iobuf list" where
  "send_to_into_inner op = wrapper_into_inner (send_msg_into_inner (st_inner op))"

definition send_to_create_entry :: "send_to_op \<Rightarrow> sqe_op \<times> send_to_op" where
  "send_to_create_entry op =
     (let (e, op') = send_msg_create_entry (st_inner op) in (e, op\<lparr>st_inner := op'\<rparr>))"

record timeout_op =
  timeout_timespec :: timespec

definition timeout_new :: "(nat \<Rightarrow> timespec) \<Rightarrow> nat \<Rightarrow> timeout_op" where
  "timeout_new timespec_from delay = \<lparr>timeout_timespec = timespec_from delay\<rparr>"

record timeout_flags =
  BOOTTIME :: u32
  ETIME_SUCCESS :: u32

definition timeout_FLAGS :: "timeout_flags \<Rightarrow> u32" where
  "timeout_FLAGS F = or (BOOTTIME F) (ETIME_SUCCESS F)"

definition timeout_create_entry :: "timeout_flags \<Rightarrow> timeout_op \<Rightarrow> sqe_op" where
  "timeout_create_entry F op = OpTimeout (timeout_timespec op) (timeout_FLAGS F)"

definition fd_create_entry :: "fd \<Rightarrow> sqe_op" where
  "fd_create_entry f = OpClose (fd_raw f)"

text \<open>Closing an \<open>Option\<close> takes the descriptor out and panics when there is none.\<close>

definition option_create_entry :: "i32 option \<Rightarrow> (sqe_op \<times> i32 option) option" where
  "option_create_entry x = (case x of Some fd \<Rightarrow> Some (OpClose fd, None) | None \<Rightarrow> None)"

subsection \<open>Every operation behind dyn OpCode\<close>

datatype iour_op =
    IoRead "fd_or_fixed read_op"
  | IoReadAt "fd_or_fixed read_at_op"
  | IoWrite "fd_or_fixed write_op"
  | IoWriteAt "fd_or_fixed write_at_op"
  | IoSync "fd_or_fixed sync_op"
  | IoAccept "fd_or_fixed accept_op"
  | IoConnect "fd_or_fixed connect_op"
  | IoRecv "fd_or_fixed recv_op"
  | IoRecvVectored "fd_or_fixed recv_vectored_op"
  | IoSend "fd_or_fixed send_op"
  | IoSendVectored "fd_or_fixed send_vectored_op"
  | IoRecvFrom recv_from_op
  | IoRecvMsg "fd_or_fixed recv_msg_op"
  | IoSendTo send_to_op
  | IoSendMsg "fd_or_fixed send_msg_op"
  | IoTimeout timeout_op
  | IoCloseFd fd
  | IoCloseOption "i32 option"

fun iour_create_entry :: "timeout_flags \<Rightarrow> iour_op \<Rightarrow> (sqe_op \<times> iour_op) option" where
  "iour_create_entry F (IoRead x) = map_option (\<lambda>e. (e, IoRead x)) (read_create_entry x)"
| "iour_create_entry F (IoReadAt x) = map_option (\<lambda>e. (e, IoReadAt x)) (read_at_create_entry x)"
| "iour_create_entry F (IoWrite x) = map_option (\<lambda>e. (e, IoWrite x)) (write_create_entry x)"
| "iour_create_entry F (IoWriteAt x) = map_option (\<lambda>e. (e, IoWriteAt x)) (write_at_create_entry x)"
| "iour_create_entry F (IoSync x) = Some (sync_create_entry x, IoSync x)"
| "iour_create_entry F (IoAccept x) = Some (accept_create_entry x, IoAccept x)"
| "iour_create_entry F (IoConnect x) = Some (connect_create_entry x, IoConnect x)"
| "iour_create_entry F (IoRecv x) = map_option (\<lambda>e. (e, IoRecv x)) (recv_create_entry x)"
| "iour_create_entry F (IoRecvVectored x) = Some (recv_vectored_create_entry x, IoRecvVectored x)"
| "iour_create_entry F (IoSend x) = map_option (\<lambda>e. (e, IoSend x)) (send_create_entry x)"
| "iour_create_entry F (IoSendVectored x) = Some (send_vectored_create_entry x, IoSendVectored x)"
| "iour_create_entry F (IoRecvFrom x) = Some (map_prod (\<lambda>e. e) IoRecvFrom (recv_from_create_entry x))"
| "iour_create_entry F (IoRecvMsg x) = Some (map_prod (\<lambda>e. e) IoRecvMsg (recv_msg_create_entry x))"
| "iour_create_entry F (IoSendTo x) = Some (map_prod (\<lambda>e. e) IoSendTo (send_to_create_entry x))"
| "iour_create_entry F (IoSendMsg x) = Some (map_prod (\<lambda>e. e) IoSendMsg (send_msg_create_entry x))"
| "iour_create_entry F (IoTimeout x) = Some (timeout_create_entry F x, IoTimeout x)"
| "iour_create_entry F (IoCloseFd x) = Some (fd_create_entry x, IoCloseFd x)"
| "iour_create_entry F (IoCloseOption x) = map_option (map_prod (\<lambda>e. e) IoCloseOption) (option_create_entry x)"

subsection \<open>Memory\<close>

fun kernel_writes :: "sqe_op \<Rightarrow> (nat \<times> nat) list" where
  "kernel_writes (OpRead t p n off) = [(p, unat n)]"
| "kernel_writes (OpRecv t p n) = [(p, unat n)]"
| "kernel_writes (OpReadv t rs n) = take (unat n) rs"
| "kernel_writes (OpRecvMsg t m) = take (msg_iovlen m) (msg_iov m)"
| "kernel_writes _ = []"

fun kernel_reads :: "sqe_op \<Rightarrow> (nat \<times> nat) list" where
  "kernel_reads (OpWrite t p n off) = [(p, unat n)]"
| "kernel_reads (OpSend t p n) = [(p, unat n)]"
| "kernel_reads (OpWritev t rs n) = take (unat n) rs"
| "kernel_reads (OpSendMsg t m) = take (msg_iovlen m) (msg_iov m)"
| "kernel_reads _ = []"

fun op_slices :: "iour_op \<Rightarrow> slices_buf option" where
  "op_slices (IoRecvVectored x) = Some (recvv_buffer x)"
| "op_slices (IoSendVectored x) = Some (sendv_buffer x)"
| "op_slices (IoRecvFrom x) = Some (recvm_buffer (rf_inner x))"
| "op_slices (IoRecvMsg x) = Some (recvm_buffer x)"
| "op_slices (IoSendTo x) = Some (sendm_buffer (st_inner x))"
| "op_slices (IoSendMsg x) = Some (sendm_buffer x)"
| "op_slices _ = None"

fun op_buffers :: "iour_op \<Rightarrow> iobuf list" where
  "op_buffers (IoRead x) = [read_buffer x]"
| "op_buffers (IoReadAt x) = [read_at_buffer x]"
| "op_buffers (IoWrite x) = [write_buffer x]"
| "op_buffers (IoWriteAt x) = [write_at_buffer x]"
| "op_buffers (IoRecv x) = [recv_buffer x]"
| "op_buffers (IoSend x) = [send_buffer x]"
| "op_buffers op = (case op_slices op of None \<Rightarrow> [] | Some sb \<Rightarrow> wrapper_into_inner sb)"

definition op_ok :: "iour_op \<Rightarrow> bool" where
  "op_ok op \<longleftrightarrow> (\<forall>b \<in> set (op_buffers op). wf_buf b) \<and>
     (case op_slices op of None \<Rightarrow> True | Some sb \<Rightarrow> slices_ok sb) \<and> op \<noteq> IoCloseOption None"

lemma apply_to_fd_or_fixed_simps [simp]:
  "kernel_writes (apply_to_fd_or_fixed f x) = kernel_writes (f (case x of OfFd y \<Rightarrow> TFd (fd_raw y) | OfFixed y \<Rightarrow> TFixed (fixed_offset y)))"
  "kernel_reads (apply_to_fd_or_fixed f x) = kernel_reads (f (case x of OfFd y \<Rightarrow> TFd (fd_raw y) | OfFixed y \<Rightarrow> TFixed (fixed_offset y)))"
  by (cases x; simp)+

lemma unat_of_nat_le: "unat (of_nat n :: u32) \<le> n"
  by (simp add: unat_of_nat)

text \<open>The length field of an entry is 32 bits wide; cutting a length off shrinks the region.\<close>

lemma uninit_entry_region:
  assumes "wf_buf b"
  obtains a k where "as_uninit_slice b = Some (a, k)" "spare_region b (a, unat (of_nat k :: u32))"
  using uninit_spare_region [OF assms] spare_region_shrink unat_of_nat_le by metis

lemma init_entry_region:
  assumes "wf_buf b"
  obtains a k where "init_region b = Some (a, k)" "data_region b (a, unat (of_nat k :: u32))"
  using init_data_region [OF assms] data_region_shrink unat_of_nat_le by metis

definition entry_safe :: "iobuf list \<Rightarrow> sqe_op \<Rightarrow> bool" where
  "entry_safe bs e \<longleftrightarrow> (\<forall>r \<in> set (kernel_writes e). \<exists>b \<in> set bs. spare_region b r) \<and>
     (\<forall>r \<in> set (kernel_reads e). \<exists>b \<in> set bs. data_region b r)"

lemma entry_safe_slices_mut:
  assumes "slices_ok sb" "\<forall>b \<in> set (wrapper_into_inner sb). wf_buf b"
  shows "\<forall>r \<in> set (take n (as_io_slices_mut sb)). \<exists>b \<in> set (wrapper_into_inner sb). spare_region b r"
  using slices_mut_regions [OF assms] by (meson in_set_takeD)

lemma entry_safe_slices:
  assumes "slices_ok sb" "\<forall>b \<in> set (wrapper_into_inner sb). wf_buf b"
  shows "\<forall>r \<in> set (take n (as_io_slices sb)). \<exists>b \<in> set (wrapper_into_inner sb). data_region b r"
  using slices_regions [OF assms] by (meson in_set_takeD)

lemmas single_entry_defs = read_create_entry_def read_at_create_entry_def write_create_entry_def
  write_at_create_entry_def recv_create_entry_def send_create_entry_def

lemmas slices_entry_defs = recv_vectored_create_entry_def send_vectored_create_entry_def
  recv_msg_create_entry_def send_msg_create_entry_def recv_from_create_entry_def send_to_create_entry_def
  recv_msg_set_msg_def send_msg_set_msg_def

lemmas plain_entry_defs = sync_create_entry_def accept_create_entry_def connect_create_entry_def
  timeout_create_entry_def fd_create_entry_def option_create_entry_def

lemma create_entry_safe:
  assumes "op_ok op"
  shows "\<exists>e op'. iour_create_entry F op = Some (e, op') \<and> entry_safe (op_buffers op) e"
proof (cases op)
  case (IoRead x)
  then show ?thesis using assms
    by (auto simp: op_ok_def entry_safe_def single_entry_defs elim: uninit_entry_region [of "read_buffer x"])
next
  case (IoReadAt x)
  then show ?thesis using assms
    by (auto simp: op_ok_def entry_safe_def single_entry_defs elim: uninit_entry_region [of "read_at_buffer x"])
next
  case (IoRecv x)
  then show ?thesis using assms
    by (auto simp: op_ok_def entry_safe_def single_entry_defs elim: uninit_entry_region [of "recv_buffer x"])
next
  case (IoWrite x)
  then show ?thesis using assms
    by (auto simp: op_ok_def entry_safe_def single_entry_defs elim: init_entry_region [of "write_buffer x"])
next
  case (IoWriteAt x)
  then show ?thesis using assms
    by (auto simp: op_ok_def entry_safe_def single_entry_defs elim: init_entry_region [of "write_at_buffer x"])
next
  case (IoSend x)
  then show ?thesis using assms
    by (auto simp: op_ok_def entry_safe_def single_entry_defs elim: init_entry_region [of "send_buffer x"])
next
  case (IoCloseOption x)
  then show ?thesis using assms by (cases x) (simp_all add: op_ok_def entry_safe_def plain_entry_defs)
qed (use assms entry_safe_slices_mut entry_safe_slices slices_mut_regions slices_regions in
    \<open>simp_all add: op_ok_def entry_safe_def slices_entry_defs plain_entry_defs Let_def split: fd_or_fixed.split\<close>)

text \<open>
  C8. Memory safety of the submission entries: for an operation over well-formed buffers
  \<open>create_entry\<close> does not panic, every region the kernel is told to fill lies in the spare room
  of one of the operation's buffers, and every region it is told to send lies in initialised
  bytes.
\<close>

theorem iour_entry_regions_safe:
  assumes "op_ok op"
  shows "\<exists>e op'. iour_create_entry F op = Some (e, op') \<and>
    (\<forall>r \<in> set (kernel_writes e). \<exists>b \<in> set (op_buffers op). spare_region b r) \<and>
    (\<forall>r \<in> set (kernel_reads e). \<exists>b \<in> set (op_buffers op). data_region b r)"
  using create_entry_safe [OF assms] unfolding entry_safe_def .

definition sample_flags :: timeout_flags where
  "sample_flags = \<lparr>BOOTTIME = 4, ETIME_SUCCESS = 32\<rparr>"

theorem iour_entry_regions_safe_witness:
  "\<exists>e op'. iour_create_entry sample_flags (IoReadAt (read_at_new fd_into (Fd 5) 100 sample_vec)) = Some (e, op') \<and>
    kernel_writes e = [(4098, 3)] \<and> spare_region sample_vec (4098, 3)"
  using iour_entry_regions_safe [of "IoReadAt (read_at_new fd_into (Fd 5) 100 sample_vec)" sample_flags]
  by (simp add: op_ok_def read_at_new_def fd_into_def single_entry_defs sample_vec_def wf_raw_def
      as_uninit_slice_def raw_capacity_def)

subsection \<open>Request lengths\<close>

text \<open>The region that an operation on one buffer has for the kernel: the spare room or the data.\<close>

fun op_region :: "iour_op \<Rightarrow> (nat \<times> nat) option" where
  "op_region (IoRead x) = as_uninit_slice (read_buffer x)"
| "op_region (IoReadAt x) = as_uninit_slice (read_at_buffer x)"
| "op_region (IoRecv x) = as_uninit_slice (recv_buffer x)"
| "op_region (IoWrite x) = init_region (write_buffer x)"
| "op_region (IoWriteAt x) = init_region (write_at_buffer x)"
| "op_region (IoSend x) = init_region (send_buffer x)"
| "op_region _ = None"

text \<open>
  C27. The length of a request is the length of the region modulo 2^32: it is exact below 4 GiB, but a
  read into exactly 4 GiB of spare room asks the kernel for 0 bytes.
\<close>

theorem iour_request_length:
  assumes "op_region op = Some (p, n)"
  shows "\<exists>e op'. iour_create_entry F op = Some (e, op') \<and> kernel_writes e @ kernel_reads e = [(p, n mod 2 ^ 32)]"
  using assms by (cases op) (simp_all add: single_entry_defs unat_of_nat take_bit_nat_def)

theorem iour_request_length_witness:
  "\<exists>e op'. iour_create_entry sample_flags (IoRead \<lparr>read_fd = OfFd (Fd 5), read_buffer =
      Raw \<lparr>raw_kind = VecU8, raw_ptr = 4096, raw_mem = replicate (2 ^ 32) 0, raw_len = 0\<rparr>\<rparr>) = Some (e, op') \<and>
    kernel_writes e @ kernel_reads e = [(4096, 0)]"
proof -
  let ?b = "Raw \<lparr>raw_kind = VecU8, raw_ptr = 4096, raw_mem = replicate (2 ^ 32) 0, raw_len = 0\<rparr>"
  have "op_region (IoRead \<lparr>read_fd = OfFd (Fd 5), read_buffer = ?b\<rparr>) = Some (4096, 2 ^ 32)"
    by (simp add: as_uninit_slice_def raw_capacity_def)
  from iour_request_length [OF this, of sample_flags] show ?thesis by simp
qed

subsection \<open>Retrying\<close>

text \<open>
  A refused operation can be pushed again: \<open>create_entry\<close> on the operation it handed
  back gives the same entry, for every operation but the closing of an \<open>Option\<close>.
\<close>

theorem iour_create_entry_repeatable:
  assumes "iour_create_entry F op = Some (e, op')" "\<forall>x. op \<noteq> IoCloseOption x"
  shows "iour_create_entry F op' = Some (e, op')"
  using assms by (cases op) (auto simp: slices_entry_defs Let_def)

theorem iour_create_entry_repeatable_witness:
  "\<exists>e op'. iour_create_entry sample_flags (IoTimeout (timeout_new timespec 1500000000)) = Some (e, op') \<and>
    iour_create_entry sample_flags op' = Some (e, op')"
  using iour_create_entry_repeatable [of sample_flags "IoTimeout (timeout_new timespec 1500000000)"] by auto

text \<open>
  The closing of an \<open>Option\<close> is not: when the submission queue is full, the push hands
  back \<open>None\<close> in place of the descriptor, which is in no queue, so that nobody closes it,
  and pushing again panics.
\<close>

theorem refused_close_loses_descriptor:
  assumes "ring_spec U sq" "iour_capacity_left U d = 0"
  shows "iour_try_push U (iour_create_entry F) (operation_new (IoCloseOption (Some fd)) ud) d =
      Some (Err (operation_new (IoCloseOption None) ud), d) \<and>
    iour_try_push U (iour_create_entry F) (operation_new (IoCloseOption None) ud) d = None"
proof -
  have "length (sq (inner d)) = sq_capacity U (inner d)"
    using assms(2) ring_len(2) [OF assms(1), of "inner d"] by (simp add: capacity_left_ring [OF assms(1)])
  then have "sq_push U e (inner d) = None" for e by (rule ring_push_full [OF assms(1)])
  then show ?thesis by (simp add: iour_try_push_def operation_new_def plain_entry_defs)
qed

theorem refused_close_loses_descriptor_witness:
  "iour_try_push list_io_uring (iour_create_entry sample_flags) (operation_new (IoCloseOption None) 3)
     (list_driver [\<lparr>sqe_op = OpClose 4, sqe_user_data = 0\<rparr>, \<lparr>sqe_op = OpClose 5, sqe_user_data = 1\<rparr>] [] []
        NoUpdateInProgress) = None"
  using refused_close_loses_descriptor [OF ring_spec_list, where F = sample_flags and fd = 9 and ud = 3
      and d = "list_driver [\<lparr>sqe_op = OpClose 4, sqe_user_data = 0\<rparr>, \<lparr>sqe_op = OpClose 5, sqe_user_data = 1\<rparr>] [] []
        NoUpdateInProgress"]
  by (simp add: iour_capacity_left_def list_driver_def list_io_uring_def)

text \<open>
  An accept operation that is prepared for reuse keeps the length that the kernel stored for
  the previous peer, so the next address is cut to it.
\<close>

lemma accept_reuse_keeps_length:
  "accept_create_entry (accept_init_with_socket_opts into fd domain ty protocol (op\<lparr>accept_addr_len := n\<rparr>)) =
     apply_to_fd_or_fixed (\<lambda>t. OpAccept t n) (into fd)"
  by (simp add: accept_create_entry_def accept_init_with_socket_opts_def)

end
