(* ===== verification/Kqueue_Driver.thy ===== *)
theory Kqueue_Driver
  imports Driver_Base Timer_Wheel Buf
begin

text \<open>
  The kqueue driver, \<open>src/driver/kqueue/mod.rs\<close>: operations are tried at once, those that
  would block wait in \<open>io_pending\<close> until \<open>kevent\<close> reports their descriptor ready.

  The operating system is a parameter: a world \<open>'w\<close> with a clock and the system call
  \<open>kevent\<close>. The methods of \<open>dyn OpCode\<close> are a parameter too, a record of functions over
  the type \<open>'op\<close> of operations; \<open>None\<close> is a panic. The feature \<open>time\<close> is on. The fields
  \<open>squeue_cap\<close> and \<open>events_cap\<close> are the capacities of the vectors of the source.
\<close>

subsection \<open>Descriptors and events\<close>

datatype kq_fd = KqFd (kq_raw: i32)

definition kq_INVALID_FD :: kq_fd where
  "kq_INVALID_FD = KqFd (-1)"

definition kq_fd_into :: "kq_fd \<Rightarrow> kq_fd" where
  "kq_fd_into f = f"

datatype kq_filter = FRead i32 | FWrite i32 | FOther

datatype kq_flag = EvADD | EvENABLE | EvONESHOT | EvERROR

record kq_event =
  ev_filter :: kq_filter
  ev_flags :: "kq_flag set"
  ev_udata :: nat
  ev_data :: int

record ('op, 'w) kq_opcode =
  operate :: "'op \<Rightarrow> 'w \<Rightarrow> (usize io_result option \<times> 'op \<times> 'w) option"
  as_event :: "'op \<Rightarrow> nat \<Rightarrow> kq_event option"
  timer_delay :: "'op \<Rightarrow> nat option"

record 'w kq_sys =
  kqueue :: "'w \<Rightarrow> unit io_result \<times> 'w"
  kevent :: "kq_event list \<Rightarrow> nat \<Rightarrow> nat option \<Rightarrow> 'w \<Rightarrow> kq_event list io_result \<times> 'w"
  clock :: "'w \<Rightarrow> nat"

definition TIMER_PENDING :: usize where
  "TIMER_PENDING = -1 - 2"

subsection \<open>The driver\<close>

record 'op kq_driver =
  squeue :: "'op op_object list"
  squeue_cap :: nat
  squeue_drained_till :: nat
  io_pending :: "'op op_object list"
  events_cap :: nat
  events_to_change :: "kq_event list"
  ready_events :: "kq_event list"
  completed_events_indices :: "nat set"
  to_change_fd_reads :: "usize set"
  to_change_fd_writes :: "usize set"
  timers :: timer_wheel

definition kq_with :: "'w kq_sys \<Rightarrow> u32 \<Rightarrow> u32 \<Rightarrow> 'w \<Rightarrow> 'op kq_driver io_result \<times> 'w" where
  "kq_with K entries files_to_register w =
     (case kqueue K w of
        (Err e, w') \<Rightarrow> (Err e, w')
      | (Ok _, w') \<Rightarrow>
          (Ok \<lparr>squeue = [], squeue_cap = unat entries, squeue_drained_till = unat entries,
               io_pending = [], events_cap = unat entries, events_to_change = [], ready_events = [],
               completed_events_indices = {}, to_change_fd_reads = {}, to_change_fd_writes = {},
               timers = wheel_with_capacity 16\<rparr>, w'))"

definition kq_new :: "'w kq_sys \<Rightarrow> 'w \<Rightarrow> 'op kq_driver io_result \<times> 'w" where
  "kq_new K w = kq_with K 1024 0 w"

text \<open>The iterator of \<open>operate_squeue\<close> over the drained submission queue.\<close>

fun operate_ops ::
  "'w kq_sys \<Rightarrow> ('op, 'w) kq_opcode \<Rightarrow> 'op op_object list \<Rightarrow> 'op op_object list \<Rightarrow> timer_wheel \<Rightarrow> 'w \<Rightarrow>
   (entry list \<times> 'op op_object list \<times> timer_wheel \<times> 'w) option" where
  "operate_ops K V [] pend tm w = Some ([], pend, tm, w)"
| "operate_ops K V (x # xs) pend tm w =
     do { (r, op', w1) \<leftarrow> operate V (obj_op x) w;
          case r of
            None \<Rightarrow> operate_ops K V xs (pend @ [x\<lparr>obj_op := op'\<rparr>]) tm w1
          | Some res \<Rightarrow>
              if res = Ok TIMER_PENDING then
                do { delay \<leftarrow> timer_delay V op';
                     operate_ops K V xs pend (wheel_insert (clock K w1) (obj_user_data x) delay tm) w1 }
              else
                do { (es, pend', tm', w2) \<leftarrow> operate_ops K V xs pend tm w1;
                     Some (entry_new (obj_user_data x) res # es, pend', tm', w2) } }"

definition operate_squeue ::
  "'w kq_sys \<Rightarrow> ('op, 'w) kq_opcode \<Rightarrow> 'op kq_driver \<Rightarrow> 'w \<Rightarrow> (entry list \<times> 'op kq_driver \<times> 'w) option" where
  "operate_squeue K V d w =
     do { (es, pend, tm, w') \<leftarrow> operate_ops K V (squeue d) (io_pending d) (timers d) w;
          Some (es, d\<lparr>squeue := [], io_pending := pend, timers := tm,
                      squeue_drained_till := squeue_cap d\<rparr>, w') }"

text \<open>
  The closure of \<open>operate_completed_and_requeue\<close> over the ready events, and the loop that
  moves what is still pending to the back of the queue.
\<close>

fun operate_ready ::
  "('op, 'w) kq_opcode \<Rightarrow> kq_event list \<Rightarrow> 'op op_object list \<Rightarrow> nat set \<Rightarrow> 'w \<Rightarrow>
   (entry list \<times> 'op op_object list \<times> nat set \<times> 'w) option" where
  "operate_ready V [] pend C w = Some ([], pend, C, w)"
| "operate_ready V (ev # evs) pend C w =
     (let index = ev_udata ev
      in if \<not> index < length pend then None
         else
           let x = pend ! index; user_data = obj_user_data x
           in if EvERROR \<in> ev_flags ev then
                (if \<not> (- (2 ^ 31) \<le> ev_data ev \<and> ev_data ev < 2 ^ 31) then None
                 else
                   do { (es, pend', C', w') \<leftarrow> operate_ready V evs pend (insert index C) w;
                        Some (entry_new user_data (Err (Os (word_of_int (ev_data ev)))) # es, pend', C', w') })
              else
                do { (r, op', w1) \<leftarrow> operate V (obj_op x) w;
                     let pend1 = pend[index := x\<lparr>obj_op := op'\<rparr>]
                     in case r of
                          None \<Rightarrow> operate_ready V evs pend1 C w1
                        | Some res \<Rightarrow>
                            do { (es, pend', C', w') \<leftarrow> operate_ready V evs pend1 (insert index C) w1;
                                 Some (entry_new user_data res # es, pend', C', w') } })"

fun requeue :: "nat set \<Rightarrow> nat \<Rightarrow> nat \<Rightarrow> 'a list \<Rightarrow> 'a list option" where
  "requeue C index 0 pend = Some pend"
| "requeue C index (Suc n) [] = None"
| "requeue C index (Suc n) (x # xs) =
     requeue C (index + 1) n (if index \<in> C then xs else xs @ [x])"

definition operate_completed_and_requeue ::
  "('op, 'w) kq_opcode \<Rightarrow> nat \<Rightarrow> 'op kq_driver \<Rightarrow> 'w \<Rightarrow> (entry list \<times> 'op kq_driver \<times> 'w) option" where
  "operate_completed_and_requeue V io_pending_scanned_till d w =
     do { (es, pend, C, w') \<leftarrow> operate_ready V (ready_events d) (io_pending d) {} w;
          pend' \<leftarrow> requeue C 0 io_pending_scanned_till pend;
          Some (es, d\<lparr>ready_events := [], completed_events_indices := C, io_pending := pend'\<rparr>, w') }"

text \<open>
  The scan of \<open>check_readiness\<close>: \<open>n\<close> counts the events to change, \<open>till\<close> is the
  variable \<open>scanned_till\<close> that every step overwrites with its index.
\<close>

fun scan_pending ::
  "('op, 'w) kq_opcode \<Rightarrow> nat \<Rightarrow> nat \<Rightarrow> 'op op_object list \<Rightarrow> nat \<Rightarrow> usize set \<Rightarrow> usize set \<Rightarrow> nat \<Rightarrow>
   (kq_event list \<times> usize set \<times> usize set \<times> nat) option" where
  "scan_pending V cap index [] n R W till = Some ([], R, W, till)"
| "scan_pending V cap index (x # xs) n R W till =
     (if n < cap then
        do { event \<leftarrow> as_event V (obj_op x) index;
             (fd_absent, R', W') \<leftarrow>
               (case ev_filter event of
                  FRead raw_fd \<Rightarrow>
                    if is_negative raw_fd then None
                    else Some (i32_as_usize raw_fd \<notin> R, insert (i32_as_usize raw_fd) R, W)
                | FWrite raw_fd \<Rightarrow> Some (i32_as_usize raw_fd \<notin> W, R, insert (i32_as_usize raw_fd) W)
                | FOther \<Rightarrow> None);
             if fd_absent then
               do { (es, R'', W'', t) \<leftarrow> scan_pending V cap (index + 1) xs (n + 1) R' W' index;
                    Some (event # es, R'', W'', t) }
             else scan_pending V cap (index + 1) xs n R' W' index }
      else Some ([], R, W, index))"

definition check_readiness ::
  "'w kq_sys \<Rightarrow> ('op, 'w) kq_opcode \<Rightarrow> nat option \<Rightarrow> 'op kq_driver \<Rightarrow> 'w \<Rightarrow>
   (nat io_result \<times> entry list \<times> 'op kq_driver \<times> 'w) option" where
  "check_readiness K V timeout d w =
     do { (changes, R, W, scanned_till) \<leftarrow> scan_pending V (events_cap d) 0 (io_pending d) 0 {} {} 0;
          let timeout = till_next_timer_or_timeout (clock K w) timeout (timers d);
              timeout = (case timeout of None \<Rightarrow> 0 | Some t \<Rightarrow> t);
              (res, w1) = kevent K changes (events_cap d) (Some timeout) w;
              (es, tm) = expire_timers (clock K w1) (timers d);
              d1 = d\<lparr>events_to_change := changes, to_change_fd_reads := R, to_change_fd_writes := W,
                     ready_events := (case res of Ok evs \<Rightarrow> evs | Err _ \<Rightarrow> []), timers := tm\<rparr>
          in Some ((case res of Ok _ \<Rightarrow> Ok scanned_till | Err e \<Rightarrow> Err e), es, d1, w1) }"

definition kq_attach :: "i32 \<Rightarrow> 'op kq_driver \<Rightarrow> kq_fd io_result \<times> 'op kq_driver" where
  "kq_attach fd d = (Ok (KqFd fd), d)"

definition kq_register_fd :: "i32 \<Rightarrow> u32 \<Rightarrow> 'op kq_driver \<Rightarrow> kq_fd io_result \<times> 'op kq_driver" where
  "kq_register_fd fd ix d = (Ok (KqFd fd), d)"

definition kq_unregister_fd :: "kq_fd \<Rightarrow> 'op kq_driver \<Rightarrow> unit io_result \<times> 'op kq_driver" where
  "kq_unregister_fd fixed_fd d = (Ok (), d)"

definition kq_try_cancel :: "usize \<Rightarrow> 'op kq_driver \<Rightarrow> (unit + unit) \<times> 'op kq_driver" where
  "kq_try_cancel user_data d =
     (Ok (), d\<lparr>squeue := remove_first (\<lambda>x. obj_user_data x = user_data) (squeue d),
               io_pending := remove_first (\<lambda>x. obj_user_data x = user_data) (io_pending d)\<rparr>)"

definition kq_capacity_left :: "'op kq_driver \<Rightarrow> nat" where
  "kq_capacity_left d = squeue_drained_till d - length (squeue d)"

definition kq_try_push ::
  "('o \<Rightarrow> 'op) \<Rightarrow> 'o operation \<Rightarrow> 'op kq_driver \<Rightarrow> ('o operation + unit) \<times> 'op kq_driver" where
  "kq_try_push dyn op d =
     (if kq_capacity_left d > 0 then (Ok (), d\<lparr>squeue := squeue d @ [op_object_from_operation dyn op]\<rparr>)
      else (Err op, d))"

definition kq_try_push_dyn ::
  "'op op_object \<Rightarrow> 'op kq_driver \<Rightarrow> ('op op_object + unit) \<times> 'op kq_driver" where
  "kq_try_push_dyn op d =
     (if kq_capacity_left d > 0 then (Ok (), d\<lparr>squeue := squeue d @ [op]\<rparr>) else (Err op, d))"

definition kq_push_queue ::
  "'op op_object list \<Rightarrow> 'op kq_driver \<Rightarrow> 'op op_object list \<times> 'op kq_driver" where
  "kq_push_queue ops_queue d =
     (let till = min (kq_capacity_left d) (length ops_queue)
      in (drop till ops_queue, d\<lparr>squeue := squeue d @ take till ops_queue\<rparr>))"

definition kq_submit ::
  "'w kq_sys \<Rightarrow> ('op, 'w) kq_opcode \<Rightarrow> nat option \<Rightarrow> 'op kq_driver \<Rightarrow> 'w \<Rightarrow>
   ((unit io_result \<times> entry list) \<times> 'op kq_driver \<times> 'w) option" where
  "kq_submit K V timeout d w =
     (let ops_pushed = (squeue d \<noteq> [])
      in do { (es1, d1, w1) \<leftarrow> operate_squeue K V d w;
              if ops_pushed \<and> io_pending d1 = [] then
                (let (es2, tm) = expire_timers (clock K w1) (timers d1)
                 in Some ((Ok (), es1 @ es2), d1\<lparr>timers := tm\<rparr>, w1))
              else
                do { (res, es2, d2, w2) \<leftarrow> check_readiness K V timeout d1 w1;
                     case res of
                       Err e \<Rightarrow> Some ((Err e, es1 @ es2), d2, w2)
                     | Ok till \<Rightarrow>
                         do { (es3, d3, w3) \<leftarrow> operate_completed_and_requeue V till d2 w2;
                              Some ((Ok (), es1 @ es2 @ es3), d3, w3) } } })"

end
