(* ===== verification/Kqueue_Spec.thy ===== *)
theory Kqueue_Spec
  imports Kqueue_Driver
begin

text \<open>
  What the kqueue driver guarantees: the submission queue contract, which events are given to
  the kernel, and that \<open>submit\<close> reports or keeps every operation it holds. The last part also
  shows where the driver fails to remove a completed operation.
\<close>

subsection \<open>The submission queue contract\<close>

definition kq_queued :: "'op kq_driver \<Rightarrow> usize list" where
  "kq_queued d = map obj_user_data (squeue d)"

interpretation kq: submission_queue "\<lambda>d. True" "\<lambda>x. True" kq_queued kq_capacity_left
  "\<lambda>x d. Some (kq_try_push_dyn x d)" "\<lambda>xs d. Some (kq_push_queue xs d)"
  by unfold_locales
    (auto simp: kq_try_push_dyn_def kq_push_queue_def kq_queued_def kq_capacity_left_def Let_def)

subsection \<open>Requeueing\<close>

lemma requeue_eq:
  "n \<le> length xs \<Longrightarrow> requeue C i n xs = Some (drop n xs @ keep_idx (\<lambda>j. j \<notin> C) i (take n xs))"
proof (induction n arbitrary: i xs)
  case (Suc n)
  then obtain x ys where "xs = x # ys" "n \<le> length ys" by (cases xs) auto
  then show ?case using Suc.IH [of ys "i + 1"] Suc.IH [of "ys @ [x]" "i + 1"] by simp
qed simp

text \<open>The completed operations among the scanned ones leave the queue, nothing else does.\<close>

lemma mset_requeue:
  assumes "n \<le> length xs" "requeue C 0 n xs = Some ys"
  shows "mset xs = mset ys + image_mset (\<lambda>j. xs ! j) (mset_set {j. j < n \<and> j \<in> C})"
proof -
  have "mset (take n xs) = mset (keep_idx (\<lambda>j. j \<in> C) 0 (take n xs)) + mset (keep_idx (\<lambda>j. j \<notin> C) 0 (take n xs))"
    by (rule mset_keep_idx_split)
  moreover have "mset (keep_idx (\<lambda>j. j \<in> C) 0 (take n xs)) =
      image_mset (\<lambda>j. xs ! j) (mset_set {j. j < n \<and> j \<in> C})"
    using assms(1) by (auto simp: mset_keep_idx min.absorb2 intro!: image_mset_cong)
  moreover have "mset xs = mset (take n xs) + mset (drop n xs)"
    by (metis append_take_drop_id mset_append)
  moreover have "ys = drop n xs @ keep_idx (\<lambda>j. j \<notin> C) 0 (take n xs)"
    using assms requeue_eq [OF assms(1), of C 0] by simp
  ultimately show ?thesis by simp
qed

subsection \<open>Operating the ready operations\<close>

lemma mset_set_insert_step:
  assumes "finite C'" "i \<in> C'"
  shows "image_mset f (mset_set (C' - C)) =
    (if i \<in> C then {#} else {#f i#}) + image_mset f (mset_set (C' - insert i C))"
proof (cases "i \<in> C")
  case False
  then have eq: "C' - C = insert i (C' - insert i C)" using assms(2) by blast
  have "mset_set (insert i (C' - insert i C)) = add_mset i (mset_set (C' - insert i C))"
    by (rule mset_set.insert) (use assms(1) in auto)
  then show ?thesis unfolding eq by (simp only: False if_False) simp
next
  case True
  then have "insert i C = C" by blast
  then show ?thesis using True by simp
qed

lemma map_user_data_update [simp]:
  "map obj_user_data (pend[i := (pend ! i)\<lparr>obj_op := op\<rparr>]) = map obj_user_data pend"
  by (cases "i < length pend") (simp_all add: map_update list_update_same_conv list_update_beyond not_less)

lemma operate_ready_ConsE:
  assumes "operate_ready V (ev # evs) pend C w = Some (es, pend', C', w')"
  obtains (completed) e es1 pend1 w1 where "ev_udata ev < length pend" "es = e # es1"
      "entry_user_data e = map obj_user_data pend ! ev_udata ev"
      "map obj_user_data pend1 = map obj_user_data pend"
      "operate_ready V evs pend1 (insert (ev_udata ev) C) w1 = Some (es1, pend', C', w')"
    | (waiting) pend1 w1 where "ev_udata ev < length pend"
      "map obj_user_data pend1 = map obj_user_data pend"
      "operate_ready V evs pend1 C w1 = Some (es, pend', C', w')"
proof (cases "EvERROR \<in> ev_flags ev")
  case True
  then show ?thesis using assms
    by (auto simp: Let_def split: if_splits bind_splits intro: completed)
next
  case False
  then obtain r op' w1 where "operate V (obj_op (pend ! ev_udata ev)) w = Some (r, op', w1)"
    using assms by (auto simp: Let_def split: if_splits bind_splits)
  note op = this
  show ?thesis
  proof (cases r)
    case None
    then show ?thesis
      using assms False op map_user_data_update [of pend "ev_udata ev" op']
      by (intro waiting) (auto simp: Let_def split: if_splits)
  next
    case (Some res)
    then obtain es1 where "ev_udata ev < length pend"
        "es = entry_new (obj_user_data (pend ! ev_udata ev)) res # es1"
        "operate_ready V evs (pend[ev_udata ev := (pend ! ev_udata ev)\<lparr>obj_op := op'\<rparr>])
           (insert (ev_udata ev) C) w1 = Some (es1, pend', C', w')"
      using assms False op by (auto simp: Let_def split: if_splits bind_splits)
    then show ?thesis
      using completed [of "entry_new (obj_user_data (pend ! ev_udata ev)) res" es1
          "pend[ev_udata ev := (pend ! ev_udata ev)\<lparr>obj_op := op'\<rparr>]" w1] by simp
  qed
qed

lemma same_user_data:
  assumes "map obj_user_data xs = map obj_user_data ys"
  shows "length xs = length ys" "obj_user_data ` set xs = obj_user_data ` set ys"
  using map_eq_imp_length_eq [OF assms] arg_cong [OF assms, of set] by simp_all

text \<open>
  What the loop over the ready events does: user data and length of the queue stay, only
  reported indices are marked, and every marked one is reported.
\<close>

lemma operate_ready_frame:
  "operate_ready V evs pend C w = Some (es, pend', C', w') \<Longrightarrow>
   map obj_user_data pend' = map obj_user_data pend \<and> C \<subseteq> C' \<and> C' \<subseteq> C \<union> ev_udata ` set evs \<and>
   ev_udata ` set evs \<subseteq> {..<length pend} \<and> entry_user_data ` set es \<subseteq> obj_user_data ` set pend"
proof (induction evs arbitrary: pend C w es pend' C' w')
  case (Cons ev evs)
  from Cons.prems show ?case
  proof (cases rule: operate_ready_ConsE)
    case (completed e es1 pend1 w1)
    then show ?thesis using Cons.IH [OF completed(5)] same_user_data [OF completed(4)] by auto
  next
    case (waiting pend1 w1)
    then show ?thesis using Cons.IH [OF waiting(3)] same_user_data [OF waiting(2)] by auto
  qed
qed simp

lemma operate_ready_finite:
  assumes "operate_ready V evs pend C w = Some (es, pend', C', w')" "finite C"
  shows "finite C'"
proof (rule finite_subset)
  show "C' \<subseteq> C \<union> ev_udata ` set evs" using operate_ready_frame [OF assms(1)] by blast
qed (use assms(2) in simp)

lemma operate_ready_reports:
  assumes "operate_ready V evs pend C w = Some (es, pend', C', w')" "finite C"
  shows "image_mset (\<lambda>i. map obj_user_data pend ! i) (mset_set (C' - C)) \<subseteq># mset (map entry_user_data es)"
  using assms
proof (induction evs arbitrary: pend C w es pend' C' w')
  case (Cons ev evs)
  from Cons.prems(1) show ?case
  proof (cases rule: operate_ready_ConsE)
    case (completed e es1 pend1 w1)
    have fin: "finite C'" "ev_udata ev \<in> C'"
      using operate_ready_finite [OF completed(5)] operate_ready_frame [OF completed(5)] Cons.prems(2)
      by (blast intro: finite.insertI)+
    have "image_mset (\<lambda>i. map obj_user_data pend ! i) (mset_set (C' - insert (ev_udata ev) C)) \<subseteq>#
        mset (map entry_user_data es1)"
      using Cons.IH [OF completed(5)] Cons.prems(2) completed(4) by simp
    then have "(if ev_udata ev \<in> C then {#} else {#map obj_user_data pend ! ev_udata ev#}) +
        image_mset (\<lambda>i. map obj_user_data pend ! i) (mset_set (C' - insert (ev_udata ev) C)) \<subseteq>#
        {#map obj_user_data pend ! ev_udata ev#} + mset (map entry_user_data es1)"
      by (intro subset_mset.add_mono) simp_all
    then show ?thesis
      unfolding mset_set_insert_step [OF fin, where C = C] completed(2) by (simp add: completed(3))
  next
    case (waiting pend1 w1)
    then show ?thesis using Cons.IH [OF waiting(3)] Cons.prems(2) by simp
  qed
qed simp

lemma operate_ready_exact:
  assumes "operate_ready V evs pend C w = Some (es, pend', C', w')" "finite C"
    "distinct (map ev_udata evs)" "C \<inter> ev_udata ` set evs = {}"
  shows "mset (map entry_user_data es) = image_mset (\<lambda>i. map obj_user_data pend ! i) (mset_set (C' - C))"
  using assms
proof (induction evs arbitrary: pend C w es pend' C' w')
  case (Cons ev evs)
  from Cons.prems(1) show ?case
  proof (cases rule: operate_ready_ConsE)
    case (completed e es1 pend1 w1)
    have fin: "finite C'" "ev_udata ev \<in> C'"
      using operate_ready_finite [OF completed(5)] operate_ready_frame [OF completed(5)] Cons.prems(2)
      by (blast intro: finite.insertI)+
    have "mset (map entry_user_data es1) =
        image_mset (\<lambda>i. map obj_user_data pend ! i) (mset_set (C' - insert (ev_udata ev) C))"
      using Cons.IH [OF completed(5)] Cons.prems(2-4) completed(4) by auto
    then show ?thesis
      unfolding mset_set_insert_step [OF fin, where C = C] completed(2) using Cons.prems(4)
      by (simp add: completed(3))
  next
    case (waiting pend1 w1)
    then show ?thesis using Cons.IH [OF waiting(3)] Cons.prems(2-4) by auto
  qed
qed simp

subsection \<open>Operating the submission queue\<close>

lemma operate_ops_conserves:
  "operate_ops K V xs pend tm w = Some (es, pend', tm', w') \<Longrightarrow>
   op_uds xs + op_uds pend + timer_uds tm = entry_uds es + op_uds pend' + timer_uds tm' \<and>
   (wheel_ok tm \<longrightarrow> wheel_ok tm')"
proof (induction xs arbitrary: pend tm w es)
  case (Cons x xs)
  then obtain r op' w1 where op: "operate V (obj_op x) w = Some (r, op', w1)"
    by (auto split: bind_splits)
  consider "r = None" | "r = Some (Ok TIMER_PENDING)" | res where "r = Some res" "res \<noteq> Ok TIMER_PENDING"
    by (cases r) auto
  then show ?case
  proof cases
    case 1
    then have "operate_ops K V xs (pend @ [x\<lparr>obj_op := op'\<rparr>]) tm w1 = Some (es, pend', tm', w')"
      using Cons.prems op by simp
    from Cons.IH [OF this] show ?thesis by simp
  next
    case 2
    then obtain t where "operate_ops K V xs pend (wheel_insert (clock K w1) (obj_user_data x) t tm) w1 =
        Some (es, pend', tm', w')"
      using Cons.prems op by (auto split: bind_splits)
    from Cons.IH [OF this] show ?thesis by (auto simp: wheel_ok_insert)
  next
    case 3
    then obtain es1 where "es = entry_new (obj_user_data x) res # es1"
        "operate_ops K V xs pend tm w1 = Some (es1, pend', tm', w')"
      using Cons.prems op by (auto split: bind_splits)
    with Cons.IH [OF this(2)] show ?thesis by auto
  qed
qed simp

subsection \<open>Scanning\<close>

lemma scan_pending_till:
  assumes "scan_pending V cap i xs n R W t0 = Some (es, R', W', t)"
  shows "t = t0 \<and> xs = [] \<or> i \<le> t \<and> t < i + length xs"
    and "n + length xs \<le> cap \<Longrightarrow> xs \<noteq> [] \<Longrightarrow> t = i + length xs - 1"
proof -
  have "(t = t0 \<and> xs = [] \<or> i \<le> t \<and> t < i + length xs) \<and>
    (n + length xs \<le> cap \<longrightarrow> xs \<noteq> [] \<longrightarrow> t = i + length xs - 1)"
    using assms
  proof (induction xs arbitrary: i n R W t0 es)
    case (Cons x xs)
    show ?case
    proof (cases "n < cap")
      case True
      then obtain n1 R1 W1 es1 where "scan_pending V cap (i + 1) xs n1 R1 W1 i = Some (es1, R', W', t)"
          "n1 \<le> n + 1"
        using Cons.prems by (auto split: bind_splits kq_filter.splits if_splits)
      from Cons.IH [OF this(1)] this(2) show ?thesis by (cases xs) auto
    next
      case False
      then show ?thesis using Cons.prems by auto
    qed
  qed simp
  then show "t = t0 \<and> xs = [] \<or> i \<le> t \<and> t < i + length xs"
    "n + length xs \<le> cap \<Longrightarrow> xs \<noteq> [] \<Longrightarrow> t = i + length xs - 1" by blast+
qed

definition seen :: "usize set \<Rightarrow> usize set \<Rightarrow> kq_filter \<Rightarrow> bool" where
  "seen R W f \<longleftrightarrow> (case f of FRead fd \<Rightarrow> i32_as_usize fd \<in> R | FWrite fd \<Rightarrow> i32_as_usize fd \<in> W | FOther \<Rightarrow> False)"

lemma scan_pending_ConsE:
  assumes "scan_pending V cap i (x # xs) n R W t0 = Some (es, R', W', t)"
  obtains (full) "es = []" "\<not> n < cap"
    | (first) ev es1 R1 W1 where "n < cap" "as_event V (obj_op x) i = Some ev" "\<not> seen R W (ev_filter ev)"
      "es = ev # es1" "scan_pending V cap (i + 1) xs (n + 1) R1 W1 i = Some (es1, R', W', t)"
      "\<And>f. seen R W f \<or> f = ev_filter ev \<Longrightarrow> seen R1 W1 f"
    | (again) ev R1 W1 where "n < cap" "as_event V (obj_op x) i = Some ev" "seen R W (ev_filter ev)"
      "scan_pending V cap (i + 1) xs n R1 W1 i = Some (es, R', W', t)"
      "\<And>f. seen R W f \<Longrightarrow> seen R1 W1 f"
proof (cases "n < cap")
  case False
  then show ?thesis using assms by (intro full) auto
next
  case True
  then obtain ev where ev: "as_event V (obj_op x) i = Some ev"
    using assms by (auto split: bind_splits)
  define R1 where "R1 = (case ev_filter ev of FRead fd \<Rightarrow> insert (i32_as_usize fd) R | _ \<Rightarrow> R)"
  define W1 where "W1 = (case ev_filter ev of FWrite fd \<Rightarrow> insert (i32_as_usize fd) W | _ \<Rightarrow> W)"
  have "ev_filter ev \<noteq> FOther" using assms True ev by (auto split: bind_splits)
  then have mono: "seen R W f \<or> f = ev_filter ev \<Longrightarrow> seen R1 W1 f" for f
    by (auto simp: seen_def R1_def W1_def split: kq_filter.splits)
  show ?thesis
  proof (cases "seen R W (ev_filter ev)")
    case seen: True
    then have "scan_pending V cap (i + 1) xs n R1 W1 i = Some (es, R', W', t)"
      using assms True ev by (auto simp: seen_def R1_def W1_def split: bind_splits kq_filter.splits if_splits)
    then show ?thesis using again True ev seen mono by blast
  next
    case unseen: False
    then obtain es1 where "es = ev # es1" "scan_pending V cap (i + 1) xs (n + 1) R1 W1 i = Some (es1, R', W', t)"
      using assms True ev by (auto simp: seen_def R1_def W1_def split: bind_splits kq_filter.splits if_splits)
    then show ?thesis using first True ev unseen mono by blast
  qed
qed

text \<open>
  The change list holds at most one event per descriptor and direction, that of the operation
  that has waited longest.
\<close>

definition oldest :: "('op, 'w) kq_opcode \<Rightarrow> nat \<Rightarrow> 'op op_object list \<Rightarrow> kq_event \<Rightarrow> bool" where
  "oldest V i xs ev \<longleftrightarrow> (\<exists>j < length xs. as_event V (obj_op (xs ! j)) (i + j) = Some ev \<and>
     (\<forall>k < j. map_option ev_filter (as_event V (obj_op (xs ! k)) (i + k)) \<noteq> Some (ev_filter ev)))"

lemma oldest_head: "as_event V (obj_op x) i = Some ev \<Longrightarrow> oldest V i (x # xs) ev"
  unfolding oldest_def by (intro exI [of _ 0]) simp

lemma oldest_tail:
  assumes "oldest V (Suc i) xs e" "as_event V (obj_op x) i = Some ev" "ev_filter e \<noteq> ev_filter ev"
  shows "oldest V i (x # xs) e"
proof -
  obtain j where "j < length xs" "as_event V (obj_op (xs ! j)) (Suc i + j) = Some e"
    "\<forall>k < j. map_option ev_filter (as_event V (obj_op (xs ! k)) (Suc i + k)) \<noteq> Some (ev_filter e)"
    using assms(1) unfolding oldest_def by blast
  then show ?thesis
    unfolding oldest_def using assms(2,3) by (intro exI [of _ "Suc j"]) (simp add: All_less_Suc2)
qed

lemma scan_pending_events:
  assumes "scan_pending V cap i xs n R W t0 = Some (es, R', W', t)" "n \<le> cap"
  shows "n + length es \<le> cap \<and> distinct (map ev_filter es) \<and>
    (\<forall>ev \<in> set es. \<not> seen R W (ev_filter ev) \<and> oldest V i xs ev)"
  using assms
proof (induction xs arbitrary: i n R W t0 es)
  case (Cons x xs)
  from Cons.prems(1) show ?case
  proof (cases rule: scan_pending_ConsE)
    case full
    then show ?thesis using Cons.prems(2) by simp
  next
    case (first ev es1 R1 W1)
    have IH: "n + 1 + length es1 \<le> cap" "distinct (map ev_filter es1)"
      "\<forall>e \<in> set es1. \<not> seen R1 W1 (ev_filter e) \<and> oldest V (Suc i) xs e"
      using Cons.IH [OF first(5)] first(1) by simp_all
    then have new: "\<forall>e \<in> set es1. \<not> seen R W (ev_filter e) \<and> ev_filter e \<noteq> ev_filter ev"
      using first(6) by blast
    then have "\<forall>e \<in> set es1. oldest V i (x # xs) e" using oldest_tail first(2) IH(3) by blast
    then show ?thesis
      using IH(1,2) new first(3,4) oldest_head [OF first(2)] by auto
  next
    case (again ev R1 W1)
    have IH: "n + length es \<le> cap" "distinct (map ev_filter es)"
      "\<forall>e \<in> set es. \<not> seen R1 W1 (ev_filter e) \<and> oldest V (Suc i) xs e"
      using Cons.IH [OF again(4)] Cons.prems(2) by simp_all
    then have new: "\<forall>e \<in> set es. \<not> seen R W (ev_filter e) \<and> ev_filter e \<noteq> ev_filter ev"
      using again(3,5) by metis
    then have "\<forall>e \<in> set es. oldest V i (x # xs) e" using oldest_tail again(2) IH(3) by blast
    then show ?thesis using IH(1,2) new by blast
  qed
qed simp

subsection \<open>Submitting\<close>

definition held :: "'op kq_driver \<Rightarrow> usize multiset" where
  "held d = op_uds (squeue d) + op_uds (io_pending d) + timer_uds (timers d)"

lemma check_readinessE:
  assumes "check_readiness K V timeout d w = Some (res, es, d', w')"
  obtains R W till where
    "scan_pending V (events_cap d) 0 (io_pending d) 0 {} {} 0 = Some (events_to_change d', R, W, till)"
    "\<And>n. res = Ok n \<Longrightarrow> n = till" "squeue d' = squeue d" "io_pending d' = io_pending d"
    "expire_timers (clock K w') (timers d) = (es, timers d')"
  using assms by (auto simp: check_readiness_def Let_def split: bind_splits prod.splits sum.splits)

lemma operate_completedE:
  assumes "operate_completed_and_requeue V till d w = Some (es, d', w')"
  obtains pend C where "operate_ready V (ready_events d) (io_pending d) {} w = Some (es, pend, C, w')"
    "requeue C 0 till pend = Some (io_pending d')" "squeue d' = squeue d" "timers d' = timers d"
  using assms by (auto simp: operate_completed_and_requeue_def split: bind_splits)

lemma requeue_user_data:
  assumes "till \<le> length pend" "requeue C 0 till pend = Some pend'"
  shows "op_uds pend = op_uds pend' +
    image_mset (\<lambda>i. map obj_user_data pend ! i) (mset_set {i. i < till \<and> i \<in> C})"
proof -
  have "image_mset (\<lambda>i. obj_user_data (pend ! i)) (mset_set {i. i < till \<and> i \<in> C}) =
      image_mset (\<lambda>i. map obj_user_data pend ! i) (mset_set {i. i < till \<and> i \<in> C})"
    using assms(1) by (intro image_mset_cong) auto
  then show ?thesis
    using arg_cong [OF mset_requeue [OF assms], of "image_mset obj_user_data"]
    by (simp add: op_uds_def multiset.map_comp comp_def)
qed

lemma user_data_cong: "map obj_user_data xs = map obj_user_data ys \<Longrightarrow> op_uds xs = op_uds ys"
  unfolding op_uds_def by (rule arg_cong)

lemma operate_completed_conserves:
  assumes "operate_completed_and_requeue V till d w = Some (es, d', w')" "till \<le> length (io_pending d)"
  shows "op_uds (io_pending d) \<subseteq># entry_uds es + op_uds (io_pending d')"
    and "set_mset (op_uds (io_pending d')) \<subseteq> set_mset (op_uds (io_pending d))"
    and "set_mset (entry_uds es) \<subseteq> set_mset (op_uds (io_pending d))"
    and "squeue d' = squeue d" "timers d' = timers d"
proof -
  obtain pend C where r: "operate_ready V (ready_events d) (io_pending d) {} w = Some (es, pend, C, w')"
    "requeue C 0 till pend = Some (io_pending d')" "squeue d' = squeue d" "timers d' = timers d"
    by (rule operate_completedE [OF assms(1)])
  have same: "map obj_user_data pend = map obj_user_data (io_pending d)"
    and es: "entry_user_data ` set es \<subseteq> obj_user_data ` set (io_pending d)"
    using operate_ready_frame [OF r(1)] by blast+
  have "finite C" using operate_ready_finite [OF r(1)] by simp
  then have "mset_set {i. i < till \<and> i \<in> C} \<subseteq># mset_set C"
    by (intro subset_imp_msubset_mset_set) auto
  then have "image_mset (\<lambda>i. map obj_user_data (io_pending d) ! i) (mset_set {i. i < till \<and> i \<in> C}) \<subseteq>#
      image_mset (\<lambda>i. map obj_user_data (io_pending d) ! i) (mset_set C)"
    by (rule image_mset_subseteq_mono)
  also have "\<dots> \<subseteq># entry_uds es"
    using operate_ready_reports [OF r(1)] unfolding entry_uds_def by simp
  finally have "image_mset (\<lambda>i. map obj_user_data (io_pending d) ! i) (mset_set {i. i < till \<and> i \<in> C}) \<subseteq># entry_uds es" .
  moreover have acc: "op_uds (io_pending d) = op_uds (io_pending d') +
      image_mset (\<lambda>i. map obj_user_data (io_pending d) ! i) (mset_set {i. i < till \<and> i \<in> C})"
    using requeue_user_data [OF _ r(2)] assms(2) same_user_data [OF same] user_data_cong [OF same]
    by (simp add: same)
  ultimately show "op_uds (io_pending d) \<subseteq># entry_uds es + op_uds (io_pending d')"
    by (simp add: add.commute)
  show "set_mset (op_uds (io_pending d')) \<subseteq> set_mset (op_uds (io_pending d))"
    unfolding acc by simp
  show "set_mset (entry_uds es) \<subseteq> set_mset (op_uds (io_pending d))"
    using es by (simp add: entry_uds_def op_uds_def)
qed (use operate_completedE [OF assms(1)] in metis)+

lemma check_readiness_till:
  assumes "check_readiness K V timeout d w = Some (Ok till, es, d', w')"
  shows "till \<le> length (io_pending d')"
    and "io_pending d \<noteq> [] \<Longrightarrow> length (io_pending d) \<le> events_cap d \<Longrightarrow> till = length (io_pending d) - 1"
  using check_readinessE [OF assms] scan_pending_till [of V "events_cap d" 0 "io_pending d" 0 "{}" "{}" 0]
  by (metis add_0 le_eq_less_or_eq zero_le, metis add_0)

text \<open>
  One \<open>submit\<close> as the sum of its phases: what it held is reported or still held, it reports
  only what it held, and the wheel stays a heap.
\<close>

lemma kq_submit_account:
  assumes "wheel_ok (timers d)" "kq_submit K V timeout d w = Some ((res, es), d', w')"
  shows "held d \<subseteq># entry_uds es + held d' \<and> set_mset (entry_uds es + held d') \<subseteq> set_mset (held d) \<and>
    wheel_ok (timers d') \<and> squeue d' = []"
proof -
  obtain es1 pend tm w1 where op: "operate_ops K V (squeue d) (io_pending d) (timers d) w = Some (es1, pend, tm, w1)"
    using assms(2) by (auto simp: kq_submit_def operate_squeue_def Let_def split: bind_splits)
  define d1 where "d1 = d\<lparr>squeue := [], io_pending := pend, timers := tm, squeue_drained_till := squeue_cap d\<rparr>"
  have sq: "operate_squeue K V d w = Some (es1, d1, w1)" by (simp add: operate_squeue_def op d1_def)
  have one: "held d = entry_uds es1 + held d1" "wheel_ok (timers d1)" "squeue d1 = []"
    using operate_ops_conserves [OF op] assms(1) by (simp_all add: held_def d1_def add_ac)
  show ?thesis
  proof (cases "squeue d \<noteq> [] \<and> io_pending d1 = []")
    case True
    then obtain es2 tm' where "expire_timers (clock K w1) (timers d1) = (es2, tm')"
        "es = es1 @ es2" "d' = d1\<lparr>timers := tm'\<rparr>"
      using assms(2) sq by (auto simp: kq_submit_def Let_def split: prod.splits)
    then show ?thesis
      using one expire_timers_conserves [OF one(2)] by (simp add: held_def add_ac)
  next
    case False
    then obtain res2 es2 d2 w2 where cr: "check_readiness K V timeout d1 w1 = Some (res2, es2, d2, w2)"
      using assms(2) sq by (auto simp: kq_submit_def Let_def split: bind_splits)
    then obtain "squeue d2 = squeue d1" "io_pending d2 = io_pending d1"
        "expire_timers (clock K w2) (timers d1) = (es2, timers d2)"
      by (rule check_readinessE)
    then have two: "held d1 = entry_uds es2 + held d2" "wheel_ok (timers d2)" "squeue d2 = []"
      using one(3) expire_timers_conserves [OF one(2)] by (simp_all add: held_def add_ac)
    show ?thesis
    proof (cases res2)
      case (Inl e)
      then have "es = es1 @ es2" "d' = d2" using assms(2) sq cr False by (auto simp: kq_submit_def Let_def)
      then show ?thesis using one two by auto
    next
      case (Inr till)
      then obtain es3 where three: "operate_completed_and_requeue V till d2 w2 = Some (es3, d', w')"
          "es = es1 @ es2 @ es3"
        using assms(2) sq cr False by (auto simp: kq_submit_def Let_def split: bind_splits)
      have le: "till \<le> length (io_pending d2)" by (rule check_readiness_till(1) [OF cr [unfolded Inr]])
      note c = operate_completed_conserves [OF three(1) le]
      have "held d2 \<subseteq># entry_uds es3 + held d'" using c(1,4,5) by (simp add: held_def)
      moreover have "set_mset (entry_uds es3 + held d') \<subseteq> set_mset (held d2)"
        using c(2-5) by (auto simp: held_def)
      moreover have "held d = entry_uds es1 + entry_uds es2 + held d2" using one(1) two(1) by (simp add: add_ac)
      moreover have "entry_uds es = entry_uds es1 + entry_uds es2 + entry_uds es3" using three(2) by (simp add: add_ac)
      ultimately have "held d \<subseteq># entry_uds es + held d' \<and> set_mset (entry_uds es + held d') \<subseteq> set_mset (held d)"
        using subset_mset.add_left_mono [of "held d2" "entry_uds es3 + held d'" "entry_uds es1 + entry_uds es2"]
        by (auto simp: add_ac)
      then show ?thesis using two(2,3) c(4,5) by simp
    qed
  qed
qed

text \<open>
  C1. No operation is lost on kqueue: whatever a \<open>submit\<close> holds when it starts, in the
  submission queue, among the pending operations or in the timer wheel, it reports or still
  holds when it returns, also when \<open>kevent\<close> fails; and it reports only operations it held.
\<close>

theorem kq_submit_loses_nothing:
  assumes "wheel_ok (timers d)" "kq_submit K V timeout d w = Some ((res, es), d', w')"
  shows "mset (map obj_user_data (squeue d @ io_pending d)) + mset (map timer_key (timers d)) \<subseteq>#
      mset (map entry_user_data es) + (mset (map obj_user_data (io_pending d')) + mset (map timer_key (timers d'))) \<and>
    entry_user_data ` set es \<subseteq>
      obj_user_data ` set (squeue d) \<union> obj_user_data ` set (io_pending d) \<union> timer_key ` set (timers d)"
proof -
  note acc = kq_submit_account [OF assms]
  have "held d = mset (map obj_user_data (squeue d @ io_pending d)) + mset (map timer_key (timers d))"
    by (simp add: held_def op_uds_def timer_uds_def)
  moreover have "held d' = mset (map obj_user_data (io_pending d')) + mset (map timer_key (timers d'))"
    using acc by (simp add: held_def op_uds_def timer_uds_def)
  moreover have "set_mset (held d) =
      obj_user_data ` set (squeue d) \<union> obj_user_data ` set (io_pending d) \<union> timer_key ` set (timers d)"
    by (simp add: held_def op_uds_def timer_uds_def)
  moreover have "entry_user_data ` set es \<subseteq> set_mset (held d)" using acc by (simp add: entry_uds_def)
  ultimately show ?thesis using acc unfolding entry_uds_def by metis
qed

text \<open>
  An instance for the witnesses: operations carry a descriptor and the results their attempts
  will have, and every event that is registered is ready at once.
\<close>

definition scripted :: "(i32 \<times> usize io_result option list, nat) kq_opcode" where
  "scripted = \<lparr>operate = (\<lambda>op w. case op of (fd, []) \<Rightarrow> Some (None, op, w) | (fd, r # rs) \<Rightarrow> Some (r, (fd, rs), w)),
     as_event = (\<lambda>op i. Some \<lparr>ev_filter = FRead (fst op), ev_flags = {EvADD}, ev_udata = i, ev_data = 0\<rparr>),
     timer_delay = (\<lambda>op. Some 10)\<rparr>"

definition eager_sys :: "nat kq_sys" where
  "eager_sys = \<lparr>kqueue = (\<lambda>w. (Ok (), w)), kevent = (\<lambda>changes n t w. (Ok changes, w)), clock = (\<lambda>w. w)\<rparr>"

definition kq_sample ::
  "(i32 \<times> usize io_result option list) op_object list \<Rightarrow> (i32 \<times> usize io_result option list) op_object list \<Rightarrow>
   (i32 \<times> usize io_result option list) kq_driver" where
  "kq_sample q p = \<lparr>squeue = q, squeue_cap = 4, squeue_drained_till = 4, io_pending = p, events_cap = 4,
     events_to_change = [], ready_events = [], completed_events_indices = {}, to_change_fd_reads = {},
     to_change_fd_writes = {}, timers = []\<rparr>"

lemmas kq_eval = kq_sample_def scripted_def eager_sys_def kq_submit_def operate_squeue_def
  check_readiness_def operate_completed_and_requeue_def till_next_timer_or_timeout_def
  duration_till_next_timer_def op_object_new_def TIMER_PENDING_def is_negative_def

lemma kq_run_blocked:
  "\<exists>d'. kq_submit eager_sys scripted None (kq_sample [op_object_new (5, [None, Some (Ok 3)]) 7] []) 0 =
     Some ((Ok (), [entry_new 7 (Ok 3)]), d', 0) \<and> map obj_user_data (io_pending d') = [7]"
  by (simp add: kq_eval)

theorem kq_submit_loses_nothing_witness:
  "\<exists>es d'. kq_submit eager_sys scripted None (kq_sample [op_object_new (5, [None, Some (Ok 3)]) 7] []) 0 =
      Some ((Ok (), es), d', 0) \<and> {#7#} \<subseteq># mset (map entry_user_data es) +
        (mset (map obj_user_data (io_pending d')) + mset (map timer_key (timers d')))"
proof -
  obtain d' where d': "kq_submit eager_sys scripted None (kq_sample [op_object_new (5, [None, Some (Ok 3)]) 7] []) 0 =
     Some ((Ok (), [entry_new 7 (Ok 3)]), d', 0)"
    using kq_run_blocked by blast
  show ?thesis
    using d' kq_submit_loses_nothing [OF _ d'] by (auto simp: kq_sample_def op_object_new_def wheel_ok_def)
qed





lemma kq_last_pending_stays:
  assumes "kq_submit K V timeout d w = Some ((Ok (), es), d', w')" "squeue d = []" "io_pending d \<noteq> []"
    "length (io_pending d) \<le> events_cap d"
  obtains evs w2 es3 pend C where "operate_ready V evs (io_pending d) {} w2 = Some (es3, pend, C, w')"
    "last pend \<in> set (io_pending d')" "obj_user_data (last (io_pending d)) = obj_user_data (last pend)"
proof -
  have sq: "operate_squeue K V d w = Some ([], d\<lparr>squeue := [], squeue_drained_till := squeue_cap d\<rparr>, w)"
    by (simp add: operate_squeue_def assms(2))
  let ?d1 = "d\<lparr>squeue := [], squeue_drained_till := squeue_cap d\<rparr>"
  obtain till es2 d2 w2 es3 where cr: "check_readiness K V timeout ?d1 w = Some (Ok till, es2, d2, w2)"
      and oc: "operate_completed_and_requeue V till d2 w2 = Some (es3, d', w')"
    using assms(1,2) sq by (auto simp: kq_submit_def split: bind_splits sum.splits)
  have p: "io_pending d2 = io_pending d" using check_readinessE [OF cr] by auto
  have till: "till = length (io_pending d) - 1"
    using check_readiness_till(2) [OF cr] assms(3,4) by simp
  obtain pend C where r: "operate_ready V (ready_events d2) (io_pending d2) {} w2 = Some (es3, pend, C, w')"
    "requeue C 0 till pend = Some (io_pending d')"
    by (rule operate_completedE [OF oc])
  have same: "map obj_user_data pend = map obj_user_data (io_pending d)"
    using operate_ready_frame [OF r(1)] p by simp
  have len: "length pend = length (io_pending d)" by (rule same_user_data [OF same])
  have "pend \<noteq> []" using len assms(3) by auto
  then have "obj_user_data (last (io_pending d)) = obj_user_data (last pend)"
    using arg_cong [OF same, of last] assms(3) by (simp add: last_map)
  moreover have "last pend \<in> set (io_pending d')"
  proof -
    have "drop till pend = [last pend]"
      using \<open>pend \<noteq> []\<close> len till by (metis append_butlast_last_id append_eq_conv_conj length_butlast)
    then have "io_pending d' = last pend # keep_idx (\<lambda>j. j \<notin> C) 0 (take till pend)"
      using requeue_eq [of till pend C 0] r(2) till len by simp
    then show ?thesis by simp
  qed
  ultimately show ?thesis using that r(1) p by simp
qed

text \<open>
  A pending operation that is last in the queue when the whole queue has been scanned is
  never taken out of it, also when it completes and is reported: the scan returns the index of
  the last operation instead of the number of operations. The next \<open>submit\<close> operates it
  again, through a reference to memory its owner may have taken back.
\<close>

theorem kq_last_pending_never_removed:
  assumes "kq_submit K V timeout d w = Some ((Ok (), es), d', w')" "squeue d = []" "io_pending d \<noteq> []"
    "length (io_pending d) \<le> events_cap d"
  shows "obj_user_data (last (io_pending d)) \<in> obj_user_data ` set (io_pending d')"
  by (rule kq_last_pending_stays [OF assms]) simp

theorem kq_last_pending_never_removed_witness:
  "\<exists>d'. kq_submit eager_sys scripted None (kq_sample [] [op_object_new (5, [Some (Ok 3)]) 7]) 0 =
     Some ((Ok (), [entry_new 7 (Ok 3)]), d', 0) \<and> 7 \<in> obj_user_data ` set (io_pending d')"
proof -
  obtain d' where d': "kq_submit eager_sys scripted None (kq_sample [] [op_object_new (5, [Some (Ok 3)]) 7]) 0 =
     Some ((Ok (), [entry_new 7 (Ok 3)]), d', 0)"
    by (simp add: kq_eval)
  have "obj_user_data (last (io_pending (kq_sample [] [op_object_new (5, [Some (Ok 3)]) 7]))) \<in>
      obj_user_data ` set (io_pending d')"
    by (rule kq_last_pending_never_removed [OF d']) (simp_all add: kq_sample_def)
  then show ?thesis using d' by (simp add: kq_sample_def op_object_new_def)
qed

text \<open>
  A cancelled operation is dropped without an entry: with unique user data, once
  \<open>try_cancel\<close> has returned, the following \<open>submit\<close> does not report the operation, while all
  the other operations are kept.
\<close>

theorem kq_cancelled_never_reported:
  assumes "wheel_ok (timers d)" "distinct (map obj_user_data (squeue d @ io_pending d))"
    "ud \<notin> timer_key ` set (timers d)"
    "kq_submit K V timeout (snd (kq_try_cancel ud d)) w = Some ((res, es), d', w')"
  shows "ud \<notin> entry_user_data ` set es \<and>
    filter (\<lambda>x. obj_user_data x \<noteq> ud) (squeue (snd (kq_try_cancel ud d))) = filter (\<lambda>x. obj_user_data x \<noteq> ud) (squeue d) \<and>
    filter (\<lambda>x. obj_user_data x \<noteq> ud) (io_pending (snd (kq_try_cancel ud d))) = filter (\<lambda>x. obj_user_data x \<noteq> ud) (io_pending d)"
proof -
  let ?d = "snd (kq_try_cancel ud d)"
  have "remove_first (\<lambda>x. obj_user_data x = ud) xs = filter (\<lambda>x. obj_user_data x \<noteq> ud) xs"
    if "distinct (map obj_user_data xs)" for xs :: "'a op_object list"
    using that by (rule remove_first_distinct)
  then have q: "squeue ?d = filter (\<lambda>x. obj_user_data x \<noteq> ud) (squeue d)"
    "io_pending ?d = filter (\<lambda>x. obj_user_data x \<noteq> ud) (io_pending d)" "timers ?d = timers d"
    using assms(2) by (simp_all add: kq_try_cancel_def)
  then have "ud \<notin> set_mset (held ?d)"
    using assms(3) by (auto simp: held_def op_uds_def timer_uds_def)
  then show ?thesis
    using kq_submit_account [OF _ assms(4)] assms(1) q by (auto simp: entry_uds_def)
qed

theorem kq_cancelled_never_reported_witness:
  "\<exists>es d'. kq_submit eager_sys scripted None (snd (kq_try_cancel 7 (kq_sample [op_object_new (5, [Some (Ok 3)]) 7] []))) 0 =
     Some ((Ok (), es), d', 0) \<and> 7 \<notin> entry_user_data ` set es"
proof -
  obtain es d' where d': "kq_submit eager_sys scripted None
      (snd (kq_try_cancel 7 (kq_sample [op_object_new (5, [Some (Ok 3)]) 7] []))) 0 = Some ((Ok (), es), d', 0)"
    by (simp add: kq_eval kq_try_cancel_def)
  then show ?thesis
    using kq_cancelled_never_reported [OF _ _ _ d'] by (simp add: kq_sample_def wheel_ok_def)
qed

text \<open>
  Waiting without a timeout does not wait on kqueue: with no timer set, \<open>check_readiness\<close>
  asks the kernel only for what is ready now, so two systems that agree on a zero timeout cannot
  be told apart.
\<close>

theorem kq_no_timeout_never_blocks:
  assumes "timers d = []" "\<forall>changes n w. kevent K changes n (Some 0) w = kevent K' changes n (Some 0) w"
  shows "check_readiness K V None d w = check_readiness K' V None d w"
  using assms by (simp add: check_readiness_def till_next_timer_or_timeout_def duration_till_next_timer_def)

theorem kq_no_timeout_never_blocks_witness:
  "check_readiness eager_sys scripted None (kq_sample [] [op_object_new (5, []) 7]) 0 =
   check_readiness (eager_sys\<lparr>kevent := \<lambda>changes n t w. if t = Some 0 then (Ok changes, w) else (Ok [], w + 100)\<rparr>)
     scripted None (kq_sample [] [op_object_new (5, []) 7]) 0"
  by (rule kq_no_timeout_never_blocks) (simp_all add: eager_sys_def kq_sample_def)

text \<open>
  Batch pushes on kqueue conserve the operations and agree with pushing one at a time.
\<close>

theorem kq_push_queue_conserves:
  "\<exists>rest d' rest2 d2. kq_push_queue ops d = (rest, d') \<and>
    map obj_user_data (squeue d') @ map obj_user_data rest = map obj_user_data (squeue d) @ map obj_user_data ops \<and>
    (rest = [] \<or> kq_capacity_left d' = 0) \<and>
    push_each (\<lambda>x d. Some (kq_try_push_dyn x d)) ops d = Some (rest2, d2) \<and>
    map obj_user_data (squeue d2) = map obj_user_data (squeue d') \<and>
    map obj_user_data rest2 = map obj_user_data rest"
proof -
  obtain rest d' where 1: "Some (kq_push_queue ops d) = Some (rest, d')"
    "kq_queued d' @ map obj_user_data rest = kq_queued d @ map obj_user_data ops"
    "rest = [] \<or> kq_capacity_left d' = 0"
    using kq.push_queue_conserves [where s = d and xs = ops] by blast
  obtain rest2 d2 where 2: "push_each (\<lambda>x d. Some (kq_try_push_dyn x d)) ops d = Some (rest2, d2)"
    using kq.push_each_queued [where s = d and xs = ops] by blast
  show ?thesis
    using 1 2 kq.push_queue_eq_push_each [OF _ _ 1(1) 2] unfolding kq_queued_def by auto
qed

end
