(* ===== verification/Kqueue_Op.thy ===== *)
theory Kqueue_Op
  imports Kqueue_Driver Unix_Op
begin

text \<open>
  The operations on kqueue, \<open>src/driver/kqueue/op.rs\<close>: one \<open>operate\<close> and one
  \<open>as_event\<close> per operation, the type \<open>kq_op\<close> of all of them and its method table
  \<open>kq_vtable\<close>.

  The C library is a parameter that answers a system call with a reply: the return value, the
  error number, and what the call stored through the pointers it was given. \<open>syscall\<close> and
  \<open>maybe_block\<close> are the macros of \<open>src/lib.rs\<close>.
\<close>

subsection \<open>System calls\<close>

datatype kq_call =
    CRead i32 nat nat
  | CPread i32 nat nat usize
  | CWrite i32 nat nat
  | CPwrite i32 nat nat usize
  | CFsync i32
  | CAccept i32 u32
  | CConnect i32 sock_addr
  | CGetsockopt i32
  | CRecv i32 nat nat
  | CReadv i32 "(nat \<times> nat) list"
  | CSend i32 nat nat
  | CWritev i32 "(nat \<times> nat) list"
  | CRecvfrom i32 nat nat u32
  | CRecvmsg i32 msghdr
  | CSendto i32 nat nat sock_addr
  | CSendmsg i32 msghdr
  | CClose i32

record kq_reply =
  rp_ret :: int
  rp_errno :: i32
  rp_bytes :: "u8 list"
  rp_addr :: "u8 list"
  rp_addrlen :: u32
  rp_so_error :: i32

record 'w kq_libc =
  libc_call :: "kq_call \<Rightarrow> 'w \<Rightarrow> kq_reply \<times> 'w"
  KQ_EAGAIN :: i32
  KQ_EWOULDBLOCK :: i32
  KQ_EINPROGRESS :: i32

definition syscall :: "kq_reply \<Rightarrow> int io_result" where
  "syscall rp = (if rp_ret rp < 0 then Err (Os (rp_errno rp)) else Ok (rp_ret rp))"

definition maybe_block :: "'w kq_libc \<Rightarrow> kq_reply \<Rightarrow> usize io_result option" where
  "maybe_block L rp =
     (case syscall rp of
        Err e \<Rightarrow>
          if raw_os_error e \<in> {Some (KQ_EAGAIN L), Some (KQ_EWOULDBLOCK L)} \<or>
             raw_os_error e = Some (KQ_EINPROGRESS L)
          then None else Some (Err e)
      | Ok ok \<Rightarrow> Some (Ok (word_of_int ok)))"

text \<open>The event of an operation that waits for its descriptor.\<close>

definition add_event_flags :: "kq_flag set" where
  "add_event_flags = {EvADD, EvENABLE, EvONESHOT}"

definition read_filter_event :: "kq_fd \<Rightarrow> nat \<Rightarrow> kq_event" where
  "read_filter_event fd user_data =
     \<lparr>ev_filter = FRead (kq_raw fd), ev_flags = add_event_flags, ev_udata = user_data, ev_data = 0\<rparr>"

definition write_filter_event :: "kq_fd \<Rightarrow> nat \<Rightarrow> kq_event" where
  "write_filter_event fd user_data =
     \<lparr>ev_filter = FWrite (kq_raw fd), ev_flags = add_event_flags, ev_udata = user_data, ev_data = 0\<rparr>"

type_synonym ('op, 'w) attempt = "(usize io_result option \<times> 'op \<times> 'w) option"

subsection \<open>Reads and writes\<close>

definition read_operate :: "'w kq_libc \<Rightarrow> kq_fd read_op \<Rightarrow> 'w \<Rightarrow> (kq_fd read_op, 'w) attempt" where
  "read_operate L op w =
     do { (p, n) \<leftarrow> as_uninit_slice (read_buffer op);
          let (rp, w') = libc_call L (CRead (kq_raw (read_fd op)) p n) w
          in Some (maybe_block L rp, op\<lparr>read_buffer := store_bytes p (rp_bytes rp) (read_buffer op)\<rparr>, w') }"

definition read_at_operate :: "'w kq_libc \<Rightarrow> kq_fd read_at_op \<Rightarrow> 'w \<Rightarrow> (kq_fd read_at_op, 'w) attempt" where
  "read_at_operate L op w =
     do { (p, n) \<leftarrow> as_uninit_slice (read_at_buffer op);
          let (rp, w') = libc_call L (CPread (kq_raw (read_at_fd op)) p n (read_at_offset op)) w
          in Some (maybe_block L rp, op\<lparr>read_at_buffer := store_bytes p (rp_bytes rp) (read_at_buffer op)\<rparr>, w') }"

definition write_operate :: "'w kq_libc \<Rightarrow> kq_fd write_op \<Rightarrow> 'w \<Rightarrow> (kq_fd write_op, 'w) attempt" where
  "write_operate L op w =
     do { (p, n) \<leftarrow> init_region (write_buffer op);
          let (rp, w') = libc_call L (CWrite (kq_raw (write_fd op)) p n) w
          in Some (maybe_block L rp, op, w') }"

definition write_at_operate :: "'w kq_libc \<Rightarrow> kq_fd write_at_op \<Rightarrow> 'w \<Rightarrow> (kq_fd write_at_op, 'w) attempt" where
  "write_at_operate L op w =
     do { (p, n) \<leftarrow> init_region (write_at_buffer op);
          let (rp, w') = libc_call L (CPwrite (kq_raw (write_at_fd op)) p n (write_at_offset op)) w
          in Some (maybe_block L rp, op, w') }"

definition sync_operate :: "'w kq_libc \<Rightarrow> kq_fd sync_op \<Rightarrow> 'w \<Rightarrow> (kq_fd sync_op, 'w) attempt" where
  "sync_operate L op w =
     (let (rp, w') = libc_call L (CFsync (kq_raw (sync_fd op))) w
      in Some (Some (case syscall rp of Ok ok \<Rightarrow> Ok (word_of_int ok) | Err e \<Rightarrow> Err e), op, w'))"

subsection \<open>Accept and connect\<close>

definition accept_operate :: "'w kq_libc \<Rightarrow> kq_fd accept_op \<Rightarrow> 'w \<Rightarrow> (kq_fd accept_op, 'w) attempt" where
  "accept_operate L op w =
     (let (rp, w') = libc_call L (CAccept (kq_raw (accept_fd op)) (accept_addr_len op)) w
      in Some (maybe_block L rp,
               op\<lparr>accept_addr := (accept_addr op)\<lparr>sa_storage := rp_addr rp\<rparr>, accept_addr_len := rp_addrlen rp\<rparr>, w'))"

definition connect_operate :: "'w kq_libc \<Rightarrow> kq_fd connect_op \<Rightarrow> 'w \<Rightarrow> (kq_fd connect_op, 'w) attempt" where
  "connect_operate L op w =
     (if \<not> connect_initiated op then
        let op' = op\<lparr>connect_initiated := True\<rparr>;
            (rp, w') = libc_call L (CConnect (kq_raw (connect_fd op)) (connect_addr op)) w
        in Some (maybe_block L rp, op', w')
      else
        let (rp, w') = libc_call L (CGetsockopt (kq_raw (connect_fd op))) w
        in case syscall rp of
             Err syscall_err \<Rightarrow> Some (Some (Err syscall_err), op, w')
           | Ok _ \<Rightarrow>
               if rp_so_error rp = 0 then Some (Some (Ok 0), op, w')
               else Some (Some (Err (Os (rp_so_error rp))), op, w'))"

subsection \<open>Receiving and sending\<close>

definition recv_operate :: "'w kq_libc \<Rightarrow> kq_fd recv_op \<Rightarrow> 'w \<Rightarrow> (kq_fd recv_op, 'w) attempt" where
  "recv_operate L op w =
     do { (p, n) \<leftarrow> as_uninit_slice (recv_buffer op);
          let (rp, w') = libc_call L (CRecv (kq_raw (recv_fd op)) p n) w
          in Some (maybe_block L rp, op\<lparr>recv_buffer := store_bytes p (rp_bytes rp) (recv_buffer op)\<rparr>, w') }"

text \<open>The bytes of a vectored call go into the buffers behind its slices in their order.\<close>

fun store_slices :: "u8 list \<Rightarrow> (nat \<times> nat) list \<Rightarrow> iobuf list \<Rightarrow> iobuf list" where
  "store_slices ds ((p, n) # rs) (b # bs) = store_bytes p (take n ds) b # store_slices (drop n ds) rs bs"
| "store_slices ds _ bs = bs"

fun store_wrapped :: "u8 list \<Rightarrow> slices_buf \<Rightarrow> slices_buf" where
  "store_wrapped ds (WrappedMut b) =
     WrappedMut (b\<lparr>bwm_buffer := store_bytes (fst (bwm_io_slice_mut b)) (take (snd (bwm_io_slice_mut b)) ds) (bwm_buffer b)\<rparr>)"
| "store_wrapped ds (Vectored v) =
     Vectored (v\<lparr>vb_buffers := store_slices ds (vb_io_slices_mut v) (vb_buffers v)\<rparr>)"
| "store_wrapped ds (Wrapped b) = Wrapped b"

definition recv_vectored_operate ::
  "'w kq_libc \<Rightarrow> kq_fd recv_vectored_op \<Rightarrow> 'w \<Rightarrow> (kq_fd recv_vectored_op, 'w) attempt" where
  "recv_vectored_operate L op w =
     (let slices = as_io_slices_mut (recvv_buffer op);
          (rp, w') = libc_call L (CReadv (kq_raw (recvv_fd op)) slices) w
      in Some (maybe_block L rp, op\<lparr>recvv_buffer := store_wrapped (rp_bytes rp) (recvv_buffer op)\<rparr>, w'))"

definition send_operate :: "'w kq_libc \<Rightarrow> kq_fd send_op \<Rightarrow> 'w \<Rightarrow> (kq_fd send_op, 'w) attempt" where
  "send_operate L op w =
     do { (p, n) \<leftarrow> init_region (send_buffer op);
          let (rp, w') = libc_call L (CSend (kq_raw (send_fd op)) p n) w
          in Some (maybe_block L rp, op, w') }"

definition send_vectored_operate ::
  "'w kq_libc \<Rightarrow> kq_fd send_vectored_op \<Rightarrow> 'w \<Rightarrow> (kq_fd send_vectored_op, 'w) attempt" where
  "send_vectored_operate L op w =
     (let slices = as_io_slices (sendv_buffer op);
          (rp, w') = libc_call L (CWritev (kq_raw (sendv_fd op)) slices) w
      in Some (maybe_block L rp, op, w'))"

record kq_recv_from_op =
  kq_rf_fd :: kq_fd
  kq_rf_buffer :: iobuf
  kq_rf_addr :: "u8 list"
  kq_rf_socklen :: u32

definition kq_recv_from_new :: "u32 \<Rightarrow> ('f \<Rightarrow> kq_fd) \<Rightarrow> 'f \<Rightarrow> iobuf \<Rightarrow> kq_recv_from_op" where
  "kq_recv_from_new sz into fd buffer =
     \<lparr>kq_rf_fd = into fd, kq_rf_buffer = buffer, kq_rf_addr = replicate (unat sz) 0, kq_rf_socklen = sz\<rparr>"

definition kq_recv_from_into_inner :: "kq_recv_from_op \<Rightarrow> iobuf \<times> sock_addr" where
  "kq_recv_from_into_inner op =
     (kq_rf_buffer op, \<lparr>sa_storage = kq_rf_addr op, sa_len = kq_rf_socklen op\<rparr>)"

definition recv_from_operate :: "'w kq_libc \<Rightarrow> kq_recv_from_op \<Rightarrow> 'w \<Rightarrow> (kq_recv_from_op, 'w) attempt" where
  "recv_from_operate L op w =
     do { (p, n) \<leftarrow> as_uninit_slice (kq_rf_buffer op);
          let (rp, w') = libc_call L (CRecvfrom (kq_raw (kq_rf_fd op)) p n (kq_rf_socklen op)) w
          in Some (maybe_block L rp,
                   op\<lparr>kq_rf_buffer := store_bytes p (rp_bytes rp) (kq_rf_buffer op),
                      kq_rf_addr := rp_addr rp, kq_rf_socklen := rp_addrlen rp\<rparr>, w') }"

text \<open>\<open>set_msg\<close> fills the header on the first attempt; the kernel updates it in place.\<close>

definition recv_msg_operate :: "'w kq_libc \<Rightarrow> kq_fd recv_msg_op \<Rightarrow> 'w \<Rightarrow> (kq_fd recv_msg_op, 'w) attempt" where
  "recv_msg_operate L op w =
     (let op1 = (if msg_namelen (recvm_msg op) = 0 then snd (recv_msg_set_msg op) else op);
          (rp, w') = libc_call L (CRecvmsg (kq_raw (recvm_fd op1)) (recvm_msg op1)) w
      in Some (maybe_block L rp,
               op1\<lparr>recvm_buffer := store_wrapped (rp_bytes rp) (recvm_buffer op1),
                   recvm_addr := rp_addr rp,
                   recvm_msg := (recvm_msg op1)\<lparr>msg_namelen := rp_addrlen rp\<rparr>\<rparr>, w'))"

record kq_send_to_op =
  kq_st_fd :: kq_fd
  kq_st_buffer :: iobuf
  kq_st_addr :: sock_addr

definition kq_send_to_new :: "('f \<Rightarrow> kq_fd) \<Rightarrow> 'f \<Rightarrow> iobuf \<Rightarrow> sock_addr \<Rightarrow> kq_send_to_op" where
  "kq_send_to_new into fd buffer addr = \<lparr>kq_st_fd = into fd, kq_st_buffer = buffer, kq_st_addr = addr\<rparr>"

definition kq_send_to_into_inner :: "kq_send_to_op \<Rightarrow> iobuf" where
  "kq_send_to_into_inner op = kq_st_buffer op"

definition send_to_operate :: "'w kq_libc \<Rightarrow> kq_send_to_op \<Rightarrow> 'w \<Rightarrow> (kq_send_to_op, 'w) attempt" where
  "send_to_operate L op w =
     do { (p, n) \<leftarrow> init_region (kq_st_buffer op);
          let (rp, w') = libc_call L (CSendto (kq_raw (kq_st_fd op)) p n (kq_st_addr op)) w
          in Some (maybe_block L rp, op, w') }"

definition send_msg_operate :: "'w kq_libc \<Rightarrow> kq_fd send_msg_op \<Rightarrow> 'w \<Rightarrow> (kq_fd send_msg_op, 'w) attempt" where
  "send_msg_operate L op w =
     (let op1 = (if msg_namelen (sendm_msg op) = 0 then snd (send_msg_set_msg op) else op);
          (rp, w') = libc_call L (CSendmsg (kq_raw (sendm_fd op1)) (sendm_msg op1)) w
      in Some (maybe_block L rp, op1, w'))"

subsection \<open>Timers and closing\<close>

record kq_timeout =
  kq_delay :: nat

definition kq_timeout_new :: "nat \<Rightarrow> kq_timeout" where
  "kq_timeout_new delay = \<lparr>kq_delay = delay\<rparr>"

definition timeout_operate :: "kq_timeout \<Rightarrow> 'w \<Rightarrow> (kq_timeout, 'w) attempt" where
  "timeout_operate op w = Some (Some (Ok TIMER_PENDING), op, w)"

definition close_raw_fd :: "'w kq_libc \<Rightarrow> i32 \<Rightarrow> 'w \<Rightarrow> usize io_result \<times> 'w" where
  "close_raw_fd L raw_fd w =
     (let (rp, w') = libc_call L (CClose raw_fd) w
      in ((case syscall rp of Ok ok \<Rightarrow> Ok (word_of_int ok) | Err e \<Rightarrow> Err e), w'))"

definition fd_operate :: "'w kq_libc \<Rightarrow> kq_fd \<Rightarrow> 'w \<Rightarrow> (kq_fd, 'w) attempt" where
  "fd_operate L op w = (let (res, w') = close_raw_fd L (kq_raw op) w in Some (Some res, op, w'))"

definition option_operate :: "'w kq_libc \<Rightarrow> i32 option \<Rightarrow> 'w \<Rightarrow> (i32 option, 'w) attempt" where
  "option_operate L op w =
     (case op of
        Some fd \<Rightarrow> (let (res, w') = close_raw_fd L fd w in Some (Some res, None, w'))
      | None \<Rightarrow> Some (Some (Err (Custom InvalidInput ''Value is None. File descriptor is already closed?'')), None, w))"

subsection \<open>Every operation behind dyn OpCode\<close>

datatype kq_op =
    KqRead "kq_fd read_op"
  | KqReadAt "kq_fd read_at_op"
  | KqWrite "kq_fd write_op"
  | KqWriteAt "kq_fd write_at_op"
  | KqSync "kq_fd sync_op"
  | KqAccept "kq_fd accept_op"
  | KqConnect "kq_fd connect_op"
  | KqRecv "kq_fd recv_op"
  | KqRecvVectored "kq_fd recv_vectored_op"
  | KqSend "kq_fd send_op"
  | KqSendVectored "kq_fd send_vectored_op"
  | KqRecvFrom kq_recv_from_op
  | KqRecvMsg "kq_fd recv_msg_op"
  | KqSendTo kq_send_to_op
  | KqSendMsg "kq_fd send_msg_op"
  | KqTimeout kq_timeout
  | KqClose kq_fd
  | KqCloseOption "i32 option"

definition lift_attempt :: "('a \<Rightarrow> 'op) \<Rightarrow> ('a, 'w) attempt \<Rightarrow> ('op, 'w) attempt" where
  "lift_attempt f a = map_option (\<lambda>(r, x, w). (r, f x, w)) a"

fun kq_operate :: "'w kq_libc \<Rightarrow> kq_op \<Rightarrow> 'w \<Rightarrow> (kq_op, 'w) attempt" where
  "kq_operate L (KqRead x) w = lift_attempt KqRead (read_operate L x w)"
| "kq_operate L (KqReadAt x) w = lift_attempt KqReadAt (read_at_operate L x w)"
| "kq_operate L (KqWrite x) w = lift_attempt KqWrite (write_operate L x w)"
| "kq_operate L (KqWriteAt x) w = lift_attempt KqWriteAt (write_at_operate L x w)"
| "kq_operate L (KqSync x) w = lift_attempt KqSync (sync_operate L x w)"
| "kq_operate L (KqAccept x) w = lift_attempt KqAccept (accept_operate L x w)"
| "kq_operate L (KqConnect x) w = lift_attempt KqConnect (connect_operate L x w)"
| "kq_operate L (KqRecv x) w = lift_attempt KqRecv (recv_operate L x w)"
| "kq_operate L (KqRecvVectored x) w = lift_attempt KqRecvVectored (recv_vectored_operate L x w)"
| "kq_operate L (KqSend x) w = lift_attempt KqSend (send_operate L x w)"
| "kq_operate L (KqSendVectored x) w = lift_attempt KqSendVectored (send_vectored_operate L x w)"
| "kq_operate L (KqRecvFrom x) w = lift_attempt KqRecvFrom (recv_from_operate L x w)"
| "kq_operate L (KqRecvMsg x) w = lift_attempt KqRecvMsg (recv_msg_operate L x w)"
| "kq_operate L (KqSendTo x) w = lift_attempt KqSendTo (send_to_operate L x w)"
| "kq_operate L (KqSendMsg x) w = lift_attempt KqSendMsg (send_msg_operate L x w)"
| "kq_operate L (KqTimeout x) w = lift_attempt KqTimeout (timeout_operate x w)"
| "kq_operate L (KqClose x) w = lift_attempt KqClose (fd_operate L x w)"
| "kq_operate L (KqCloseOption x) w = lift_attempt KqCloseOption (option_operate L x w)"

text \<open>The operations that complete in one shot have no event: asking them for one panics.\<close>

fun kq_as_event :: "kq_op \<Rightarrow> nat \<Rightarrow> kq_event option" where
  "kq_as_event (KqRead x) u = Some (read_filter_event (read_fd x) u)"
| "kq_as_event (KqReadAt x) u = Some (read_filter_event (read_at_fd x) u)"
| "kq_as_event (KqWrite x) u = Some (write_filter_event (write_fd x) u)"
| "kq_as_event (KqWriteAt x) u = Some (write_filter_event (write_at_fd x) u)"
| "kq_as_event (KqSync x) u = None"
| "kq_as_event (KqAccept x) u = Some (read_filter_event (accept_fd x) u)"
| "kq_as_event (KqConnect x) u = Some (write_filter_event (connect_fd x) u)"
| "kq_as_event (KqRecv x) u = Some (read_filter_event (recv_fd x) u)"
| "kq_as_event (KqRecvVectored x) u = Some (read_filter_event (recvv_fd x) u)"
| "kq_as_event (KqSend x) u = Some (write_filter_event (send_fd x) u)"
| "kq_as_event (KqSendVectored x) u = Some (write_filter_event (sendv_fd x) u)"
| "kq_as_event (KqRecvFrom x) u = Some (read_filter_event (kq_rf_fd x) u)"
| "kq_as_event (KqRecvMsg x) u = Some (read_filter_event (recvm_fd x) u)"
| "kq_as_event (KqSendTo x) u = Some (write_filter_event (kq_st_fd x) u)"
| "kq_as_event (KqSendMsg x) u = Some (write_filter_event (sendm_fd x) u)"
| "kq_as_event (KqTimeout x) u = None"
| "kq_as_event (KqClose x) u = None"
| "kq_as_event (KqCloseOption x) u = None"

fun kq_timer_delay :: "kq_op \<Rightarrow> nat option" where
  "kq_timer_delay (KqTimeout x) = Some (kq_delay x)"
| "kq_timer_delay _ = None"

definition kq_vtable :: "'w kq_libc \<Rightarrow> (kq_op, 'w) kq_opcode" where
  "kq_vtable L = \<lparr>operate = kq_operate L, as_event = kq_as_event, timer_delay = kq_timer_delay\<rparr>"

subsection \<open>Reading and connecting\<close>

text \<open>
  A read that completes on kqueue delivers its bytes: if the system call returns the number
  of bytes it stored and they fit the region it was given, the operation completes with that
  number, and updating the buffer length yields the old contents followed by the bytes.
\<close>

theorem kq_read_delivers:
  assumes "wf_buf (read_buffer op)" "mut_buf (read_buffer op)" "as_slice (read_buffer op) = Some old"
    "as_uninit_slice (read_buffer op) = Some (p, n)"
    "libc_call L (CRead (kq_raw (read_fd op)) p n) w = (rp, w')"
    "rp_ret rp = int (length (rp_bytes rp))" "length (rp_bytes rp) \<le> n" "n < 2 ^ 63"
  shows "\<exists>op' b'. read_operate L op w = Some (Some (Ok (of_nat (length (rp_bytes rp)))), op', w') \<and>
    update_buffer_len set_buf_init (Ok (of_nat (length (rp_bytes rp))), read_buffer op') =
      Some (Ok (of_nat (length (rp_bytes rp))), b') \<and>
    as_slice b' = Some (old @ rp_bytes rp)"
proof -
  obtain q m c where g: "geometry (read_buffer op) q m c" using wf_buf_geometry [OF assms(1)] by blast
  then have "p = q + m" "n = c - m" "old = bytes_at (root (read_buffer op)) q m"
    using assms(3,4) geometry_uninit [OF g] geometry_as_slice [OF g] by simp_all
  then obtain b' where b': "set_buf_init (length (rp_bytes rp)) (store_bytes p (rp_bytes rp) (read_buffer op)) = Some b'"
      "as_slice b' = Some (old @ rp_bytes rp)"
    using store_then_init [OF assms(1,2) g] assms(7) by blast
  have "unat (of_nat (length (rp_bytes rp)) :: usize) = length (rp_bytes rp)"
    using assms(7,8) by (simp add: unat_of_nat)
  then show ?thesis
    using assms(4-6) b' by (simp add: read_operate_def maybe_block_def syscall_def update_buffer_len_def)
qed

definition sample_libc :: "nat kq_libc" where
  "sample_libc = \<lparr>libc_call = (\<lambda>c w. (\<lparr>rp_ret = 2, rp_errno = 0, rp_bytes = [33, 10], rp_addr = [], rp_addrlen = 0,
     rp_so_error = 0\<rparr>, w)), KQ_EAGAIN = 35, KQ_EWOULDBLOCK = 35, KQ_EINPROGRESS = 36\<rparr>"

theorem kq_read_delivers_witness:
  "\<exists>op' b'. read_operate sample_libc (read_new kq_fd_into (KqFd 5) sample_vec) 0 = Some (Some (Ok 2), op', 0) \<and>
    update_buffer_len set_buf_init (Ok 2, read_buffer op') = Some (Ok 2, b') \<and>
    as_slice b' = Some ([104, 105] @ [33, 10])"
  using kq_read_delivers [where op = "read_new kq_fd_into (KqFd 5) sample_vec" and L = sample_libc and w = 0
      and old = "[104, 105]" and p = 4098 and n = 3 and w' = 0
      and rp = "\<lparr>rp_ret = 2, rp_errno = 0, rp_bytes = [33, 10], rp_addr = [], rp_addrlen = 0, rp_so_error = 0\<rparr>"]
  by (simp add: read_new_def sample_libc_def sample_vec_def wf_raw_def mut_buf_def as_slice_def bytes_at_def
      as_uninit_slice_def raw_capacity_def)

text \<open>
  A connect takes two attempts at most and calls \<open>connect\<close> once: the first attempt
  initiates the connection, and an attempt on an initiated operation asks the socket for its
  error and completes, whatever the answer.
\<close>

theorem kq_connect_completes_on_second_attempt:
  assumes "connect_operate L op w = Some (None, op1, w1)"
  shows "\<not> connect_initiated op \<and> connect_initiated op1 \<and>
    (\<exists>res w2. connect_operate L op1 w1 = Some (Some res, op1, w2) \<and>
       w2 = snd (libc_call L (CGetsockopt (kq_raw (connect_fd op))) w1))"
  using assms by (auto simp: connect_operate_def Let_def split: if_splits prod.splits sum.splits)

definition blocking_libc :: "nat kq_libc" where
  "blocking_libc = sample_libc\<lparr>libc_call := \<lambda>c w. (\<lparr>rp_ret = -1, rp_errno = 36, rp_bytes = [], rp_addr = [],
     rp_addrlen = 0, rp_so_error = 0\<rparr>, w)\<rparr>"

theorem kq_connect_completes_on_second_attempt_witness:
  "\<exists>op1 res w2. connect_operate blocking_libc (connect_new kq_fd_into (KqFd 5) (zeroed_addr 16)) 0 = Some (None, op1, 0) \<and>
    connect_operate blocking_libc op1 0 = Some (Some res, op1, w2)"
proof -
  obtain op1 where op1: "connect_operate blocking_libc (connect_new kq_fd_into (KqFd 5) (zeroed_addr 16)) 0 = Some (None, op1, 0)"
    by (simp add: connect_operate_def connect_new_def blocking_libc_def sample_libc_def maybe_block_def syscall_def)
  then show ?thesis using kq_connect_completes_on_second_attempt [OF op1] by blast
qed

end
