(* ===== verification/Kqueue_Total.thy ===== *)
theory Kqueue_Total
  imports Kqueue_Spec Kqueue_Op
begin

text \<open>
  The kqueue driver does not panic. The locale \<open>kq_opcodes\<close> is the contract between the
  driver and the operations: an attempt on a usable operation succeeds or leaves it waiting,
  and a waiting operation has an event. It is interpreted on the method table of
  \<open>Kqueue_Op\<close>.
\<close>

subsection \<open>The contract of dyn OpCode\<close>

definition filter_ok :: "kq_filter \<Rightarrow> bool" where
  "filter_ok f \<longleftrightarrow> (case f of FRead fd \<Rightarrow> \<not> is_negative fd | FWrite fd \<Rightarrow> True | FOther \<Rightarrow> False)"

text \<open>\<open>kevent\<close> returns events that it was asked for, with error numbers in range.\<close>

definition kevent_spec :: "'w kq_sys \<Rightarrow> bool" where
  "kevent_spec K \<longleftrightarrow> (\<forall>changes n t w evs w'. kevent K changes n t w = (Ok evs, w') \<longrightarrow>
     (\<forall>ev \<in> set evs. ev_udata ev \<in> ev_udata ` set changes \<and> - (2 ^ 31) \<le> ev_data ev \<and> ev_data ev < 2 ^ 31))"

locale kq_opcodes =
  fixes V :: "('op, 'w) kq_opcode"
    and ok :: "'op \<Rightarrow> bool"
    and waits :: "'op \<Rightarrow> bool"
  assumes attempts: "ok op \<Longrightarrow> \<exists>r op' w'. operate V op w = Some (r, op', w') \<and> ok op' \<and>
      (r = None \<longrightarrow> waits op') \<and> (r = Some (Inr TIMER_PENDING) \<longrightarrow> timer_delay V op' \<noteq> None)"
    and waits_ok: "waits op \<Longrightarrow> ok op"
    and waits_stays: "waits op \<Longrightarrow> operate V op w = Some (r, op', w') \<Longrightarrow> waits op'"
    and has_event: "waits op \<Longrightarrow> \<exists>ev. as_event V op i = Some ev \<and> ev_udata ev = i \<and> filter_ok (ev_filter ev)"
begin

lemma operate_ops_total:
  "\<forall>x \<in> set xs. ok (obj_op x) \<Longrightarrow> \<forall>x \<in> set pend. waits (obj_op x) \<Longrightarrow>
   \<exists>es pend' tm' w'. operate_ops K V xs pend tm w = Some (es, pend', tm', w') \<and>
     (\<forall>x \<in> set pend'. waits (obj_op x))"
proof (induction xs arbitrary: pend tm w)
  case (Cons x xs)
  then have "ok (obj_op x)" by simp
  then obtain r op' w1 where op: "operate V (obj_op x) w = Some (r, op', w1)" "r = None \<longrightarrow> waits op'"
      "r = Some (Inr TIMER_PENDING) \<longrightarrow> timer_delay V op' \<noteq> None"
    using attempts by blast
  consider "r = None" | "r = Some (Inr TIMER_PENDING)" | res where "r = Some res" "res \<noteq> Inr TIMER_PENDING"
    by (cases r) auto
  then show ?case
  proof cases
    case 1
    then have "\<forall>y \<in> set (pend @ [x\<lparr>obj_op := op'\<rparr>]). waits (obj_op y)" using op(2) Cons.prems(2) by simp
    then show ?thesis using Cons.IH [of "pend @ [x\<lparr>obj_op := op'\<rparr>]" tm w1] Cons.prems(1) op(1) 1 by simp
  next
    case 2
    then obtain t where "timer_delay V op' = Some t" using op(3) by blast
    then show ?thesis
      using Cons.IH [of pend "wheel_insert (clock K w1) (obj_user_data x) t tm" w1] Cons.prems op(1) 2 by simp
  next
    case 3
    obtain es pend' tm' w' where "operate_ops K V xs pend tm w1 = Some (es, pend', tm', w')"
        "\<forall>x \<in> set pend'. waits (obj_op x)"
      using Cons.IH [of pend tm w1] Cons.prems by auto
    then show ?thesis using op(1) 3 by simp
  qed
qed simp

lemma scan_pending_total:
  "\<forall>x \<in> set xs. waits (obj_op x) \<Longrightarrow> \<exists>es R' W' t. scan_pending V cap i xs n R W t0 = Some (es, R', W', t)"
proof (induction xs arbitrary: i n R W t0)
  case (Cons x xs)
  then obtain ev where ev: "as_event V (obj_op x) i = Some ev" "filter_ok (ev_filter ev)"
    using has_event by (meson list.set_intros(1))
  have IH: "\<exists>es R' W' t. scan_pending V cap (Suc i) xs n' R1 W1 i = Some (es, R', W', t)" for n' R1 W1
    using Cons.IH [of "Suc i" n' R1 W1 i] Cons.prems by simp
  show ?case
  proof (cases "n < cap")
    case True
    show ?thesis
    proof (cases "ev_filter ev")
      case (FRead fd)
      then show ?thesis
        using True ev IH [of "n + 1" "insert (i32_as_usize fd) R" W] IH [of n "insert (i32_as_usize fd) R" W]
        by (auto simp: filter_ok_def)
    next
      case (FWrite fd)
      then show ?thesis
        using True ev IH [of "n + 1" R "insert (i32_as_usize fd) W"] IH [of n R "insert (i32_as_usize fd) W"] by auto
    qed (use ev in \<open>simp add: filter_ok_def\<close>)
  qed simp
qed simp

lemma scan_pending_udata:
  assumes "\<forall>x \<in> set xs. waits (obj_op x)" "scan_pending V cap 0 xs 0 {} {} 0 = Some (es, R', W', t)" "ev \<in> set es"
  shows "ev_udata ev < length xs"
proof -
  obtain j where "j < length xs" "as_event V (obj_op (xs ! j)) j = Some ev"
    using scan_pending_events [OF assms(2)] assms(3) unfolding oldest_def by auto
  then show ?thesis using has_event [of "obj_op (xs ! j)" j] assms(1) by force
qed

lemma operate_ready_total:
  "\<forall>x \<in> set pend. waits (obj_op x) \<Longrightarrow>
   \<forall>ev \<in> set evs. ev_udata ev < length pend \<and> - (2 ^ 31) \<le> ev_data ev \<and> ev_data ev < 2 ^ 31 \<Longrightarrow>
   \<exists>es pend' C' w'. operate_ready V evs pend C w = Some (es, pend', C', w') \<and> (\<forall>x \<in> set pend'. waits (obj_op x))"
proof (induction evs arbitrary: pend C w)
  case (Cons ev evs)
  let ?x = "pend ! ev_udata ev"
  have lt: "ev_udata ev < length pend" and "waits (obj_op ?x)" using Cons.prems by simp_all
  then obtain r op' w1 where op: "operate V (obj_op ?x) w = Some (r, op', w1)" "waits op'"
    using attempts waits_ok waits_stays by metis
  have "\<forall>x \<in> set (pend[ev_udata ev := ?x\<lparr>obj_op := op'\<rparr>]). waits (obj_op x)"
    using Cons.prems(1) op(2) set_update_subset_insert [of pend "ev_udata ev" "?x\<lparr>obj_op := op'\<rparr>"] by auto
  note IH = Cons.IH [OF this] Cons.IH [OF Cons.prems(1)]
  show ?case
  proof (cases "EvERROR \<in> ev_flags ev")
    case True
    then show ?thesis using IH(2) [of "insert (ev_udata ev) C" w] Cons.prems(2) lt by (fastforce simp: Let_def)
  next
    case False
    then show ?thesis
      using IH(1) [of C w1] IH(1) [of "insert (ev_udata ev) C" w1] Cons.prems(2) lt op(1)
      by (cases r) (fastforce simp: Let_def)+
  qed
qed simp

lemma kq_submit_total:
  assumes "kevent_spec K" "\<forall>x \<in> set (squeue d). ok (obj_op x)" "\<forall>x \<in> set (io_pending d). waits (obj_op x)"
  shows "\<exists>r d' w'. kq_submit K V timeout d w = Some (r, d', w') \<and> squeue d' = [] \<and>
    (\<forall>x \<in> set (io_pending d'). waits (obj_op x))"
proof -
  obtain es1 pend tm w1 where 1: "operate_ops K V (squeue d) (io_pending d) (timers d) w = Some (es1, pend, tm, w1)"
      "\<forall>x \<in> set pend. waits (obj_op x)"
    using operate_ops_total [OF assms(2,3)] by blast
  define d1 where "d1 = d\<lparr>squeue := [], io_pending := pend, timers := tm, squeue_drained_till := squeue_cap d\<rparr>"
  have sq: "operate_squeue K V d w = Some (es1, d1, w1)" by (simp add: operate_squeue_def 1(1) d1_def)
  obtain changes R W till where scan: "scan_pending V (events_cap d) 0 pend 0 {} {} 0 = Some (changes, R, W, till)"
    using scan_pending_total [OF 1(2)] by blast
  then have "check_readiness K V timeout d1 w1 \<noteq> None"
    by (simp add: check_readiness_def d1_def split: prod.splits)
  then obtain res es2 d2 w2 where cr: "check_readiness K V timeout d1 w1 = Some (res, es2, d2, w2)"
    by (metis not_None_eq prod_cases4)
  have d2: "io_pending d2 = pend" "squeue d2 = []"
    using check_readinessE [OF cr] by (auto simp: d1_def)
  have evs: "\<forall>ev \<in> set (ready_events d2). ev_udata ev < length pend \<and> - (2 ^ 31) \<le> ev_data ev \<and> ev_data ev < 2 ^ 31"
    if "res = Inr t" for t
  proof -
    have "\<exists>t w'. kevent K changes (events_cap d) t w1 = (Inr (ready_events d2), w')"
      using cr scan that
      by (auto simp: check_readiness_def d1_def Let_def split: prod.splits sum.splits intro!: exI)
    then show ?thesis
      using assms(1) scan_pending_udata [OF 1(2) scan] unfolding kevent_spec_def by fastforce
  qed
  show ?thesis
  proof (cases "squeue d \<noteq> [] \<and> io_pending d1 = []")
    case True
    then show ?thesis using sq by (simp add: kq_submit_def Let_def split_def d1_def)
  next
    case False
    show ?thesis
    proof (cases res)
      case (Inl e)
      then show ?thesis using sq cr False d2 1(2) by (auto simp: kq_submit_def Let_def)
    next
      case (Inr t)
      obtain es3 pend' C w3 where r: "operate_ready V (ready_events d2) (io_pending d2) {} w2 = Some (es3, pend', C, w3)"
          "\<forall>x \<in> set pend'. waits (obj_op x)"
        using operate_ready_total [of pend "ready_events d2" "{}" w2] evs [OF Inr] 1(2) d2(1) by auto
      have "t \<le> length pend'"
        using check_readiness_till(1) [OF cr [unfolded Inr]] operate_ready_frame [OF r(1)] same_user_data(1) by metis
      then have "requeue C 0 t pend' = Some (drop t pend' @ keep_idx (\<lambda>j. j \<notin> C) 0 (take t pend'))"
        by (rule requeue_eq)
      then obtain pend2 where q: "requeue C 0 t pend' = Some pend2" "set pend2 \<subseteq> set pend'"
        using set_keep_idx_subset [of "\<lambda>j. j \<notin> C" 0 "take t pend'"] set_drop_subset [of t pend']
          set_take_subset [of t pend'] by auto
      then show ?thesis
        using sq cr False Inr r d2 by (auto simp: kq_submit_def operate_completed_and_requeue_def Let_def)
    qed
  qed
qed

end

subsection \<open>The operations meet the contract\<close>

text \<open>
  What the system calls promise: a return value fits \<open>ssize_t\<close>, and a call does not store
  more bytes than the region it was given has.
\<close>

fun call_room :: "kq_call \<Rightarrow> nat option" where
  "call_room (CRead fd p n) = Some n"
| "call_room (CPread fd p n off) = Some n"
| "call_room (CRecv fd p n) = Some n"
| "call_room (CRecvfrom fd p n len) = Some n"
| "call_room _ = None"

definition libc_spec :: "'w kq_libc \<Rightarrow> bool" where
  "libc_spec L \<longleftrightarrow> (\<forall>c w. rp_ret (fst (libc_call L c w)) < 2 ^ 63 \<and>
     (\<forall>n. call_room c = Some n \<longrightarrow> length (rp_bytes (fst (libc_call L c w))) \<le> n))"

fun direct_buffer :: "kq_op \<Rightarrow> iobuf option" where
  "direct_buffer (KqRead x) = Some (read_buffer x)"
| "direct_buffer (KqReadAt x) = Some (read_at_buffer x)"
| "direct_buffer (KqWrite x) = Some (write_buffer x)"
| "direct_buffer (KqWriteAt x) = Some (write_at_buffer x)"
| "direct_buffer (KqRecv x) = Some (recv_buffer x)"
| "direct_buffer (KqSend x) = Some (send_buffer x)"
| "direct_buffer (KqRecvFrom x) = Some (kq_rf_buffer x)"
| "direct_buffer (KqSendTo x) = Some (kq_st_buffer x)"
| "direct_buffer _ = None"

definition kq_op_ok :: "kq_op \<Rightarrow> bool" where
  "kq_op_ok op \<longleftrightarrow> (\<forall>b. direct_buffer op = Some b \<longrightarrow> wf_buf b) \<and>
     (\<forall>ev. kq_as_event op 0 = Some ev \<longrightarrow> filter_ok (ev_filter ev))"

definition kq_op_waits :: "kq_op \<Rightarrow> bool" where
  "kq_op_waits op \<longleftrightarrow> kq_op_ok op \<and> kq_as_event op 0 \<noteq> None"

lemma ret_not_timer:
  assumes "x < 2 ^ 63" "0 \<le> x"
  shows "word_of_int x \<noteq> TIMER_PENDING"
proof
  assume "word_of_int x = TIMER_PENDING"
  then have "uint (word_of_int x :: usize) = uint TIMER_PENDING" by simp
  then show False using assms by (simp add: TIMER_PENDING_def uint_word_of_int)
qed

lemma syscall_not_timer:
  "rp_ret rp < 2 ^ 63 \<Longrightarrow> maybe_block L rp \<noteq> Some (Ok TIMER_PENDING)"
  "rp_ret rp < 2 ^ 63 \<Longrightarrow> (case syscall rp of Ok ok \<Rightarrow> Ok (word_of_int ok) | Err e \<Rightarrow> Err e) \<noteq> Ok TIMER_PENDING"
  by (auto simp: maybe_block_def syscall_def ret_not_timer)

lemma uninit_store:
  assumes "wf_buf b"
  shows "\<exists>p n. as_uninit_slice b = Some (p, n) \<and> (\<forall>ds. length ds \<le> n \<longrightarrow> wf_buf (store_bytes p ds b))"
proof -
  obtain q m c where g: "geometry b q m c" using wf_buf_geometry [OF assms] by blast
  then have "wf_buf (store_bytes (q + m) ds b)" if "length ds \<le> c - m" for ds
    using that by (intro wf_store_bytes [OF assms]) (auto simp: geometry_def)
  then show ?thesis using geometry_uninit [OF g] by blast
qed

lemma init_region_defined: "wf_buf b \<Longrightarrow> \<exists>p n. init_region b = Some (p, n)"
  using init_data_region by metis

lemma libc_reply:
  assumes "libc_spec L"
  obtains rp w' where "libc_call L c w = (rp, w')" "rp_ret rp < 2 ^ 63"
    "\<And>n. call_room c = Some n \<Longrightarrow> length (rp_bytes rp) \<le> n"
  using assms that [of "fst (libc_call L c w)" "snd (libc_call L c w)"] unfolding libc_spec_def by simp

definition attempt_ok :: "'w kq_libc \<Rightarrow> kq_op \<Rightarrow> 'w \<Rightarrow> bool" where
  "attempt_ok L op w \<longleftrightarrow> (\<exists>r op' w'. kq_operate L op w = Some (r, op', w') \<and>
     (\<forall>b. direct_buffer op' = Some b \<longrightarrow> wf_buf b) \<and> (\<forall>i. kq_as_event op' i = kq_as_event op i) \<and>
     (r = None \<longrightarrow> kq_as_event op 0 \<noteq> None) \<and>
     (r = Some (Ok TIMER_PENDING) \<longrightarrow> kq_timer_delay op' \<noteq> None))"

text \<open>The reading operations: what they store fits the region they asked for.\<close>

lemma attempt_reading:
  assumes "libc_spec L" "wf_buf b" "\<And>p n. call_room (c p n) = Some n"
  obtains p n rp w' where "as_uninit_slice b = Some (p, n)" "libc_call L (c p n) w = (rp, w')"
    "wf_buf (store_bytes p (rp_bytes rp) b)" "maybe_block L rp \<noteq> Some (Ok TIMER_PENDING)"
proof -
  obtain p n where u: "as_uninit_slice b = Some (p, n)" "\<forall>ds. length ds \<le> n \<longrightarrow> wf_buf (store_bytes p ds b)"
    using uninit_store [OF assms(2)] by blast
  obtain rp w' where "libc_call L (c p n) w = (rp, w')" "rp_ret rp < 2 ^ 63" "length (rp_bytes rp) \<le> n"
    using libc_reply [OF assms(1), of "c p n" w] assms(3) by metis
  then show ?thesis using that u syscall_not_timer(1) by blast
qed

lemma attempt_writing:
  assumes "libc_spec L" "wf_buf b"
  obtains p n rp w' where "init_region b = Some (p, n)" "libc_call L (c p n) w = (rp, w')"
    "maybe_block L rp \<noteq> Some (Ok TIMER_PENDING)"
proof -
  obtain p n where "init_region b = Some (p, n)" using init_region_defined [OF assms(2)] by blast
  then show ?thesis using that libc_reply [OF assms(1), of "c p n" w] syscall_not_timer(1) by metis
qed

lemma attempt_other:
  assumes "libc_spec L"
  obtains rp w' where "libc_call L c w = (rp, w')" "maybe_block L rp \<noteq> Some (Ok TIMER_PENDING)"
    "(case syscall rp of Ok ok \<Rightarrow> Ok (word_of_int ok) | Err e \<Rightarrow> Err e) \<noteq> Ok TIMER_PENDING"
  using that libc_reply [OF assms, of c w] syscall_not_timer by metis

lemmas direct_operate_defs = lift_attempt_def read_operate_def read_at_operate_def recv_operate_def
  recv_from_operate_def write_operate_def write_at_operate_def send_operate_def send_to_operate_def

lemmas event_defs = read_filter_event_def write_filter_event_def

lemma attempt_KqRead: "libc_spec L \<Longrightarrow> kq_op_ok (KqRead x) \<Longrightarrow> attempt_ok L (KqRead x) w"
  by (rule attempt_reading [of L "read_buffer x" "CRead (kq_raw (read_fd x))" w])
    (auto simp: kq_op_ok_def attempt_ok_def direct_operate_defs event_defs)

lemma attempt_KqReadAt: "libc_spec L \<Longrightarrow> kq_op_ok (KqReadAt x) \<Longrightarrow> attempt_ok L (KqReadAt x) w"
  by (rule attempt_reading [of L "read_at_buffer x" "(\<lambda>p n. CPread (kq_raw (read_at_fd x)) p n (read_at_offset x))" w])
    (auto simp: kq_op_ok_def attempt_ok_def direct_operate_defs event_defs)

lemma attempt_KqRecv: "libc_spec L \<Longrightarrow> kq_op_ok (KqRecv x) \<Longrightarrow> attempt_ok L (KqRecv x) w"
  by (rule attempt_reading [of L "recv_buffer x" "CRecv (kq_raw (recv_fd x))" w])
    (auto simp: kq_op_ok_def attempt_ok_def direct_operate_defs event_defs)

lemma attempt_KqRecvFrom: "libc_spec L \<Longrightarrow> kq_op_ok (KqRecvFrom x) \<Longrightarrow> attempt_ok L (KqRecvFrom x) w"
  by (rule attempt_reading [of L "kq_rf_buffer x" "(\<lambda>p n. CRecvfrom (kq_raw (kq_rf_fd x)) p n (kq_rf_socklen x))" w])
    (auto simp: kq_op_ok_def attempt_ok_def direct_operate_defs event_defs)

lemma attempt_KqWrite: "libc_spec L \<Longrightarrow> kq_op_ok (KqWrite x) \<Longrightarrow> attempt_ok L (KqWrite x) w"
  by (rule attempt_writing [of L "write_buffer x" "CWrite (kq_raw (write_fd x))" w])
    (auto simp: kq_op_ok_def attempt_ok_def direct_operate_defs event_defs)

lemma attempt_KqWriteAt: "libc_spec L \<Longrightarrow> kq_op_ok (KqWriteAt x) \<Longrightarrow> attempt_ok L (KqWriteAt x) w"
  by (rule attempt_writing [of L "write_at_buffer x" "(\<lambda>p n. CPwrite (kq_raw (write_at_fd x)) p n (write_at_offset x))" w])
    (auto simp: kq_op_ok_def attempt_ok_def direct_operate_defs event_defs)

lemma attempt_KqSend: "libc_spec L \<Longrightarrow> kq_op_ok (KqSend x) \<Longrightarrow> attempt_ok L (KqSend x) w"
  by (rule attempt_writing [of L "send_buffer x" "CSend (kq_raw (send_fd x))" w])
    (auto simp: kq_op_ok_def attempt_ok_def direct_operate_defs event_defs)

lemma attempt_KqSendTo: "libc_spec L \<Longrightarrow> kq_op_ok (KqSendTo x) \<Longrightarrow> attempt_ok L (KqSendTo x) w"
  by (rule attempt_writing [of L "kq_st_buffer x" "(\<lambda>p n. CSendto (kq_raw (kq_st_fd x)) p n (kq_st_addr x))" w])
    (auto simp: kq_op_ok_def attempt_ok_def direct_operate_defs event_defs)

lemma attempt_KqSync: "libc_spec L \<Longrightarrow> attempt_ok L (KqSync x) w"
  by (rule attempt_other [of L "CFsync (kq_raw (sync_fd x))" w])
    (auto simp: attempt_ok_def lift_attempt_def Let_def event_defs sync_operate_def)

lemma attempt_KqAccept: "libc_spec L \<Longrightarrow> attempt_ok L (KqAccept x) w"
  by (rule attempt_other [of L "CAccept (kq_raw (accept_fd x)) (accept_addr_len x)" w])
    (auto simp: attempt_ok_def lift_attempt_def Let_def event_defs accept_operate_def)

lemma attempt_KqRecvVectored: "libc_spec L \<Longrightarrow> attempt_ok L (KqRecvVectored x) w"
  by (rule attempt_other [of L "CReadv (kq_raw (recvv_fd x)) (as_io_slices_mut (recvv_buffer x))" w])
    (auto simp: attempt_ok_def lift_attempt_def Let_def event_defs recv_vectored_operate_def)

lemma attempt_KqSendVectored: "libc_spec L \<Longrightarrow> attempt_ok L (KqSendVectored x) w"
  by (rule attempt_other [of L "CWritev (kq_raw (sendv_fd x)) (as_io_slices (sendv_buffer x))" w])
    (auto simp: attempt_ok_def lift_attempt_def Let_def event_defs send_vectored_operate_def)

lemma attempt_KqRecvMsg: "libc_spec L \<Longrightarrow> attempt_ok L (KqRecvMsg x) w"
  by (rule attempt_other [of L "CRecvmsg (kq_raw (recvm_fd x)) (if msg_namelen (recvm_msg x) = 0 then fst (recv_msg_set_msg x) else recvm_msg x)" w])
    (auto simp: attempt_ok_def lift_attempt_def Let_def event_defs recv_msg_operate_def recv_msg_set_msg_def)

lemma attempt_KqSendMsg: "libc_spec L \<Longrightarrow> attempt_ok L (KqSendMsg x) w"
  by (rule attempt_other [of L "CSendmsg (kq_raw (sendm_fd x)) (if msg_namelen (sendm_msg x) = 0 then fst (send_msg_set_msg x) else sendm_msg x)" w])
    (auto simp: attempt_ok_def lift_attempt_def Let_def event_defs send_msg_operate_def send_msg_set_msg_def)

lemma attempt_KqClose: "libc_spec L \<Longrightarrow> attempt_ok L (KqClose x) w"
  by (rule attempt_other [of L "CClose (kq_raw x)" w])
    (auto simp: attempt_ok_def lift_attempt_def Let_def event_defs fd_operate_def close_raw_fd_def)

lemma attempt_KqConnect: "libc_spec L \<Longrightarrow> attempt_ok L (KqConnect x) w"
proof (cases "connect_initiated x")
  case True
  moreover obtain rp w' where "libc_call L (CGetsockopt (kq_raw (connect_fd x))) w = (rp, w')"
    by (cases "libc_call L (CGetsockopt (kq_raw (connect_fd x))) w")
  ultimately show ?thesis
    by (cases "syscall rp") (auto simp: attempt_ok_def lift_attempt_def connect_operate_def TIMER_PENDING_def)
next
  case False
  moreover assume "libc_spec L"
  ultimately show ?thesis
    by (rule_tac attempt_other [of L "CConnect (kq_raw (connect_fd x)) (connect_addr x)" w])
      (auto simp: attempt_ok_def lift_attempt_def connect_operate_def event_defs)
qed

lemma attempt_KqTimeout: "attempt_ok L (KqTimeout x) w"
  by (simp add: attempt_ok_def lift_attempt_def timeout_operate_def)

lemma attempt_KqCloseOption: "libc_spec L \<Longrightarrow> attempt_ok L (KqCloseOption x) w"
proof (cases x)
  case None
  then show ?thesis by (simp add: attempt_ok_def lift_attempt_def option_operate_def)
next
  case (Some fd)
  assume "libc_spec L"
  then show ?thesis
    by (rule attempt_other [of L "CClose fd" w])
      (auto simp: attempt_ok_def lift_attempt_def option_operate_def close_raw_fd_def Some)
qed

lemmas attempt_lemmas = attempt_KqRead attempt_KqReadAt attempt_KqRecv attempt_KqRecvFrom attempt_KqWrite
  attempt_KqWriteAt attempt_KqSend attempt_KqSendTo attempt_KqSync attempt_KqAccept attempt_KqRecvVectored
  attempt_KqSendVectored attempt_KqRecvMsg attempt_KqSendMsg attempt_KqClose attempt_KqConnect
  attempt_KqTimeout attempt_KqCloseOption

lemma kq_attempt_ok: "libc_spec L \<Longrightarrow> kq_op_ok op \<Longrightarrow> attempt_ok L op w"
  by (cases op) (simp_all add: attempt_lemmas)

lemma as_event_udata:
  "kq_as_event op 0 = Some ev \<Longrightarrow> \<exists>ev'. kq_as_event op i = Some ev' \<and> ev_udata ev' = i \<and> ev_filter ev' = ev_filter ev"
  by (cases op) (auto simp: event_defs)

interpretation kqo: kq_opcodes "kq_vtable L" "\<lambda>op. libc_spec L \<and> kq_op_ok op" "\<lambda>op. libc_spec L \<and> kq_op_waits op"
  for L :: "'w kq_libc"
proof unfold_locales
  fix op :: kq_op and w :: 'w and r :: "usize io_result option" and op' w' i
  show "libc_spec L \<and> kq_op_ok op \<Longrightarrow> \<exists>r op' w'. operate (kq_vtable L) op w = Some (r, op', w') \<and>
      (libc_spec L \<and> kq_op_ok op') \<and> (r = None \<longrightarrow> libc_spec L \<and> kq_op_waits op') \<and>
      (r = Some (Ok TIMER_PENDING) \<longrightarrow> timer_delay (kq_vtable L) op' \<noteq> None)"
    using kq_attempt_ok [of L op w]
    unfolding attempt_ok_def kq_vtable_def kq_op_waits_def kq_op_ok_def by fastforce
  show "libc_spec L \<and> kq_op_waits op \<Longrightarrow> libc_spec L \<and> kq_op_ok op" by (simp add: kq_op_waits_def)
  show "libc_spec L \<and> kq_op_waits op \<Longrightarrow> operate (kq_vtable L) op w = Some (r, op', w') \<Longrightarrow>
      libc_spec L \<and> kq_op_waits op'"
    using kq_attempt_ok [of L op w]
    unfolding attempt_ok_def kq_vtable_def kq_op_waits_def kq_op_ok_def by fastforce
  show "libc_spec L \<and> kq_op_waits op \<Longrightarrow>
      \<exists>ev. as_event (kq_vtable L) op i = Some ev \<and> ev_udata ev = i \<and> filter_ok (ev_filter ev)"
    using as_event_udata [of op] unfolding kq_vtable_def kq_op_waits_def kq_op_ok_def by fastforce
qed

subsection \<open>Properties\<close>


definition quiet_sys :: "nat kq_sys" where
  "quiet_sys = \<lparr>kqueue = (\<lambda>w. (Ok (), w)), kevent = (\<lambda>changes n t w. (Ok [], w)), clock = (\<lambda>w. w)\<rparr>"

definition kq_start :: "kq_op op_object list \<Rightarrow> kq_op kq_driver" where
  "kq_start q = \<lparr>squeue = q, squeue_cap = 4, squeue_drained_till = 4, io_pending = [], events_cap = 4,
     events_to_change = [], ready_events = [], completed_events_indices = {}, to_change_fd_reads = {},
     to_change_fd_writes = {}, timers = []\<rparr>"


end
