(* ===== verification/Iocp_Driver.thy ===== *)
theory Iocp_Driver
  imports Driver_Base Timer_Wheel Buf
begin

text \<open>
  The IOCP driver, \<open>src/driver/iocp/mod.rs\<close>: operations are started when they are submitted,
  completion packets are taken from the completion port and decoded.

  Windows is a parameter: a world \<open>'w\<close> with a clock and the calls the driver makes, and the
  constants of \<open>windows_sys\<close>. A completion packet carries the contents of the \<open>Overlapped\<close>
  structure its pointer leads to. Handles are 64-bit words. The feature \<open>time\<close> is on.
\<close>

subsection \<open>Windows\<close>

datatype win_fd = WinFd (win_raw: usize)

record win_consts =
  W_INVALID_HANDLE_VALUE :: usize
  W_INFINITE :: u32
  W_STATUS_SUCCESS :: i32
  W_STATUS_PENDING :: i32
  W_ERROR_IO_INCOMPLETE :: u32
  W_ERROR_IO_PENDING :: u32
  W_ERROR_HANDLE_EOF :: u32
  W_ERROR_NO_DATA :: u32
  W_ERROR_PIPE_CONNECTED :: u32
  W_FACILITY_NTWIN32 :: u32
  W_ERROR_SEVERITY_ERROR :: u32
  W_FILE_SKIP_COMPLETION_PORT_ON_SUCCESS :: u32
  W_FILE_SKIP_SET_EVENT_ON_HANDLE :: u32
  W_WSAENOTSOCK :: i32

record overlapped =
  ov_internal :: usize
  ov_offset :: u32
  ov_offset_high :: u32
  ov_user_data :: usize

definition overlapped_new :: "usize \<Rightarrow> overlapped" where
  "overlapped_new user_data =
     \<lparr>ov_internal = 0, ov_offset = 0, ov_offset_high = 0, ov_user_data = user_data\<rparr>"

record overlapped_entry =
  oe_transferred :: u32
  oe_overlapped :: overlapped

text \<open>
  \<open>port_dequeue\<close> is \<open>GetQueuedCompletionStatusEx\<close> with the size of the array and the timeout
  in milliseconds; \<open>timed_out\<close> tells which error numbers have the kind \<open>TimedOut\<close>.
\<close>

record 'w iocp_sys =
  port_create :: "'w \<Rightarrow> unit io_result \<times> 'w"
  port_attach :: "usize \<Rightarrow> 'w \<Rightarrow> unit io_result \<times> 'w"
  port_set_modes :: "usize \<Rightarrow> u8 \<Rightarrow> 'w \<Rightarrow> unit io_result \<times> 'w"
  port_dequeue :: "u32 \<Rightarrow> u32 \<Rightarrow> 'w \<Rightarrow> (unit io_result \<times> overlapped_entry list) \<times> 'w"
  port_post :: "u32 \<Rightarrow> overlapped \<Rightarrow> 'w \<Rightarrow> unit io_result \<times> 'w"
  nt_status_to_dos_error :: "i32 \<Rightarrow> u32"
  timed_out :: "i32 \<Rightarrow> bool"
  win_clock :: "'w \<Rightarrow> nat"

definition win_INVALID_FD :: "win_consts \<Rightarrow> win_fd" where
  "win_INVALID_FD N = WinFd (W_INVALID_HANDLE_VALUE N)"

datatype 'a poll = Pending | Ready 'a

record ('op, 'w) iocp_opcode =
  win_operate :: "'op \<Rightarrow> usize \<Rightarrow> 'w \<Rightarrow> (usize io_result poll \<times> 'op \<times> 'w) option"
  win_timer_delay :: "'op \<Rightarrow> nat option"

definition win_TIMER_PENDING :: usize where
  "win_TIMER_PENDING = -1 - 2"

subsection \<open>The driver\<close>

record 'op iocp_driver =
  iocp_squeue :: "'op op_object list"
  iocp_squeue_cap :: nat
  iocp_squeue_drained_till :: nat
  iocp_entries :: "overlapped_entry list"
  iocp_timers :: timer_wheel

definition DEFAULT_CAPACITY :: usize where
  "DEFAULT_CAPACITY = 1024"

definition iocp_with :: "'w iocp_sys \<Rightarrow> u32 \<Rightarrow> u32 \<Rightarrow> 'w \<Rightarrow> 'op iocp_driver io_result \<times> 'w" where
  "iocp_with S entries files_to_register w =
     (case port_create S w of
        (Err e, w') \<Rightarrow> (Err e, w')
      | (Ok _, w') \<Rightarrow>
          (Ok \<lparr>iocp_squeue = [], iocp_squeue_cap = unat entries, iocp_squeue_drained_till = unat entries,
               iocp_entries = [], iocp_timers = wheel_with_capacity 16\<rparr>, w'))"

definition iocp_new :: "'w iocp_sys \<Rightarrow> 'w \<Rightarrow> 'op iocp_driver io_result \<times> 'w" where
  "iocp_new S w = iocp_with S (ucast DEFAULT_CAPACITY) 0 w"

definition poll_timeout :: "win_consts \<Rightarrow> nat option \<Rightarrow> u32" where
  "poll_timeout N timeout =
     (case timeout of Some t \<Rightarrow> of_nat (t div 1000000) | None \<Rightarrow> W_INFINITE N)"

definition poll_impl ::
  "'w iocp_sys \<Rightarrow> win_consts \<Rightarrow> nat option \<Rightarrow> 'op iocp_driver \<Rightarrow> 'w \<Rightarrow>
   unit io_result \<times> 'op iocp_driver \<times> 'w" where
  "poll_impl S N timeout d w =
     (let ((res, received), w') = port_dequeue S (of_nat (length (iocp_entries d))) (poll_timeout N timeout) w;
          d' = d\<lparr>iocp_entries := received\<rparr>
      in case res of
           Ok _ \<Rightarrow> (Ok (), d', w')
         | Err e \<Rightarrow>
             (case raw_os_error e of
                Some c \<Rightarrow> if timed_out S c then (Ok (), d', w') else (Err e, d', w')
              | None \<Rightarrow> (Err e, d', w')))"

definition iocp_create_entry :: "'w iocp_sys \<Rightarrow> win_consts \<Rightarrow> overlapped_entry \<Rightarrow> entry" where
  "iocp_create_entry S N iocp_entry =
     (let transferred = oe_transferred iocp_entry;
          overlapped = oe_overlapped iocp_entry;
          status = (ucast (ov_internal overlapped) :: i32);
          res = (if status = W_STATUS_SUCCESS N \<or> status = W_STATUS_PENDING N then Ok (ucast transferred)
                 else
                   let error = nt_status_to_dos_error S status
                   in if error = W_ERROR_IO_INCOMPLETE N \<or> error = W_ERROR_HANDLE_EOF N \<or> error = W_ERROR_NO_DATA N
                      then Ok 0 else Err (Os error))
      in entry_new (ov_user_data overlapped) res)"

definition ntstatus_from_win32 :: "win_consts \<Rightarrow> i32 \<Rightarrow> i32" where
  "ntstatus_from_win32 N x =
     (if sint x \<le> 0 then x
      else or (or (and x 0x0000FFFF) (push_bit 16 (W_FACILITY_NTWIN32 N))) (W_ERROR_SEVERITY_ERROR N))"

text \<open>\<open>unwrap_or_default\<close> is 0 where there is no value.\<close>

definition post_driver_raw ::
  "'w iocp_sys \<Rightarrow> win_consts \<Rightarrow> usize io_result \<Rightarrow> overlapped \<Rightarrow> 'w \<Rightarrow> unit io_result \<times> overlapped \<times> 'w" where
  "post_driver_raw S N result ov w =
     (let ov' = (case result of
                   Err e \<Rightarrow> ov\<lparr>ov_internal := scast (ntstatus_from_win32 N
                               (case raw_os_error e of Some c \<Rightarrow> c | None \<Rightarrow> 0))\<rparr>
                 | Ok _ \<Rightarrow> ov);
          transferred = (case result of Ok n \<Rightarrow> ucast n | Err _ \<Rightarrow> 0);
          (res, w') = port_post S transferred ov' w
      in case res of Err e \<Rightarrow> (Err e, ov', w') | Ok _ \<Rightarrow> (Ok (), ov', w'))"

text \<open>The conversion of the notification flags to \<open>u8\<close> panics when they do not fit.\<close>

definition iocp_attach ::
  "'w iocp_sys \<Rightarrow> win_consts \<Rightarrow> usize \<Rightarrow> 'op iocp_driver \<Rightarrow> 'w \<Rightarrow>
   (win_fd io_result \<times> 'op iocp_driver \<times> 'w) option" where
  "iocp_attach S N fd d w =
     (case port_attach S fd w of
        (Err e, w') \<Rightarrow> Some (Err e, d, w')
      | (Ok _, w1) \<Rightarrow>
          (let fl = or (W_FILE_SKIP_COMPLETION_PORT_ON_SUCCESS N) (W_FILE_SKIP_SET_EVENT_ON_HANDLE N)
           in if unat fl < 256 then
                (case port_set_modes S fd (ucast fl) w1 of
                   (Err e, w') \<Rightarrow> Some (Err e, d, w')
                 | (Ok _, w') \<Rightarrow> Some (Ok (WinFd fd), d, w'))
              else None))"

definition iocp_register_fd ::
  "'w iocp_sys \<Rightarrow> win_consts \<Rightarrow> usize \<Rightarrow> u32 \<Rightarrow> 'op iocp_driver \<Rightarrow> 'w \<Rightarrow>
   (win_fd io_result \<times> 'op iocp_driver \<times> 'w) option" where
  "iocp_register_fd S N fd ix d w = iocp_attach S N fd d w"

definition iocp_unregister_fd :: "win_fd \<Rightarrow> 'op iocp_driver \<Rightarrow> unit io_result \<times> 'op iocp_driver" where
  "iocp_unregister_fd fixed_fd d = (Ok (), d)"

definition iocp_try_cancel :: "usize \<Rightarrow> 'op iocp_driver \<Rightarrow> (unit + unit) \<times> 'op iocp_driver" where
  "iocp_try_cancel user_data d =
     (Ok (), d\<lparr>iocp_squeue := remove_first (\<lambda>x. obj_user_data x = user_data) (iocp_squeue d)\<rparr>)"

definition iocp_capacity_left :: "'op iocp_driver \<Rightarrow> nat" where
  "iocp_capacity_left d = iocp_squeue_drained_till d - length (iocp_squeue d)"

definition iocp_try_push ::
  "('o \<Rightarrow> 'op) \<Rightarrow> 'o operation \<Rightarrow> 'op iocp_driver \<Rightarrow> ('o operation + unit) \<times> 'op iocp_driver" where
  "iocp_try_push dyn op d =
     (if iocp_capacity_left d > 0
      then (Ok (), d\<lparr>iocp_squeue := iocp_squeue d @ [op_object_from_operation dyn op]\<rparr>)
      else (Err op, d))"

definition iocp_try_push_dyn ::
  "'op op_object \<Rightarrow> 'op iocp_driver \<Rightarrow> ('op op_object + unit) \<times> 'op iocp_driver" where
  "iocp_try_push_dyn op d =
     (if iocp_capacity_left d > 0 then (Ok (), d\<lparr>iocp_squeue := iocp_squeue d @ [op]\<rparr>) else (Err op, d))"

definition iocp_push_queue ::
  "'op op_object list \<Rightarrow> 'op iocp_driver \<Rightarrow> 'op op_object list \<times> 'op iocp_driver" where
  "iocp_push_queue ops_queue d =
     (let till = min (iocp_capacity_left d) (length ops_queue)
      in (drop till ops_queue, d\<lparr>iocp_squeue := iocp_squeue d @ take till ops_queue\<rparr>))"

text \<open>
  The iterator of \<open>submit\<close> over the drained submission queue. An operation that is pending is
  the system's from here on; the model returns it in a list of its own.
\<close>

fun iocp_operate_ops ::
  "'w iocp_sys \<Rightarrow> ('op, 'w) iocp_opcode \<Rightarrow> 'op op_object list \<Rightarrow> timer_wheel \<Rightarrow> 'w \<Rightarrow>
   (entry list \<times> 'op op_object list \<times> timer_wheel \<times> 'w) option" where
  "iocp_operate_ops S V [] tm w = Some ([], [], tm, w)"
| "iocp_operate_ops S V (x # xs) tm w =
     do { (r, op', w1) \<leftarrow> win_operate V (obj_op x) (obj_user_data x) w;
          case r of
            Ready res \<Rightarrow>
              if res = Ok win_TIMER_PENDING then
                do { delay \<leftarrow> win_timer_delay V op';
                     iocp_operate_ops S V xs (wheel_insert (win_clock S w1) (obj_user_data x) delay tm) w1 }
              else
                do { (es, started, tm', w2) \<leftarrow> iocp_operate_ops S V xs tm w1;
                     Some (entry_new (obj_user_data x) res # es, started, tm', w2) }
          | Pending \<Rightarrow>
              do { (es, started, tm', w2) \<leftarrow> iocp_operate_ops S V xs tm w1;
                   Some (es, x\<lparr>obj_op := op'\<rparr> # started, tm', w2) } }"

definition iocp_submit ::
  "'w iocp_sys \<Rightarrow> win_consts \<Rightarrow> ('op, 'w) iocp_opcode \<Rightarrow> nat option \<Rightarrow> 'op iocp_driver \<Rightarrow> 'w \<Rightarrow>
   ((unit io_result \<times> entry list) \<times> 'op op_object list \<times> 'op iocp_driver \<times> 'w) option" where
  "iocp_submit S N V timeout d w =
     do { (es1, started, tm, w1) \<leftarrow> iocp_operate_ops S V (iocp_squeue d) (iocp_timers d) w;
          let d1 = d\<lparr>iocp_squeue := [], iocp_timers := tm, iocp_squeue_drained_till := iocp_squeue_cap d\<rparr>;
              timeout = till_next_timer_or_timeout (win_clock S w1) timeout (iocp_timers d1);
              (res, d2, w2) = poll_impl S N timeout d1 w1;
              (es2, tm2) = expire_timers (win_clock S w2) (iocp_timers d2);
              es3 = map (iocp_create_entry S N) (iocp_entries d2);
              d3 = d2\<lparr>iocp_timers := tm2, iocp_entries := []\<rparr>
          in Some ((res, es1 @ es2 @ es3), started, d3, w2) }"

end
