(* ===== verification/Iocp_Spec.thy ===== *)
theory Iocp_Spec
  imports Iocp_Driver
begin

text \<open>
  What the IOCP driver guarantees: the submission queue contract, the accounting of one
  \<open>submit\<close>, and the encoding of results in completion packets.
\<close>

subsection \<open>The submission queue contract\<close>

definition iocp_queued :: "'op iocp_driver \<Rightarrow> usize list" where
  "iocp_queued d = map obj_user_data (iocp_squeue d)"

interpretation iocp: submission_queue "\<lambda>d. True" "\<lambda>x. True" iocp_queued iocp_capacity_left
  "\<lambda>x d. Some (iocp_try_push_dyn x d)" "\<lambda>xs d. Some (iocp_push_queue xs d)"
  by unfold_locales
    (auto simp: iocp_try_push_dyn_def iocp_push_queue_def iocp_queued_def iocp_capacity_left_def Let_def)

text \<open>
  Batch pushes on IOCP conserve the operations and agree with pushing one at a time.
\<close>

theorem iocp_push_queue_conserves:
  "\<exists>rest d' rest2 d2. iocp_push_queue ops d = (rest, d') \<and>
    map obj_user_data (iocp_squeue d') @ map obj_user_data rest =
      map obj_user_data (iocp_squeue d) @ map obj_user_data ops \<and>
    (rest = [] \<or> iocp_capacity_left d' = 0) \<and>
    push_each (\<lambda>x d. Some (iocp_try_push_dyn x d)) ops d = Some (rest2, d2) \<and>
    map obj_user_data (iocp_squeue d2) = map obj_user_data (iocp_squeue d') \<and>
    map obj_user_data rest2 = map obj_user_data rest"
proof -
  obtain rest d' where 1: "Some (iocp_push_queue ops d) = Some (rest, d')"
    "iocp_queued d' @ map obj_user_data rest = iocp_queued d @ map obj_user_data ops"
    "rest = [] \<or> iocp_capacity_left d' = 0"
    using iocp.push_queue_conserves [where s = d and xs = ops] by blast
  obtain rest2 d2 where 2: "push_each (\<lambda>x d. Some (iocp_try_push_dyn x d)) ops d = Some (rest2, d2)"
    using iocp.push_each_queued [where s = d and xs = ops] by blast
  show ?thesis
    using 1 2 iocp.push_queue_eq_push_each [OF _ _ 1(1) 2] unfolding iocp_queued_def by auto
qed

subsection \<open>Submitting\<close>

lemma iocp_operate_ops_conserves:
  "iocp_operate_ops S V xs tm w = Some (es, started, tm', w') \<Longrightarrow>
   op_uds xs + timer_uds tm = entry_uds es + op_uds started + timer_uds tm' \<and> (wheel_ok tm \<longrightarrow> wheel_ok tm')"
proof (induction xs arbitrary: tm w es started)
  case (Cons x xs)
  then obtain r op' w1 where op: "win_operate V (obj_op x) (obj_user_data x) w = Some (r, op', w1)"
    by (auto split: bind_splits)
  consider "r = Pending" | "r = Ready (Ok win_TIMER_PENDING)" | res where "r = Ready res" "res \<noteq> Ok win_TIMER_PENDING"
    by (cases r) auto
  then show ?case
  proof cases
    case 1
    then obtain st where st: "started = x\<lparr>obj_op := op'\<rparr> # st" "iocp_operate_ops S V xs tm w1 = Some (es, st, tm', w')"
      using Cons.prems op by (auto split: bind_splits)
    from Cons.IH [OF st(2)] st(1) show ?thesis by simp
  next
    case 2
    then obtain t where "iocp_operate_ops S V xs (wheel_insert (win_clock S w1) (obj_user_data x) t tm) w1 =
        Some (es, started, tm', w')"
      using Cons.prems op by (auto split: bind_splits)
    from Cons.IH [OF this] show ?thesis by (auto simp: wheel_ok_insert)
  next
    case 3
    then obtain es1 where "es = entry_new (obj_user_data x) res # es1"
        "iocp_operate_ops S V xs tm w1 = Some (es1, started, tm', w')"
      using Cons.prems op by (auto split: bind_splits)
    with Cons.IH [OF this(2)] show ?thesis by auto
  qed
qed simp

lemma iocp_submitE:
  assumes "iocp_submit S N V timeout d w = Some ((res, es), started, d', w')"
  obtains es1 tm w1 r packets es2 where
    "iocp_operate_ops S V (iocp_squeue d) (iocp_timers d) w = Some (es1, started, tm, w1)"
    "port_dequeue S (of_nat (length (iocp_entries d)))
       (poll_timeout N (till_next_timer_or_timeout (win_clock S w1) timeout tm)) w1 = ((r, packets), w')"
    "expire_timers (win_clock S w') tm = (es2, iocp_timers d')"
    "es = es1 @ es2 @ map (iocp_create_entry S N) packets"
    "iocp_squeue d' = []" "iocp_entries d' = []"
  using assms
  by (auto simp: iocp_submit_def poll_impl_def Let_def split: bind_splits prod.splits sum.splits option.splits if_splits)

text \<open>
  C12. The accounting of \<open>submit\<close> on IOCP: every queued operation and every timer is, after the
  call, reported, started and now the system's, or still a timer; the rest of the report is one
  entry per completion packet taken from the port, and the queues of the driver are empty.
\<close>

theorem iocp_submit_accounts:
  assumes "wheel_ok (iocp_timers d)" "iocp_submit S N V timeout d w = Some ((res, es), started, d', w')"
  shows "\<exists>es1 packets. es = es1 @ map (iocp_create_entry S N) packets \<and>
    mset (map obj_user_data (iocp_squeue d)) + mset (map timer_key (iocp_timers d)) =
      mset (map entry_user_data es1) + mset (map obj_user_data started) + mset (map timer_key (iocp_timers d')) \<and>
    wheel_ok (iocp_timers d') \<and> iocp_squeue d' = [] \<and> iocp_entries d' = []"
proof -
  obtain es1 tm w1 packets es2 where s:
    "iocp_operate_ops S V (iocp_squeue d) (iocp_timers d) w = Some (es1, started, tm, w1)"
    "expire_timers (win_clock S w') tm = (es2, iocp_timers d')"
    "es = es1 @ es2 @ map (iocp_create_entry S N) packets"
    "iocp_squeue d' = []" "iocp_entries d' = []"
    using iocp_submitE [OF assms(2)] by metis
  have "wheel_ok tm" using iocp_operate_ops_conserves [OF s(1)] assms(1) by blast
  then have "timer_uds tm = entry_uds es2 + timer_uds (iocp_timers d')" "wheel_ok (iocp_timers d')"
    using expire_timers_conserves s(2) by blast+
  then show ?thesis
    using iocp_operate_ops_conserves [OF s(1)] s(3-5)
    by (intro exI [of _ "es1 @ es2"] exI [of _ packets])
      (simp add: op_uds_def entry_uds_def timer_uds_def add_ac)
qed

text \<open>A system for the witnesses: a port that holds packets, and operations with a fixed result.\<close>

definition windows_consts :: win_consts where
  "windows_consts = \<lparr>W_INVALID_HANDLE_VALUE = -1, W_INFINITE = 0xFFFFFFFF, W_STATUS_SUCCESS = 0,
     W_STATUS_PENDING = 0x103, W_ERROR_IO_INCOMPLETE = 996, W_ERROR_IO_PENDING = 997, W_ERROR_HANDLE_EOF = 38,
     W_ERROR_NO_DATA = 232, W_ERROR_PIPE_CONNECTED = 535, W_FACILITY_NTWIN32 = 7,
     W_ERROR_SEVERITY_ERROR = 0xC0000000, W_FILE_SKIP_COMPLETION_PORT_ON_SUCCESS = 1,
     W_FILE_SKIP_SET_EVENT_ON_HANDLE = 2, W_WSAENOTSOCK = 10038\<rparr>"

definition sample_port :: "overlapped_entry list iocp_sys" where
  "sample_port = \<lparr>port_create = (\<lambda>w. (Ok (), w)), port_attach = (\<lambda>h w. (Ok (), w)),
     port_set_modes = (\<lambda>h m w. (Ok (), w)),
     port_dequeue = (\<lambda>n t w. ((Ok (), take (unat n) w), drop (unat n) w)),
     port_post = (\<lambda>n ov w. (Ok (), w @ [\<lparr>oe_transferred = n, oe_overlapped = ov\<rparr>])),
     nt_status_to_dos_error = (\<lambda>x. and x 0xFFFF), timed_out = (\<lambda>c. c = 258), win_clock = (\<lambda>w. 0)\<rparr>"

definition fixed_result :: "(usize io_result poll, 'w) iocp_opcode" where
  "fixed_result = \<lparr>win_operate = (\<lambda>op ud w. Some (op, op, w)), win_timer_delay = (\<lambda>op. Some 5)\<rparr>"

definition iocp_sample :: "'op op_object list \<Rightarrow> 'op iocp_driver" where
  "iocp_sample q = \<lparr>iocp_squeue = q, iocp_squeue_cap = 4, iocp_squeue_drained_till = 4, iocp_entries = [],
     iocp_timers = []\<rparr>"

lemmas iocp_eval = iocp_submit_def poll_impl_def iocp_sample_def fixed_result_def sample_port_def
  op_object_new_def win_TIMER_PENDING_def

theorem iocp_submit_accounts_witness:
  "\<exists>es d'. iocp_submit sample_port windows_consts fixed_result None
      (iocp_sample [op_object_new (Ready (Ok 3)) 1, op_object_new Pending 2]) [] =
    Some ((Ok (), es), [op_object_new Pending 2], d', []) \<and>
    (\<exists>es1 packets. es = es1 @ map (iocp_create_entry sample_port windows_consts) packets \<and>
       {#1, 2#} = mset (map entry_user_data es1) + {#2#} + mset (map timer_key (iocp_timers d')))"
proof -
  let ?d = "iocp_sample [op_object_new (Ready (Ok 3)) 1, op_object_new Pending 2]"
  obtain es d' where s: "iocp_submit sample_port windows_consts fixed_result None ?d [] =
    Some ((Ok (), es), [op_object_new Pending 2], d', [])"
    by (simp add: iocp_eval)
  show ?thesis
    using s iocp_submit_accounts [OF _ s] by (auto simp: iocp_sample_def wheel_ok_def op_object_new_def)
qed

inductive iocp_reachable ::
  "'w iocp_sys \<Rightarrow> win_consts \<Rightarrow> ('op, 'w) iocp_opcode \<Rightarrow> 'op iocp_driver \<Rightarrow> bool" for S N V where
  created: "iocp_with S entries files w = (Ok d, w') \<Longrightarrow> iocp_reachable S N V d"
| pushed: "iocp_reachable S N V d \<Longrightarrow> iocp_try_push_dyn op d = (r, d') \<Longrightarrow> iocp_reachable S N V d'"
| pushed_queue: "iocp_reachable S N V d \<Longrightarrow> iocp_push_queue ops d = (rest, d') \<Longrightarrow> iocp_reachable S N V d'"
| cancelled: "iocp_reachable S N V d \<Longrightarrow> iocp_try_cancel ud d = (r, d') \<Longrightarrow> iocp_reachable S N V d'"
| submitted: "iocp_reachable S N V d \<Longrightarrow> iocp_submit S N V timeout d w = Some (r, started, d', w') \<Longrightarrow>
    iocp_reachable S N V d'"

lemma iocp_reachable_inv: "iocp_reachable S N V d \<Longrightarrow> iocp_entries d = [] \<and> wheel_ok (iocp_timers d)"
proof (induction rule: iocp_reachable.induct)
  case (submitted d timeout w r started d' w')
  obtain res es where r: "r = (res, es)" by (cases r)
  obtain es1 tm w1 es2 where s:
    "iocp_operate_ops S V (iocp_squeue d) (iocp_timers d) w = Some (es1, started, tm, w1)"
    "expire_timers (win_clock S w') tm = (es2, iocp_timers d')" "iocp_entries d' = []"
    using iocp_submitE [OF submitted.hyps(2) [unfolded r]] by metis
  then show ?case
    using iocp_operate_ops_conserves [OF s(1)] expire_timers_conserves(2) [OF _ s(2)] submitted.IH by blast
qed (auto simp: iocp_with_def iocp_try_push_dyn_def iocp_push_queue_def iocp_try_cancel_def Let_def
    wheel_with_capacity_def wheel_ok_def split: prod.splits sum.splits if_splits)

text \<open>Without packets, what is reported, started or still a timer was queued or a timer.\<close>

lemma iocp_submit_no_packets:
  assumes "iocp_entries d = []" "wheel_ok (iocp_timers d)" "\<forall>n t w. length (snd (fst (port_dequeue S n t w))) \<le> unat n"
    "iocp_submit S N V timeout d w = Some ((res, es), started, d', w')"
  shows "op_uds (iocp_squeue d) + timer_uds (iocp_timers d) = entry_uds es + op_uds started + timer_uds (iocp_timers d')"
    "iocp_squeue d' = []" "iocp_entries d' = []" "wheel_ok (iocp_timers d')"
proof -
  obtain es1 tm w1 r packets es2 where s:
    "iocp_operate_ops S V (iocp_squeue d) (iocp_timers d) w = Some (es1, started, tm, w1)"
    "port_dequeue S (of_nat (length (iocp_entries d)))
       (poll_timeout N (till_next_timer_or_timeout (win_clock S w1) timeout tm)) w1 = ((r, packets), w')"
    "expire_timers (win_clock S w') tm = (es2, iocp_timers d')"
    "es = es1 @ es2 @ map (iocp_create_entry S N) packets" "iocp_squeue d' = []" "iocp_entries d' = []"
    by (rule iocp_submitE [OF assms(4)])
  have "packets = []"
    using assms(3) [rule_format, of 0 "poll_timeout N (till_next_timer_or_timeout (win_clock S w1) timeout tm)" w1]
      s(2) assms(1) by simp
  note o = iocp_operate_ops_conserves [OF s(1)]
  then have t: "timer_uds tm = entry_uds es2 + timer_uds (iocp_timers d')" "wheel_ok (iocp_timers d')"
    using expire_timers_conserves [OF _ s(3)] assms(2) by blast+
  show "op_uds (iocp_squeue d) + timer_uds (iocp_timers d) = entry_uds es + op_uds started + timer_uds (iocp_timers d')"
    using o t(1) s(4) \<open>packets = []\<close> by (simp add: add_ac)
  show "iocp_squeue d' = []" "iocp_entries d' = []" "wheel_ok (iocp_timers d')" by (rule s(5) s(6) t(2))+
qed

text \<open>
  The completion port is never asked for a packet: the array handed to
  \<open>GetQueuedCompletionStatusEx\<close> is offered with its length, which is 0 in every state the driver
  reaches, so a port that returns at most as many packets as it was asked for returns none, and
  an operation that was started is never reported.
\<close>

theorem iocp_started_never_reported:
  assumes "iocp_reachable S N V d" "\<forall>n t w. length (snd (fst (port_dequeue S n t w))) \<le> unat n"
    "iocp_submit S N V timeout d w = Some ((res, es), started, d', w')"
  shows "entry_user_data ` set es \<subseteq> obj_user_data ` set (iocp_squeue d) \<union> timer_key ` set (iocp_timers d)"
proof -
  have "iocp_entries d = []" "wheel_ok (iocp_timers d)" using iocp_reachable_inv [OF assms(1)] by simp_all
  from iocp_submit_no_packets(1) [OF this assms(2,3)]
  have "set_mset (entry_uds es) \<subseteq> set_mset (op_uds (iocp_squeue d) + timer_uds (iocp_timers d))" by auto
  then show ?thesis by (simp add: entry_uds_def op_uds_def timer_uds_def)
qed

theorem iocp_started_never_reported_witness:
  "\<exists>es d' w'. iocp_submit sample_port windows_consts fixed_result None (iocp_sample [])
      [\<lparr>oe_transferred = 5, oe_overlapped = overlapped_new 2\<rparr>] = Some ((Ok (), es), [], d', w') \<and> 2 \<notin> entry_user_data ` set es"
proof -
  have "iocp_with sample_port 4 0 [] = (Ok (iocp_sample []), [])"
    by (simp add: iocp_with_def sample_port_def iocp_sample_def wheel_with_capacity_def)
  then have r: "iocp_reachable sample_port windows_consts fixed_result (iocp_sample [])" by (rule iocp_reachable.created)
  obtain es d' w' where s: "iocp_submit sample_port windows_consts fixed_result None (iocp_sample [])
      [\<lparr>oe_transferred = 5, oe_overlapped = overlapped_new 2\<rparr>] = Some ((Ok (), es), [], d', w')"
    by (simp add: iocp_eval)
  have "\<forall>n t w. length (snd (fst (port_dequeue sample_port n t w))) \<le> unat n" by (simp add: sample_port_def)
  from iocp_started_never_reported [OF r this s] s show ?thesis by (auto simp: iocp_sample_def)
qed

subsection \<open>Results in packets\<close>

text \<open>
  What Windows documents about the statuses made from error numbers: converting back gives the
  low 16 bits; and posting appends a packet to the port.
\<close>

definition nt_spec :: "'w iocp_sys \<Rightarrow> bool" where
  "nt_spec S \<longleftrightarrow> (\<forall>x. nt_status_to_dos_error S (or (or (and x 0xFFFF) (push_bit 16 7)) 0xC0000000) = and x 0xFFFF)"

definition port_fifo :: "overlapped_entry list iocp_sys \<Rightarrow> bool" where
  "port_fifo S \<longleftrightarrow> (\<forall>n ov w. port_post S n ov w = (Ok (), w @ [\<lparr>oe_transferred = n, oe_overlapped = ov\<rparr>]))"

lemma ucast_scast_32: "ucast (scast (x :: i32) :: usize) = x"
  by (rule bit_word_eqI) (simp add: bit_simps)

lemma error_status:
  "or y 0xC0000000 \<noteq> (0 :: i32)" "or y 0xC0000000 \<noteq> (0x103 :: i32)"
proof -
  have "bit (or y 0xC0000000 :: i32) 31" "\<not> bit (0 :: i32) 31" "\<not> bit (0x103 :: i32) 31"
    by (simp_all add: bit_simps)
  then show "or y 0xC0000000 \<noteq> (0 :: i32)" "or y 0xC0000000 \<noteq> (0x103 :: i32)" by metis+
qed

lemma low_16_bits:
  assumes "unat x < 65536"
  shows "and x 0xFFFF = (x :: i32)" "0 < unat x \<Longrightarrow> 0 < sint x"
proof -
  have u: "uint x < 65536" using assms by (metis of_nat_less_iff of_nat_numeral uint_nat)
  have "take_bit 16 x = x" using assms by (intro take_bit_word_small) simp
  then show "and x 0xFFFF = x" by (simp add: take_bit_eq_mask mask_eq_exp_minus_1)
  have "- (2 ^ 31) \<le> uint x" by (rule order_trans [OF _ uint_ge_0]) simp
  then have "signed_take_bit 31 (uint x) = uint x" using u by (intro signed_take_bit_int_eq_self) simp_all
  then have "sint x = uint x" by (simp add: sint_uint)
  then show "0 < unat x \<Longrightarrow> 0 < sint x" using uint_nat [of x] by linarith
qed

text \<open>
  A result posted to the port comes back as it was: an error number from 1 to 65535 as the
  same error, except for the three that stand for an end of data and are read as a success with
  0, and a length below 2^32 as the same length when the overlapped structure carries no error.
\<close>

theorem posted_result_roundtrip:
  assumes "port_fifo S" "nt_spec S"
    and "case result of
        Err (Os x) \<Rightarrow> 0 < unat x \<and> unat x < 65536
      | Err (Custom k m) \<Rightarrow> False
      | Ok n \<Rightarrow> unat n < 2 ^ 32 \<and> ov_internal ov = 0"
  shows "\<exists>p ov'. post_driver_raw S windows_consts result ov w = (Ok (), ov', w @ [p]) \<and>
    iocp_create_entry S windows_consts p = entry_new (ov_user_data ov)
      (if result \<in> {Err (Os 996), Err (Os 38), Err (Os 232)} then Ok 0 else result)"
proof (cases result)
  case (Inr n)
  have "ucast (ucast n :: u32) = take_bit 32 n" by (rule bit_word_eqI) (simp add: bit_simps)
  moreover have "take_bit 32 n = n"
    using assms(3) Inr by (intro take_bit_word_small) simp
  ultimately have "ucast (ucast n :: u32) = n" by simp
  then show ?thesis
    using Inr assms(1,3) by (simp add: post_driver_raw_def port_fifo_def iocp_create_entry_def windows_consts_def Let_def)
next
  case (Inl e)
  then obtain x where x: "e = Os x" "0 < unat x" "unat x < 65536" using assms(3) by (cases e) auto
  let ?s = "or (or (and x 0xFFFF) (push_bit 16 7)) 0xC0000000 :: i32"
  have "ntstatus_from_win32 windows_consts x = ?s"
    using low_16_bits [OF x(3)] x(2) by (simp add: ntstatus_from_win32_def windows_consts_def)
  moreover have "nt_status_to_dos_error S ?s = x"
    using assms(2) low_16_bits(1) [OF x(3)] unfolding nt_spec_def by metis
  ultimately show ?thesis
    using Inl x(1) assms(1) error_status
    by (simp add: post_driver_raw_def port_fifo_def iocp_create_entry_def ucast_scast_32 windows_consts_def Let_def)
qed

theorem posted_result_roundtrip_witness:
  "\<exists>p ov'. post_driver_raw sample_port windows_consts (Err (Os 5)) (overlapped_new 9) [] = (Ok (), ov', [] @ [p]) \<and>
    iocp_create_entry sample_port windows_consts p = entry_new 9 (Err (Os 5))"
proof -
  have "port_fifo sample_port" by (simp add: port_fifo_def sample_port_def)
  moreover have "nt_spec sample_port"
    unfolding nt_spec_def sample_port_def by (simp add: bit.conj_disj_distrib2 and.assoc)
  ultimately show ?thesis
    using posted_result_roundtrip [where S = sample_port and result = "Err (Os 5)" and ov = "overlapped_new 9" and w = "[]"]
    by (simp add: overlapped_new_def)
qed

text \<open>
  An error that carries no system error number is posted as a success: the packet of a
  custom error decodes to a completion with 0 bytes.
\<close>

theorem posted_custom_error_is_success:
  assumes "port_fifo S"
  shows "\<exists>p ov'. post_driver_raw S windows_consts (Err (Custom k m)) ov w = (Ok (), ov', w @ [p]) \<and>
    iocp_create_entry S windows_consts p = entry_new (ov_user_data ov) (Ok 0)"
  using assms
  by (simp add: post_driver_raw_def port_fifo_def iocp_create_entry_def ntstatus_from_win32_def windows_consts_def Let_def)

theorem posted_custom_error_is_success_witness:
  "\<exists>p ov'. post_driver_raw sample_port windows_consts (Err (Custom UnexpectedEof ''eof'')) (overlapped_new 9) [] =
      (Ok (), ov', [] @ [p]) \<and>
    iocp_create_entry sample_port windows_consts p = entry_new (ov_user_data (overlapped_new 9)) (Ok 0)"
  by (rule posted_custom_error_is_success) (simp add: port_fifo_def sample_port_def)

text \<open>
  The timeout of the port is the number of whole milliseconds modulo 2^32: exact for waits below
  49 days, and 0, that is no wait at all, for a wait of 2^32 milliseconds.
\<close>

lemma poll_timeout_millis:
  "unat (poll_timeout N (Some t)) = (t div 1000000) mod 2 ^ 32"
  "poll_timeout N (Some (2 ^ 32 * 1000000)) = 0"
  by (simp_all add: poll_timeout_def unat_of_nat take_bit_nat_def)

end
