(* ===== verification/Iocp_Op.thy ===== *)
theory Iocp_Op
  imports Iocp_Spec Unix_Op
begin

text \<open>
  The operations on IOCP, \<open>src/driver/iocp/op.rs\<close>: the structures, how each operation calls
  Windows, and how the answer becomes the result of the attempt.

  The Windows API is a parameter that answers a call with a reply: the return value, the error
  of \<open>GetLastError\<close> and the values stored through out pointers. The extension functions that
  are looked up once and kept in statics are part of the state, \<open>win_statics\<close>; a static that
  holds \<open>Some None\<close> was looked up and is missing.
\<close>

subsection \<open>Calls\<close>

datatype win_call =
    WReadFile usize nat u32 overlapped
  | WWriteFile usize nat u32 overlapped
  | WConnectEx nat usize sock_addr overlapped
  | WAcceptEx nat usize usize u32 overlapped
  | WGetAddrs nat u32
  | WFlushFileBuffers usize
  | WRecv usize "(nat \<times> nat) list" overlapped
  | WSend usize "(nat \<times> nat) list" overlapped
  | WRecvFrom usize "(nat \<times> nat) list" u32 overlapped
  | WSendTo usize "(nat \<times> nat) list" sock_addr overlapped
  | WConnectNamedPipe usize overlapped
  | WUpdateConnectContext usize
  | WUpdateAcceptContext usize usize
  | WGetSockError usize
  | WCloseHandle usize
  | WCloseSocket usize
  | WSocket i32 i32 "i32 option"
  | WIoctl usize string

record win_reply =
  wr_ret :: i32
  wr_error :: u32
  wr_transferred :: u32
  wr_code :: i32
  wr_handle :: usize
  wr_fn :: "nat option"
  wr_remote :: "u8 list"
  wr_remote_in_place :: bool
  wr_remote_len :: i32

record win_statics =
  CONNECT_EX :: "nat option option"
  ACCEPT_EX :: "nat option option"
  GET_ADDRS :: "nat option option"

record 'w win_api =
  win_call :: "win_call \<Rightarrow> 'w \<Rightarrow> win_reply \<times> 'w"
  W_SOCKADDR_STORAGE_SIZE :: u32
  W_SOCKADDR_SIZE :: nat
  W_INVALID_SOCKET :: usize

type_synonym ('op, 'w) win_attempt = "(usize io_result poll \<times> 'op \<times> win_statics \<times> 'w) option"

definition winapi_result :: "win_consts \<Rightarrow> u32 \<Rightarrow> u32 \<Rightarrow> usize io_result poll option" where
  "winapi_result N error transferred =
     (if error = 0 then None
      else if error = W_ERROR_IO_PENDING N then Some Pending
      else if error = W_ERROR_IO_INCOMPLETE N \<or> error = W_ERROR_HANDLE_EOF N \<or>
              error = W_ERROR_PIPE_CONNECTED N \<or> error = W_ERROR_NO_DATA N
           then Some (Ready (Ok (ucast transferred)))
      else Some (Ready (Err (Os error))))"

definition win32_result :: "win_consts \<Rightarrow> win_reply \<Rightarrow> u32 \<Rightarrow> usize io_result poll option" where
  "win32_result N rp transferred =
     (if wr_ret rp = 0 then winapi_result N (wr_error rp) transferred
      else Some (Ready (Ok (ucast transferred))))"

definition win32_pending_result :: "win_consts \<Rightarrow> win_reply \<Rightarrow> usize io_result poll option" where
  "win32_pending_result N rp =
     (if wr_ret rp = 0 then winapi_result N (wr_error rp) 0 else Some Pending)"

definition winsock_result :: "win_consts \<Rightarrow> win_reply \<Rightarrow> u32 \<Rightarrow> usize io_result poll option" where
  "winsock_result N rp transferred =
     (if wr_ret rp \<noteq> 0 then winapi_result N (wr_error rp) transferred else Some Pending)"

definition get_wsa_fn :: "'w win_api \<Rightarrow> win_fd \<Rightarrow> string \<Rightarrow> 'w \<Rightarrow> nat option io_result \<times> 'w" where
  "get_wsa_fn A handle fguid w =
     (let (rp, w') = win_call A (WIoctl (win_raw handle) fguid) w
      in if wr_ret rp \<noteq> 0 then (Err (Os (wr_error rp)), w') else (Ok (wr_fn rp), w'))"

text \<open>
  \<open>OnceLock::get_or_try_init\<close> followed by \<open>ok_or_else\<close>: the value of the static after the
  call, and the function or the error.
\<close>

definition get_or_try_init ::
  "'w win_api \<Rightarrow> win_fd \<Rightarrow> string \<Rightarrow> string \<Rightarrow> nat option option \<Rightarrow> 'w \<Rightarrow>
   nat io_result \<times> nat option option \<times> 'w" where
  "get_or_try_init A handle fguid msg cell w =
     (let (res, cell', w') =
            (case cell of
               Some f \<Rightarrow> (Ok f, cell, w)
             | None \<Rightarrow>
                 (case get_wsa_fn A handle fguid w of
                    (Err e, w') \<Rightarrow> (Err e, None, w')
                  | (Ok f, w') \<Rightarrow> (Ok f, Some f, w')))
      in ((case res of
             Err e \<Rightarrow> Err e
           | Ok None \<Rightarrow> Err (Custom Unsupported msg)
           | Ok (Some f) \<Rightarrow> Ok f), cell', w'))"

subsection \<open>Reading and writing files\<close>

record win_read_op =
  wread_fd :: win_fd
  wread_buffer :: iobuf
  wread_overlapped :: overlapped

definition win_read_new :: "win_fd \<Rightarrow> iobuf \<Rightarrow> win_read_op" where
  "win_read_new fd buffer =
     \<lparr>wread_fd = fd, wread_buffer = buffer, wread_overlapped = overlapped_new (-1)\<rparr>"

definition win_read_into_inner :: "win_read_op \<Rightarrow> iobuf" where
  "win_read_into_inner op = wread_buffer op"

definition win_read_operate ::
  "'w win_api \<Rightarrow> win_consts \<Rightarrow> win_read_op \<Rightarrow> usize \<Rightarrow> win_statics \<Rightarrow> 'w \<Rightarrow> (win_read_op, 'w) win_attempt" where
  "win_read_operate A N op user_data st w =
     (let ov = (wread_overlapped op)\<lparr>ov_user_data := user_data\<rparr>; op' = op\<lparr>wread_overlapped := ov\<rparr>
      in do { (p, n) \<leftarrow> as_uninit_slice (wread_buffer op);
              let (rp, w') = win_call A (WReadFile (win_raw (wread_fd op)) p (of_nat n) ov) w
              in map_option (\<lambda>r. (r, op', st, w')) (win32_pending_result N rp) })"

record win_read_at_op =
  wread_at_fd :: win_fd
  wread_at_offset :: usize
  wread_at_buffer :: iobuf
  wread_at_overlapped :: overlapped

definition win_read_at_new :: "win_fd \<Rightarrow> usize \<Rightarrow> iobuf \<Rightarrow> win_read_at_op" where
  "win_read_at_new fd offset buffer =
     \<lparr>wread_at_fd = fd, wread_at_offset = offset, wread_at_buffer = buffer,
      wread_at_overlapped = overlapped_new (-1)\<rparr>"

definition win_read_at_into_inner :: "win_read_at_op \<Rightarrow> iobuf" where
  "win_read_at_into_inner op = wread_at_buffer op"

text \<open>The offset split into the two halves of the overlapped structure.\<close>

definition set_offset :: "usize \<Rightarrow> usize \<Rightarrow> overlapped \<Rightarrow> overlapped" where
  "set_offset user_data offset ov =
     ov\<lparr>ov_user_data := user_data, ov_offset := ucast (and offset 0xFFFFFFFF),
        ov_offset_high := ucast (drop_bit 32 offset)\<rparr>"

definition win_read_at_operate ::
  "'w win_api \<Rightarrow> win_consts \<Rightarrow> win_read_at_op \<Rightarrow> usize \<Rightarrow> win_statics \<Rightarrow> 'w \<Rightarrow> (win_read_at_op, 'w) win_attempt" where
  "win_read_at_operate A N op user_data st w =
     (let ov = set_offset user_data (wread_at_offset op) (wread_at_overlapped op);
          op' = op\<lparr>wread_at_overlapped := ov\<rparr>
      in do { (p, n) \<leftarrow> as_uninit_slice (wread_at_buffer op);
              let (rp, w') = win_call A (WReadFile (win_raw (wread_at_fd op)) p (of_nat n) ov) w
              in map_option (\<lambda>r. (r, op', st, w')) (win32_pending_result N rp) })"

record win_write_op =
  wwrite_fd :: win_fd
  wwrite_buffer :: iobuf
  wwrite_overlapped :: overlapped

definition win_write_new :: "win_fd \<Rightarrow> iobuf \<Rightarrow> win_write_op" where
  "win_write_new fd buffer =
     \<lparr>wwrite_fd = fd, wwrite_buffer = buffer, wwrite_overlapped = overlapped_new (-1)\<rparr>"

definition win_write_into_inner :: "win_write_op \<Rightarrow> iobuf" where
  "win_write_into_inner op = wwrite_buffer op"

definition win_write_operate ::
  "'w win_api \<Rightarrow> win_consts \<Rightarrow> win_write_op \<Rightarrow> usize \<Rightarrow> win_statics \<Rightarrow> 'w \<Rightarrow> (win_write_op, 'w) win_attempt" where
  "win_write_operate A N op user_data st w =
     (let ov = (wwrite_overlapped op)\<lparr>ov_user_data := user_data\<rparr>; op' = op\<lparr>wwrite_overlapped := ov\<rparr>
      in do { (p, n) \<leftarrow> init_region (wwrite_buffer op);
              let (rp, w') = win_call A (WWriteFile (win_raw (wwrite_fd op)) p (of_nat n) ov) w
              in map_option (\<lambda>r. (r, op', st, w')) (win32_pending_result N rp) })"

record win_write_at_op =
  wwrite_at_fd :: win_fd
  wwrite_at_offset :: usize
  wwrite_at_buffer :: iobuf
  wwrite_at_overlapped :: overlapped

definition win_write_at_new :: "win_fd \<Rightarrow> usize \<Rightarrow> iobuf \<Rightarrow> win_write_at_op" where
  "win_write_at_new fd offset buffer =
     \<lparr>wwrite_at_fd = fd, wwrite_at_offset = offset, wwrite_at_buffer = buffer,
      wwrite_at_overlapped = overlapped_new (-1)\<rparr>"

definition win_write_at_into_inner :: "win_write_at_op \<Rightarrow> iobuf" where
  "win_write_at_into_inner op = wwrite_at_buffer op"

definition win_write_at_operate ::
  "'w win_api \<Rightarrow> win_consts \<Rightarrow> win_write_at_op \<Rightarrow> usize \<Rightarrow> win_statics \<Rightarrow> 'w \<Rightarrow> (win_write_at_op, 'w) win_attempt" where
  "win_write_at_operate A N op user_data st w =
     (let ov = set_offset user_data (wwrite_at_offset op) (wwrite_at_overlapped op);
          op' = op\<lparr>wwrite_at_overlapped := ov\<rparr>
      in do { (p, n) \<leftarrow> init_region (wwrite_at_buffer op);
              let (rp, w') = win_call A (WWriteFile (win_raw (wwrite_at_fd op)) p (of_nat n) ov) w
              in map_option (\<lambda>r. (r, op', st, w')) (win32_pending_result N rp) })"

subsection \<open>Connecting, accepting, flushing\<close>

record win_connect_op =
  wconnect_fd :: win_fd
  wconnect_addr :: sock_addr
  wconnect_overlapped :: overlapped

definition win_connect_new :: "win_fd \<Rightarrow> sock_addr \<Rightarrow> win_connect_op" where
  "win_connect_new fd addr =
     \<lparr>wconnect_fd = fd, wconnect_addr = addr, wconnect_overlapped = overlapped_new (-1)\<rparr>"

definition win_connect_update_context ::
  "'w win_api \<Rightarrow> win_connect_op \<Rightarrow> 'w \<Rightarrow> unit io_result \<times> 'w" where
  "win_connect_update_context A op w =
     (let (rp, w') = win_call A (WUpdateConnectContext (win_raw (wconnect_fd op))) w
      in if wr_ret rp \<noteq> 0 then (Err (Os (wr_error rp)), w') else (Ok (), w'))"

definition win_on_connect ::
  "'w win_api \<Rightarrow> win_connect_op \<Rightarrow> usize io_result \<Rightarrow> 'w \<Rightarrow> unit io_result \<times> 'w" where
  "win_on_connect A op res w =
     (case res of Err e \<Rightarrow> (Err e, w) | Ok _ \<Rightarrow> win_connect_update_context A op w)"

definition win_connect_operate ::
  "'w win_api \<Rightarrow> win_consts \<Rightarrow> win_connect_op \<Rightarrow> usize \<Rightarrow> win_statics \<Rightarrow> 'w \<Rightarrow> (win_connect_op, 'w) win_attempt" where
  "win_connect_operate A N op user_data st w =
     (let ov = (wconnect_overlapped op)\<lparr>ov_user_data := user_data\<rparr>;
          op' = op\<lparr>wconnect_overlapped := ov\<rparr>;
          (f, cell, w1) = get_or_try_init A (wconnect_fd op) ''WSAID_CONNECTEX''
                            ''cannot retrieve ConnectEx'' (CONNECT_EX st) w;
          st' = st\<lparr>CONNECT_EX := cell\<rparr>
      in case f of
           Err e \<Rightarrow> Some (Ready (Err e), op', st', w1)
         | Ok connect_fn \<Rightarrow>
             (let (rp, w') = win_call A (WConnectEx connect_fn (win_raw (wconnect_fd op)) (wconnect_addr op) ov) w1
              in map_option (\<lambda>r. (r, op', st', w')) (win32_result N rp (wr_transferred rp))))"

record win_sync_op =
  wsync_fd :: win_fd
  wsync_datasync :: bool

definition win_sync_new :: "win_fd \<Rightarrow> bool \<Rightarrow> win_sync_op" where
  "win_sync_new fd datasync = \<lparr>wsync_fd = fd, wsync_datasync = datasync\<rparr>"

definition win_sync_operate ::
  "'w win_api \<Rightarrow> win_consts \<Rightarrow> win_sync_op \<Rightarrow> usize \<Rightarrow> win_statics \<Rightarrow> 'w \<Rightarrow> (win_sync_op, 'w) win_attempt" where
  "win_sync_operate A N op user_data st w =
     (let (rp, w') = win_call A (WFlushFileBuffers (win_raw (wsync_fd op))) w
      in map_option (\<lambda>r. (r, op, st, w')) (win32_result N rp 0))"

record accept_socket_opts =
  aso_domain :: i32
  aso_ty :: i32
  aso_protocol :: "i32 option"

record win_accept_op =
  waccept_fd :: win_fd
  waccept_accept_fd :: usize
  waccept_sock_opts :: "accept_socket_opts option"
  waccept_addr :: sock_addr
  waccept_overlapped :: overlapped

definition win_accept_with_socket_opts ::
  "'w win_api \<Rightarrow> win_fd \<Rightarrow> i32 \<Rightarrow> i32 \<Rightarrow> i32 option \<Rightarrow> win_accept_op" where
  "win_accept_with_socket_opts A fd domain ty protocol =
     \<lparr>waccept_fd = fd, waccept_accept_fd = W_INVALID_SOCKET A,
      waccept_sock_opts = Some \<lparr>aso_domain = domain, aso_ty = ty, aso_protocol = protocol\<rparr>,
      waccept_addr = zeroed_addr (W_SOCKADDR_STORAGE_SIZE A), waccept_overlapped = overlapped_new (-1)\<rparr>"

definition win_accept_init_with_socket_opts ::
  "'w win_api \<Rightarrow> win_fd \<Rightarrow> i32 \<Rightarrow> i32 \<Rightarrow> i32 option \<Rightarrow> win_accept_op \<Rightarrow> win_accept_op" where
  "win_accept_init_with_socket_opts A fd domain ty protocol op =
     op\<lparr>waccept_fd := fd, waccept_accept_fd := W_INVALID_SOCKET A,
        waccept_sock_opts := Some \<lparr>aso_domain = domain, aso_ty = ty, aso_protocol = protocol\<rparr>,
        waccept_overlapped := overlapped_new (-1)\<rparr>"

definition win_accept_new :: "'w win_api \<Rightarrow> win_fd \<Rightarrow> usize \<Rightarrow> win_accept_op" where
  "win_accept_new A fd new_fd =
     \<lparr>waccept_fd = fd, waccept_accept_fd = new_fd, waccept_sock_opts = None,
      waccept_addr = zeroed_addr (W_SOCKADDR_STORAGE_SIZE A), waccept_overlapped = overlapped_new (-1)\<rparr>"

definition win_accept_update_context ::
  "'w win_api \<Rightarrow> win_accept_op \<Rightarrow> 'w \<Rightarrow> unit io_result \<times> 'w" where
  "win_accept_update_context A op w =
     (let (rp, w') = win_call A (WUpdateAcceptContext (waccept_accept_fd op) (win_raw (waccept_fd op))) w
      in if wr_ret rp \<noteq> 0 then (Err (Os (wr_error rp)), w') else (Ok (), w'))"

text \<open>
  \<open>ptr::copy\<close> of a number of bytes onto the start of a stored object. Copying more bytes than
  the object or the source has is undefined behaviour, \<open>None\<close>.
\<close>

definition copy_onto :: "u8 list \<Rightarrow> nat \<Rightarrow> u8 list \<Rightarrow> u8 list option" where
  "copy_onto src n dst =
     (if n \<le> length src \<and> n \<le> length dst then Some (take n src @ drop n dst) else None)"

text \<open>The count of \<open>ptr::copy\<close> is in elements, here of type \<open>SOCKADDR\<close>.\<close>

definition win_accept_as_sockaddr ::
  "'w win_api \<Rightarrow> win_accept_op \<Rightarrow> win_statics \<Rightarrow> 'w \<Rightarrow>
   (sock_addr io_result \<times> win_accept_op \<times> win_statics \<times> 'w) option" where
  "win_accept_as_sockaddr A op st w =
     (let (f, cell, w1) = get_or_try_init A (waccept_fd op) ''WSAID_GETACCEPTEXSOCKADDRS''
                            ''cannot retrieve GetAcceptExSockAddrs'' (GET_ADDRS st) w;
          st' = st\<lparr>GET_ADDRS := cell\<rparr>
      in case f of
           Err e \<Rightarrow> Some (Err e, op, st', w1)
         | Ok get_addrs_fn \<Rightarrow>
             (let (rp, w') = win_call A (WGetAddrs get_addrs_fn (W_SOCKADDR_STORAGE_SIZE A)) w1
              in do { stored \<leftarrow>
                        (if wr_remote_in_place rp then Some (sa_storage (waccept_addr op))
                         else copy_onto (wr_remote rp)
                                (unat (scast (wr_remote_len rp) :: usize) * W_SOCKADDR_SIZE A)
                                (sa_storage (waccept_addr op)));
                      let addr = \<lparr>sa_storage = stored, sa_len = wr_remote_len rp\<rparr>
                      in Some (Ok addr, op\<lparr>waccept_addr := addr\<rparr>, st', w') }))"

text \<open>An error after the socket object was made drops it, which closes the accepted socket.\<close>

definition win_on_accept ::
  "'w win_api \<Rightarrow> win_accept_op \<Rightarrow> usize io_result \<Rightarrow> win_statics \<Rightarrow> 'w \<Rightarrow>
   ((usize \<times> sock_addr) io_result \<times> win_accept_op \<times> win_statics \<times> 'w) option" where
  "win_on_accept A op res st w =
     (case res of
        Err e \<Rightarrow> Some (Err e, op, st, w)
      | Ok _ \<Rightarrow>
          (let accept_sock = waccept_accept_fd op;
               dropped = (\<lambda>w. snd (win_call A (WCloseSocket accept_sock) w))
           in case win_accept_update_context A op w of
                (Err e, w1) \<Rightarrow> Some (Err e, op, st, dropped w1)
              | (Ok _, w1) \<Rightarrow>
                  do { (r, op', st', w2) \<leftarrow> win_accept_as_sockaddr A op st w1;
                       case r of
                         Err e \<Rightarrow> Some (Err e, op', st', dropped w2)
                       | Ok addr \<Rightarrow> Some (Ok (accept_sock, addr), op', st', w2) }))"

text \<open>\<open>Socket::new\<close> fails when the handle it gets is the invalid socket.\<close>

definition win_accept_socket ::
  "'w win_api \<Rightarrow> win_accept_op \<Rightarrow> 'w \<Rightarrow> usize io_result \<times> 'w" where
  "win_accept_socket A op w =
     (if waccept_accept_fd op = W_INVALID_SOCKET A then
        (case waccept_sock_opts op of
           None \<Rightarrow> (Ok (waccept_accept_fd op), w)
         | Some opts \<Rightarrow>
             (let (rp, w') = win_call A (WSocket (aso_domain opts) (aso_ty opts) (aso_protocol opts)) w
              in if wr_handle rp = W_INVALID_SOCKET A then (Err (Os (wr_error rp)), w')
                 else (Ok (wr_handle rp), w')))
      else (Ok (waccept_accept_fd op), w))"

definition win_accept_operate ::
  "'w win_api \<Rightarrow> win_consts \<Rightarrow> win_accept_op \<Rightarrow> usize \<Rightarrow> win_statics \<Rightarrow> 'w \<Rightarrow> (win_accept_op, 'w) win_attempt" where
  "win_accept_operate A N op user_data st w =
     (case win_accept_socket A op w of
        (Err e, w1) \<Rightarrow> Some (Ready (Err e), op, st, w1)
      | (Ok new_fd, w1) \<Rightarrow>
          (let ov = (waccept_overlapped op)\<lparr>ov_user_data := user_data\<rparr>;
               op' = op\<lparr>waccept_accept_fd := new_fd, waccept_overlapped := ov\<rparr>;
               (f, cell, w2) = get_or_try_init A (waccept_fd op) ''WSAID_ACCEPTEX''
                                 ''cannot retrieve AcceptEx'' (ACCEPT_EX st) w1;
               st' = st\<lparr>ACCEPT_EX := cell\<rparr>
           in case f of
                Err e \<Rightarrow> Some (Ready (Err e), op', st', w2)
              | Ok accept_fn \<Rightarrow>
                  (let (rp, w') = win_call A (WAcceptEx accept_fn (win_raw (waccept_fd op)) new_fd
                                    (W_SOCKADDR_STORAGE_SIZE A) ov) w2
                   in map_option (\<lambda>r. (r, op', st', w')) (win32_result N rp (wr_transferred rp)))))"

subsection \<open>Receiving and sending\<close>

record win_recv_vectored_op =
  wrecvv_fd :: win_fd
  wrecvv_buffer :: slices_buf
  wrecvv_overlapped :: overlapped

definition win_recv_vectored_new :: "win_fd \<Rightarrow> slices_buf \<Rightarrow> win_recv_vectored_op" where
  "win_recv_vectored_new fd buffer =
     \<lparr>wrecvv_fd = fd, wrecvv_buffer = buffer, wrecvv_overlapped = overlapped_new (-1)\<rparr>"

definition win_recv_vectored_into_inner :: "win_recv_vectored_op \<Rightarrow> slices_buf" where
  "win_recv_vectored_into_inner op = wrecvv_buffer op"

definition win_recv_vectored_operate ::
  "'w win_api \<Rightarrow> win_consts \<Rightarrow> win_recv_vectored_op \<Rightarrow> usize \<Rightarrow> win_statics \<Rightarrow> 'w \<Rightarrow>
   (win_recv_vectored_op, 'w) win_attempt" where
  "win_recv_vectored_operate A N op user_data st w =
     (let ov = (wrecvv_overlapped op)\<lparr>ov_user_data := user_data\<rparr>; op' = op\<lparr>wrecvv_overlapped := ov\<rparr>;
          (rp, w') = win_call A (WRecv (win_raw (wrecvv_fd op)) (as_io_slices_mut (wrecvv_buffer op)) ov) w
      in map_option (\<lambda>r. (r, op', st, w')) (winsock_result N rp (wr_transferred rp)))"

text \<open>\<open>Recv\<close> and \<open>Send\<close> wrap one buffer; making the wrapper reads the buffer and may panic.\<close>

definition win_recv_new :: "win_fd \<Rightarrow> iobuf \<Rightarrow> win_recv_vectored_op option" where
  "win_recv_new fd buffer =
     map_option (\<lambda>m. win_recv_vectored_new fd (WrappedMut m)) (buf_wrapper_mut_from buffer)"

definition win_recv_into_inner :: "win_recv_vectored_op \<Rightarrow> iobuf list" where
  "win_recv_into_inner op = wrapper_into_inner (win_recv_vectored_into_inner op)"

record win_send_vectored_op =
  wsendv_fd :: win_fd
  wsendv_buffer :: slices_buf
  wsendv_overlapped :: overlapped

definition win_send_vectored_new :: "win_fd \<Rightarrow> slices_buf \<Rightarrow> win_send_vectored_op" where
  "win_send_vectored_new fd buffer =
     \<lparr>wsendv_fd = fd, wsendv_buffer = buffer, wsendv_overlapped = overlapped_new (-1)\<rparr>"

definition win_send_vectored_into_inner :: "win_send_vectored_op \<Rightarrow> slices_buf" where
  "win_send_vectored_into_inner op = wsendv_buffer op"

definition win_send_vectored_operate ::
  "'w win_api \<Rightarrow> win_consts \<Rightarrow> win_send_vectored_op \<Rightarrow> usize \<Rightarrow> win_statics \<Rightarrow> 'w \<Rightarrow>
   (win_send_vectored_op, 'w) win_attempt" where
  "win_send_vectored_operate A N op user_data st w =
     (let ov = (wsendv_overlapped op)\<lparr>ov_user_data := user_data\<rparr>; op' = op\<lparr>wsendv_overlapped := ov\<rparr>;
          (rp, w') = win_call A (WSend (win_raw (wsendv_fd op)) (as_io_slices (wsendv_buffer op)) ov) w
      in map_option (\<lambda>r. (r, op', st, w')) (winsock_result N rp (wr_transferred rp)))"

definition win_send_new :: "win_fd \<Rightarrow> iobuf \<Rightarrow> win_send_vectored_op option" where
  "win_send_new fd buffer =
     map_option (\<lambda>m. win_send_vectored_new fd (Wrapped m)) (buf_wrapper_from buffer)"

definition win_send_into_inner :: "win_send_vectored_op \<Rightarrow> iobuf list" where
  "win_send_into_inner op = wrapper_into_inner (win_send_vectored_into_inner op)"

record win_recv_msg_op =
  wrecvm_fd :: win_fd
  wrecvm_buffer :: slices_buf
  wrecvm_addr :: "u8 list"
  wrecvm_addr_len :: u32
  wrecvm_overlapped :: overlapped

definition win_recv_msg_new :: "'w win_api \<Rightarrow> win_fd \<Rightarrow> slices_buf \<Rightarrow> win_recv_msg_op" where
  "win_recv_msg_new A fd buffer =
     \<lparr>wrecvm_fd = fd, wrecvm_buffer = buffer,
      wrecvm_addr = replicate (unat (W_SOCKADDR_STORAGE_SIZE A)) 0,
      wrecvm_addr_len = W_SOCKADDR_STORAGE_SIZE A, wrecvm_overlapped = overlapped_new (-1)\<rparr>"

definition win_recv_msg_into_inner :: "win_recv_msg_op \<Rightarrow> slices_buf \<times> sock_addr" where
  "win_recv_msg_into_inner op =
     (wrecvm_buffer op, \<lparr>sa_storage = wrecvm_addr op, sa_len = wrecvm_addr_len op\<rparr>)"

definition win_recv_msg_operate ::
  "'w win_api \<Rightarrow> win_consts \<Rightarrow> win_recv_msg_op \<Rightarrow> usize \<Rightarrow> win_statics \<Rightarrow> 'w \<Rightarrow>
   (win_recv_msg_op, 'w) win_attempt" where
  "win_recv_msg_operate A N op user_data st w =
     (let ov = (wrecvm_overlapped op)\<lparr>ov_user_data := user_data\<rparr>; op' = op\<lparr>wrecvm_overlapped := ov\<rparr>;
          (rp, w') = win_call A (WRecvFrom (win_raw (wrecvm_fd op)) (as_io_slices_mut (wrecvm_buffer op))
                       (wrecvm_addr_len op) ov) w
      in map_option (\<lambda>r. (r, op', st, w')) (winsock_result N rp (wr_transferred rp)))"

definition win_recv_from_new :: "'w win_api \<Rightarrow> win_fd \<Rightarrow> iobuf \<Rightarrow> win_recv_msg_op option" where
  "win_recv_from_new A fd buffer =
     map_option (\<lambda>m. win_recv_msg_new A fd (WrappedMut m)) (buf_wrapper_mut_from buffer)"

definition win_recv_from_into_inner :: "win_recv_msg_op \<Rightarrow> iobuf list \<times> sock_addr" where
  "win_recv_from_into_inner op =
     (let (bufwrapper, sockaddr) = win_recv_msg_into_inner op in (wrapper_into_inner bufwrapper, sockaddr))"

record win_send_msg_op =
  wsendm_fd :: win_fd
  wsendm_buffer :: slices_buf
  wsendm_addr :: sock_addr
  wsendm_overlapped :: overlapped

definition win_send_msg_new :: "win_fd \<Rightarrow> slices_buf \<Rightarrow> sock_addr \<Rightarrow> win_send_msg_op" where
  "win_send_msg_new fd buffer addr =
     \<lparr>wsendm_fd = fd, wsendm_buffer = buffer, wsendm_addr = addr, wsendm_overlapped = overlapped_new (-1)\<rparr>"

definition win_send_msg_into_inner :: "win_send_msg_op \<Rightarrow> slices_buf" where
  "win_send_msg_into_inner op = wsendm_buffer op"

definition win_send_msg_operate ::
  "'w win_api \<Rightarrow> win_consts \<Rightarrow> win_send_msg_op \<Rightarrow> usize \<Rightarrow> win_statics \<Rightarrow> 'w \<Rightarrow>
   (win_send_msg_op, 'w) win_attempt" where
  "win_send_msg_operate A N op user_data st w =
     (let ov = (wsendm_overlapped op)\<lparr>ov_user_data := user_data\<rparr>; op' = op\<lparr>wsendm_overlapped := ov\<rparr>;
          (rp, w') = win_call A (WSendTo (win_raw (wsendm_fd op)) (as_io_slices (wsendm_buffer op))
                       (wsendm_addr op) ov) w
      in map_option (\<lambda>r. (r, op', st, w')) (winsock_result N rp (wr_transferred rp)))"

definition win_send_to_new :: "win_fd \<Rightarrow> iobuf \<Rightarrow> sock_addr \<Rightarrow> win_send_msg_op option" where
  "win_send_to_new fd buffer addr =
     map_option (\<lambda>m. win_send_msg_new fd (Wrapped m) addr) (buf_wrapper_from buffer)"

definition win_send_to_into_inner :: "win_send_msg_op \<Rightarrow> iobuf list" where
  "win_send_to_into_inner op = wrapper_into_inner (win_send_msg_into_inner op)"

subsection \<open>Named pipes, timers and closing\<close>

record connect_named_pipe_op =
  cnp_fd :: win_fd
  cnp_overlapped :: overlapped

definition connect_named_pipe_new :: "win_fd \<Rightarrow> connect_named_pipe_op" where
  "connect_named_pipe_new fd = \<lparr>cnp_fd = fd, cnp_overlapped = overlapped_new (-1)\<rparr>"

definition connect_named_pipe_operate ::
  "'w win_api \<Rightarrow> win_consts \<Rightarrow> connect_named_pipe_op \<Rightarrow> usize \<Rightarrow> win_statics \<Rightarrow> 'w \<Rightarrow>
   (connect_named_pipe_op, 'w) win_attempt" where
  "connect_named_pipe_operate A N op user_data st w =
     (let ov = (cnp_overlapped op)\<lparr>ov_user_data := user_data\<rparr>; op' = op\<lparr>cnp_overlapped := ov\<rparr>;
          (rp, w') = win_call A (WConnectNamedPipe (win_raw (cnp_fd op)) ov) w
      in map_option (\<lambda>r. (r, op', st, w')) (win32_result N rp 0))"

definition win_timeout_operate :: "usize \<Rightarrow> usize io_result poll" where
  "win_timeout_operate user_data = Ready (Ok win_TIMER_PENDING)"

text \<open>The length \<open>getsockopt\<close> writes back is the size of \<open>i32\<close>, as the debug assertion has it.\<close>

definition get_sockopt_error :: "'w win_api \<Rightarrow> usize \<Rightarrow> 'w \<Rightarrow> (i32 + unit) \<times> u32 \<times> 'w" where
  "get_sockopt_error A fd w =
     (let (rp, w') = win_call A (WGetSockError fd) w
      in ((if wr_ret rp \<noteq> 0 then Err (wr_ret rp)
           else if wr_code rp = 0 then Ok () else Err (wr_code rp)), wr_error rp, w'))"

definition win_close_raw_fd :: "'w win_api \<Rightarrow> win_consts \<Rightarrow> usize \<Rightarrow> 'w \<Rightarrow> usize io_result \<times> 'w" where
  "win_close_raw_fd A N fd w =
     (let (res, last_error, w1) = get_sockopt_error A fd w
      in case res of
           Err c \<Rightarrow>
             if c = W_WSAENOTSOCK N then
               (let (rp, w') = win_call A (WCloseHandle fd) w1
                in if wr_ret rp = 0 then (Err (Os (wr_error rp)), w') else (Ok 0, w'))
             else (Err (Os last_error), w1)
         | Ok _ \<Rightarrow>
             (let (rp, w') = win_call A (WCloseSocket fd) w1
              in if wr_ret rp \<noteq> 0 then (Err (Os (wr_error rp)), w') else (Ok 0, w')))"

definition win_close_fd_operate ::
  "'w win_api \<Rightarrow> win_consts \<Rightarrow> win_fd \<Rightarrow> usize \<Rightarrow> win_statics \<Rightarrow> 'w \<Rightarrow> (win_fd, 'w) win_attempt" where
  "win_close_fd_operate A N fd user_data st w =
     (let (res, w') = win_close_raw_fd A N (win_raw fd) w in Some (Ready res, fd, st, w'))"

text \<open>\<open>Option<T: IntoRawFd>\<close>: the value, here its handle, is taken out and closed.\<close>

definition win_close_opt_operate ::
  "'w win_api \<Rightarrow> win_consts \<Rightarrow> usize option \<Rightarrow> usize \<Rightarrow> win_statics \<Rightarrow> 'w \<Rightarrow> (usize option, 'w) win_attempt" where
  "win_close_opt_operate A N op user_data st w =
     (case op of
        Some fd \<Rightarrow> (let (res, w') = win_close_raw_fd A N fd w in Some (Ready res, None, st, w'))
      | None \<Rightarrow>
          Some (Ready (Err (Custom InvalidInput ''Value is None. File descriptor is already closed?'')), None, st, w))"

subsection \<open>All operations\<close>

datatype win_op =
    WinRead win_read_op
  | WinReadAt win_read_at_op
  | WinWrite win_write_op
  | WinWriteAt win_write_at_op
  | WinConnect win_connect_op
  | WinSync win_sync_op
  | WinAccept win_accept_op
  | WinRecvVectored win_recv_vectored_op
  | WinSendVectored win_send_vectored_op
  | WinRecvMsg win_recv_msg_op
  | WinSendMsg win_send_msg_op
  | WinConnectNamedPipe connect_named_pipe_op
  | WinTimeout nat
  | WinClose win_fd
  | WinCloseOption "usize option"

definition lift_win :: "('a \<Rightarrow> 'op) \<Rightarrow> ('a, 'w) win_attempt \<Rightarrow> ('op, 'w) win_attempt" where
  "lift_win f a = map_option (\<lambda>(r, x, st, w). (r, f x, st, w)) a"

fun win_op_operate ::
  "'w win_api \<Rightarrow> win_consts \<Rightarrow> win_op \<Rightarrow> usize \<Rightarrow> win_statics \<Rightarrow> 'w \<Rightarrow> (win_op, 'w) win_attempt" where
  "win_op_operate A N (WinRead x) ud st w = lift_win WinRead (win_read_operate A N x ud st w)"
| "win_op_operate A N (WinReadAt x) ud st w = lift_win WinReadAt (win_read_at_operate A N x ud st w)"
| "win_op_operate A N (WinWrite x) ud st w = lift_win WinWrite (win_write_operate A N x ud st w)"
| "win_op_operate A N (WinWriteAt x) ud st w = lift_win WinWriteAt (win_write_at_operate A N x ud st w)"
| "win_op_operate A N (WinConnect x) ud st w = lift_win WinConnect (win_connect_operate A N x ud st w)"
| "win_op_operate A N (WinSync x) ud st w = lift_win WinSync (win_sync_operate A N x ud st w)"
| "win_op_operate A N (WinAccept x) ud st w = lift_win WinAccept (win_accept_operate A N x ud st w)"
| "win_op_operate A N (WinRecvVectored x) ud st w =
     lift_win WinRecvVectored (win_recv_vectored_operate A N x ud st w)"
| "win_op_operate A N (WinSendVectored x) ud st w =
     lift_win WinSendVectored (win_send_vectored_operate A N x ud st w)"
| "win_op_operate A N (WinRecvMsg x) ud st w = lift_win WinRecvMsg (win_recv_msg_operate A N x ud st w)"
| "win_op_operate A N (WinSendMsg x) ud st w = lift_win WinSendMsg (win_send_msg_operate A N x ud st w)"
| "win_op_operate A N (WinConnectNamedPipe x) ud st w =
     lift_win WinConnectNamedPipe (connect_named_pipe_operate A N x ud st w)"
| "win_op_operate A N (WinTimeout d) ud st w = Some (win_timeout_operate ud, WinTimeout d, st, w)"
| "win_op_operate A N (WinClose x) ud st w = lift_win WinClose (win_close_fd_operate A N x ud st w)"
| "win_op_operate A N (WinCloseOption x) ud st w = lift_win WinCloseOption (win_close_opt_operate A N x ud st w)"

text \<open>Only timers implement \<open>timer_delay\<close>; the default panics.\<close>

fun win_op_timer_delay :: "win_op \<Rightarrow> nat option" where
  "win_op_timer_delay (WinTimeout d) = Some d"
| "win_op_timer_delay _ = None"

definition win_vtable :: "'w win_api \<Rightarrow> win_consts \<Rightarrow> (win_op, win_statics \<times> 'w) iocp_opcode" where
  "win_vtable A N =
     \<lparr>win_operate = (\<lambda>op ud (st, w).
        map_option (\<lambda>(r, op', st', w'). (r, op', (st', w'))) (win_op_operate A N op ud st w)),
      win_timer_delay = win_op_timer_delay\<rparr>"

lemmas win_result_defs = winapi_result_def win32_result_def win32_pending_result_def winsock_result_def

lemmas win_transfer_defs = win_read_operate_def win_read_at_operate_def win_write_operate_def
  win_write_at_operate_def win_recv_vectored_operate_def win_send_vectored_operate_def
  win_recv_msg_operate_def win_send_msg_operate_def

lemmas win_other_defs = win_connect_operate_def win_sync_operate_def win_accept_operate_def
  connect_named_pipe_operate_def win_timeout_operate_def win_close_fd_operate_def win_close_opt_operate_def

subsection \<open>The memory handed to Windows\<close>

text \<open>
  \<open>logged A\<close> is the API that also records the calls. \<open>errors_set\<close> is the documented behaviour
  the assertion of \<open>winapi_result\<close> relies on: a call that fails leaves a nonzero error code.
  \<open>BOOL\<close> functions fail with 0, the functions of Winsock with a nonzero value.
\<close>

definition logged :: "'w win_api \<Rightarrow> ('w \<times> win_call list) win_api" where
  "logged A =
     \<lparr>win_call = (\<lambda>c (w, log). case win_call A c w of (rp, w') \<Rightarrow> (rp, (w', log @ [c]))),
      W_SOCKADDR_STORAGE_SIZE = W_SOCKADDR_STORAGE_SIZE A, W_SOCKADDR_SIZE = W_SOCKADDR_SIZE A,
      W_INVALID_SOCKET = W_INVALID_SOCKET A\<rparr>"

fun bool_call :: "win_call \<Rightarrow> bool" where
  "bool_call (WReadFile _ _ _ _) = True"
| "bool_call (WWriteFile _ _ _ _) = True"
| "bool_call (WConnectEx _ _ _ _) = True"
| "bool_call (WAcceptEx _ _ _ _ _) = True"
| "bool_call (WFlushFileBuffers _) = True"
| "bool_call (WConnectNamedPipe _ _) = True"
| "bool_call (WCloseHandle _) = True"
| "bool_call _ = False"

definition succeeded :: "win_call \<Rightarrow> win_reply \<Rightarrow> bool" where
  "succeeded c rp \<longleftrightarrow> (if bool_call c then wr_ret rp \<noteq> 0 else wr_ret rp = 0)"

definition errors_set :: "'w win_api \<Rightarrow> bool" where
  "errors_set A \<longleftrightarrow> (\<forall>c w. succeeded c (fst (win_call A c w)) \<or> wr_error (fst (win_call A c w)) \<noteq> 0)"

fun call_writes :: "win_call \<Rightarrow> (nat \<times> nat) list" where
  "call_writes (WReadFile h p n ov) = [(p, unat n)]"
| "call_writes (WRecv h rs ov) = rs"
| "call_writes (WRecvFrom h rs n ov) = rs"
| "call_writes _ = []"

fun call_reads :: "win_call \<Rightarrow> (nat \<times> nat) list" where
  "call_reads (WWriteFile h p n ov) = [(p, unat n)]"
| "call_reads (WSend h rs ov) = rs"
| "call_reads (WSendTo h rs a ov) = rs"
| "call_reads _ = []"

fun win_op_buffers :: "win_op \<Rightarrow> iobuf list" where
  "win_op_buffers (WinRead x) = [wread_buffer x]"
| "win_op_buffers (WinReadAt x) = [wread_at_buffer x]"
| "win_op_buffers (WinWrite x) = [wwrite_buffer x]"
| "win_op_buffers (WinWriteAt x) = [wwrite_at_buffer x]"
| "win_op_buffers (WinRecvVectored x) = wrapper_into_inner (wrecvv_buffer x)"
| "win_op_buffers (WinSendVectored x) = wrapper_into_inner (wsendv_buffer x)"
| "win_op_buffers (WinRecvMsg x) = wrapper_into_inner (wrecvm_buffer x)"
| "win_op_buffers (WinSendMsg x) = wrapper_into_inner (wsendm_buffer x)"
| "win_op_buffers _ = []"

fun win_slices_ok :: "win_op \<Rightarrow> bool" where
  "win_slices_ok (WinRecvVectored x) = slices_ok (wrecvv_buffer x)"
| "win_slices_ok (WinSendVectored x) = slices_ok (wsendv_buffer x)"
| "win_slices_ok (WinRecvMsg x) = slices_ok (wrecvm_buffer x)"
| "win_slices_ok (WinSendMsg x) = slices_ok (wsendm_buffer x)"
| "win_slices_ok _ = True"

definition win_op_ok :: "win_op \<Rightarrow> bool" where
  "win_op_ok op \<longleftrightarrow> win_slices_ok op \<and> (\<forall>b \<in> set (win_op_buffers op). wf_buf b)"

definition call_safe :: "iobuf list \<Rightarrow> win_call \<Rightarrow> bool" where
  "call_safe bs c \<longleftrightarrow> (\<forall>r \<in> set (call_writes c). \<exists>b \<in> set bs. spare_region b r) \<and>
     (\<forall>r \<in> set (call_reads c). \<exists>b \<in> set bs. data_region b r)"

definition attempt_safe :: "iobuf list \<Rightarrow> ('op, 'w \<times> win_call list) win_attempt \<Rightarrow> bool" where
  "attempt_safe bs a \<longleftrightarrow>
     (case a of None \<Rightarrow> False | Some (r, op', st', w', log) \<Rightarrow> \<forall>c \<in> set log. call_safe bs c)"

lemma logged_call [simp]:
  "win_call (logged A) c (w, log) = (fst (win_call A c w), (snd (win_call A c w), log @ [c]))"
  by (simp add: logged_def split: prod.split)

lemma logged_consts [simp]:
  "W_SOCKADDR_STORAGE_SIZE (logged A) = W_SOCKADDR_STORAGE_SIZE A"
  "W_SOCKADDR_SIZE (logged A) = W_SOCKADDR_SIZE A" "W_INVALID_SOCKET (logged A) = W_INVALID_SOCKET A"
  by (simp_all add: logged_def)

lemma attempt_safe_lift [simp]: "attempt_safe bs (lift_win f a) = attempt_safe bs a"
  by (auto simp: attempt_safe_def lift_win_def split: option.split prod.split)

lemma errors_setD:
  assumes "errors_set A"
  shows "bool_call c \<Longrightarrow> wr_ret (fst (win_call A c w)) = 0 \<Longrightarrow> wr_error (fst (win_call A c w)) \<noteq> 0"
    and "\<not> bool_call c \<Longrightarrow> wr_ret (fst (win_call A c w)) \<noteq> 0 \<Longrightarrow> wr_error (fst (win_call A c w)) \<noteq> 0"
  using assms [unfolded errors_set_def succeeded_def, THEN spec, THEN spec, of c w] by simp_all

lemma results_defined:
  assumes "errors_set A"
  shows "bool_call c \<Longrightarrow> win32_result N (fst (win_call A c w)) t \<noteq> None"
    and "bool_call c \<Longrightarrow> win32_pending_result N (fst (win_call A c w)) \<noteq> None"
    and "\<not> bool_call c \<Longrightarrow> winsock_result N (fst (win_call A c w)) t \<noteq> None"
  using errors_setD [OF assms]
  by (simp_all add: win32_result_def win32_pending_result_def winsock_result_def winapi_result_def)

lemma attempt_safe_map [simp]:
  "attempt_safe bs (map_option (\<lambda>r. (r, op', st', w', log)) x) \<longleftrightarrow>
     x \<noteq> None \<and> (\<forall>c \<in> set log. call_safe bs c)"
  by (cases x) (simp_all add: attempt_safe_def)

lemma attempt_safe_Some [simp]:
  "attempt_safe bs (Some (r, op', st', w', log)) \<longleftrightarrow> (\<forall>c \<in> set log. call_safe bs c)"
  by (simp add: attempt_safe_def)

lemma call_safe_control [simp]:
  "call_writes c = [] \<Longrightarrow> call_reads c = [] \<Longrightarrow> call_safe bs c"
  by (simp add: call_safe_def)

lemma call_safe_region:
  "spare_region b (p, n) \<Longrightarrow> b \<in> set bs \<Longrightarrow> call_safe bs (WReadFile h p (of_nat n) ov)"
  "data_region b (p, n) \<Longrightarrow> b \<in> set bs \<Longrightarrow> call_safe bs (WWriteFile h p (of_nat n) ov)"
  using spare_region_shrink [of b p n "unat (of_nat n :: u32)"]
    data_region_shrink [of b p n "unat (of_nat n :: u32)"]
  by (auto simp: call_safe_def unat_of_nat)

lemma call_safe_slices:
  assumes "slices_ok sb" "\<forall>b \<in> set (wrapper_into_inner sb). wf_buf b"
  shows "call_safe (wrapper_into_inner sb) (WRecv h (as_io_slices_mut sb) ov)"
    "call_safe (wrapper_into_inner sb) (WRecvFrom h (as_io_slices_mut sb) n ov)"
    "call_safe (wrapper_into_inner sb) (WSend h (as_io_slices sb) ov)"
    "call_safe (wrapper_into_inner sb) (WSendTo h (as_io_slices sb) a ov)"
  using slices_mut_regions [OF assms] slices_regions [OF assms] by (simp_all add: call_safe_def)

lemma get_or_try_init_log:
  "get_or_try_init (logged A) h g m cell (w, log) = (f, cell', w', log') \<Longrightarrow>
   set log' \<subseteq> insert (WIoctl (win_raw h) g) (set log)"
  by (auto simp: get_or_try_init_def get_wsa_fn_def Let_def split: option.splits if_splits)

lemma get_sockopt_error_log:
  "get_sockopt_error (logged A) fd (w, log) =
     (fst (get_sockopt_error A fd w), fst (snd (get_sockopt_error A fd w)),
      snd (snd (get_sockopt_error A fd w)), log @ [WGetSockError fd])"
  by (simp add: get_sockopt_error_def Let_def split: prod.split)

lemma win_close_raw_fd_log:
  "win_close_raw_fd (logged A) N fd (w, log) = (r, w', log') \<Longrightarrow>
   set log' \<subseteq> {WGetSockError fd, WCloseHandle fd, WCloseSocket fd} \<union> set log"
  by (auto simp: win_close_raw_fd_def get_sockopt_error_log Let_def split: sum.splits if_splits prod.splits)

lemma transfer_safe:
  assumes "errors_set A"
  shows "wf_buf (wread_buffer r) \<Longrightarrow> attempt_safe [wread_buffer r] (win_read_operate (logged A) N r ud st (w, []))"
    and "wf_buf (wread_at_buffer ra) \<Longrightarrow>
      attempt_safe [wread_at_buffer ra] (win_read_at_operate (logged A) N ra ud st (w, []))"
    and "wf_buf (wwrite_buffer wr) \<Longrightarrow> attempt_safe [wwrite_buffer wr] (win_write_operate (logged A) N wr ud st (w, []))"
    and "wf_buf (wwrite_at_buffer wa) \<Longrightarrow>
      attempt_safe [wwrite_at_buffer wa] (win_write_at_operate (logged A) N wa ud st (w, []))"
  by (erule uninit_spare_region init_data_region;
      simp add: win_transfer_defs(1-4) Let_def results_defined [OF assms] call_safe_region)+

lemma control_safe:
  assumes "errors_set A"
  shows "attempt_safe [] (win_connect_operate (logged A) N c ud st (w, []))"
    and "attempt_safe [] (win_accept_operate (logged A) N a ud st (w, []))"
proof -
  obtain f cell w1 log where g: "get_or_try_init (logged A) (wconnect_fd c) ''WSAID_CONNECTEX''
      ''cannot retrieve ConnectEx'' (CONNECT_EX st) (w, []) = (f, cell, w1, log)" by (metis prod_cases4)
  have "\<forall>c \<in> set log. call_safe [] c" using get_or_try_init_log [OF g] by auto
  then show "attempt_safe [] (win_connect_operate (logged A) N c ud st (w, []))"
    using g by (cases f) (simp_all add: win_connect_operate_def Let_def results_defined [OF assms])
next
  obtain s w0 log0 where s: "win_accept_socket (logged A) a (w, []) = (s, w0, log0)" by (metis prod_cases3)
  have log0: "\<forall>c \<in> set log0. call_safe [] c"
    using s by (auto simp: win_accept_socket_def Let_def split: if_splits option.splits)
  obtain f cell w1 log where g: "get_or_try_init (logged A) (waccept_fd a) ''WSAID_ACCEPTEX''
      ''cannot retrieve AcceptEx'' (ACCEPT_EX st) (w0, log0) = (f, cell, w1, log)" by (metis prod_cases4)
  have "\<forall>c \<in> set log. call_safe [] c" using get_or_try_init_log [OF g] log0 by auto
  then show "attempt_safe [] (win_accept_operate (logged A) N a ud st (w, []))"
    using g s log0 by (cases s; cases f) (simp_all add: win_accept_operate_def Let_def results_defined [OF assms])
qed

lemma close_safe:
  "attempt_safe [] (win_close_fd_operate (logged A) N fd ud st (w, []))"
  "attempt_safe [] (win_close_opt_operate (logged A) N x ud st (w, []))"
  by (auto simp: win_close_fd_operate_def win_close_opt_operate_def attempt_safe_def Let_def
      split: option.splits prod.splits dest!: win_close_raw_fd_log)

text \<open>
  C26. Starting an operation on Windows is memory safe and does not panic: for well-formed
  buffers and an API that leaves an error code where it fails, the attempt is defined, every
  region a call may fill lies in the spare room of one of the operation's buffers, and every
  region a call sends lies in initialised bytes.
\<close>

theorem win_operate_safe:
  assumes "errors_set A" "win_op_ok op"
  shows "\<exists>r op' st' w' log. win_op_operate (logged A) N op user_data st (w, []) = Some (r, op', st', w', log) \<and>
    (\<forall>c \<in> set log. (\<forall>rg \<in> set (call_writes c). \<exists>b \<in> set (win_op_buffers op). spare_region b rg) \<and>
      (\<forall>rg \<in> set (call_reads c). \<exists>b \<in> set (win_op_buffers op). data_region b rg))"
proof -
  have "attempt_safe (win_op_buffers op) (win_op_operate (logged A) N op user_data st (w, []))"
    using assms(2) transfer_safe [OF assms(1)] control_safe [OF assms(1)] close_safe
    by (cases op)
      (simp_all add: win_op_ok_def win_transfer_defs(5-8) win_sync_operate_def connect_named_pipe_operate_def
        Let_def results_defined [OF assms(1)] call_safe_slices)
  then show ?thesis by (auto simp: attempt_safe_def call_safe_def split: option.splits)
qed

text \<open>An API that answers every call the same way.\<close>

definition zero_reply :: win_reply where
  "zero_reply = \<lparr>wr_ret = 0, wr_error = 0, wr_transferred = 0, wr_code = 0, wr_handle = 0, wr_fn = None,
     wr_remote = [], wr_remote_in_place = True, wr_remote_len = 0\<rparr>"

definition sample_api :: "(win_call \<Rightarrow> win_reply) \<Rightarrow> unit win_api" where
  "sample_api rp = \<lparr>win_call = (\<lambda>c w. (rp c, w)), W_SOCKADDR_STORAGE_SIZE = 128, W_SOCKADDR_SIZE = 16,
     W_INVALID_SOCKET = -1\<rparr>"

definition no_statics :: win_statics where
  "no_statics = \<lparr>CONNECT_EX = None, ACCEPT_EX = None, GET_ADDRS = None\<rparr>"

lemma sample_api_sel [simp]:
  "win_call (sample_api rp) c w = (rp c, w)" "W_SOCKADDR_SIZE (sample_api rp) = 16"
  "W_INVALID_SOCKET (sample_api rp) = -1" "W_SOCKADDR_STORAGE_SIZE (sample_api rp) = 128"
  by (simp_all add: sample_api_def)

theorem win_operate_safe_witness:
  "\<exists>r op' st' w' log. win_op_operate (logged (sample_api (\<lambda>c. zero_reply\<lparr>wr_error := 5\<rparr>))) windows_consts
      (WinRead (win_read_new (WinFd 8) sample_vec)) 3 no_statics ((), []) = Some (r, op', st', w', log) \<and>
    (\<forall>c \<in> set log. \<forall>rg \<in> set (call_writes c). spare_region sample_vec rg)"
proof -
  have "errors_set (sample_api (\<lambda>c. zero_reply\<lparr>wr_error := 5\<rparr>))" by (simp add: errors_set_def)
  moreover have "win_op_ok (WinRead (win_read_new (WinFd 8) sample_vec))"
    by (simp add: win_op_ok_def win_read_new_def sample_vec_def wf_raw_def)
  moreover have "wread_buffer (win_read_new (WinFd 8) sample_vec) = sample_vec" by (simp add: win_read_new_def)
  ultimately show ?thesis
    using win_operate_safe [of "sample_api (\<lambda>c. zero_reply\<lparr>wr_error := 5\<rparr>)" "WinRead (win_read_new (WinFd 8) sample_vec)"
        windows_consts 3 no_statics "()"] by fastforce
qed

subsection \<open>Positions and results\<close>

lemma join_halves:
  "or (push_bit 32 (ucast (ov_offset_high (set_offset ud offset ov)))) (ucast (ov_offset (set_offset ud offset ov))) = offset"
  (is "?l = _")
proof (rule bit_word_eqI)
  fix n assume "n < LENGTH(64)"
  have "and offset 0xFFFFFFFF = take_bit 32 offset" by (simp add: take_bit_eq_mask mask_eq_exp_minus_1)
  then show "bit ?l n = bit offset n"
    using \<open>n < LENGTH(64)\<close> by (auto simp: set_offset_def bit_simps)
qed

text \<open>
  Positional reads and writes reach Windows at the position they were given: the two 32-bit
  halves in the overlapped structure of the call, put together, are the 64-bit offset of the
  operation, and the structure carries the user data.
\<close>

theorem win_offset_roundtrip:
  assumes "op = WinReadAt ra \<and> offset = wread_at_offset ra \<or> op = WinWriteAt wa \<and> offset = wwrite_at_offset wa"
    and "win_op_operate (logged A) N op user_data st (w, []) = Some (r, op', st', w', log)"
  shows "\<exists>h p n ov. (log = [WReadFile h p n ov] \<or> log = [WWriteFile h p n ov]) \<and>
    or (push_bit 32 (ucast (ov_offset_high ov))) (ucast (ov_offset ov)) = offset \<and> ov_user_data ov = user_data"
  using assms
  by (auto simp: lift_win_def win_read_at_operate_def win_write_at_operate_def Let_def join_halves split: bind_splits)
    (simp_all add: set_offset_def)

theorem win_offset_roundtrip_witness:
  "\<exists>r op' st' w' h p n ov.
    win_op_operate (logged (sample_api (\<lambda>c. zero_reply\<lparr>wr_error := 5\<rparr>))) windows_consts
      (WinReadAt (win_read_at_new (WinFd 8) 0x500000007 sample_vec)) 3 no_statics ((), []) =
        Some (r, op', st', w', [WReadFile h p n ov]) \<and>
    or (push_bit 32 (ucast (ov_offset_high ov))) (ucast (ov_offset ov)) = (0x500000007 :: usize)"
proof -
  obtain r op' st' w' h p n ov where s: "win_op_operate (logged (sample_api (\<lambda>c. zero_reply\<lparr>wr_error := 5\<rparr>))) windows_consts
      (WinReadAt (win_read_at_new (WinFd 8) 0x500000007 sample_vec)) 3 no_statics ((), []) =
        Some (r, op', st', w', [WReadFile h p n ov])"
    by (auto simp: lift_win_def win_read_at_operate_def win_read_at_new_def Let_def sample_vec_def as_uninit_slice_def
        raw_capacity_def zero_reply_def windows_consts_def win_result_defs)
  show ?thesis
    using win_offset_roundtrip [OF _ s, where ra = "win_read_at_new (WinFd 8) 0x500000007 sample_vec"
        and offset = "0x500000007"] s by (auto simp: win_read_at_new_def)
qed

text \<open>The operations that move data.\<close>

fun transfers :: "win_op \<Rightarrow> bool" where
  "transfers (WinRead _) = True"
| "transfers (WinReadAt _) = True"
| "transfers (WinWrite _) = True"
| "transfers (WinWriteAt _) = True"
| "transfers (WinRecvVectored _) = True"
| "transfers (WinSendVectored _) = True"
| "transfers (WinRecvMsg _) = True"
| "transfers (WinSendMsg _) = True"
| "transfers _ = False"

text \<open>
  A transfer that Windows completes at once is left pending: when every call succeeds, a
  read, write, send or receive over well-formed buffers is not reported by the attempt, whatever
  number of bytes the call returned; only a packet from the port can complete it, and \<open>attach\<close>
  asks Windows to post no packet in this case.
\<close>

theorem immediate_success_left_pending:
  assumes "\<forall>c w. succeeded c (fst (win_call A c w))" "transfers op" "win_op_ok op"
  shows "\<exists>op' st' w'. win_op_operate A N op user_data st w = Some (Pending, op', st', w')"
proof -
  have [simp]: "bool_call c \<Longrightarrow> wr_ret (fst (win_call A c v)) \<noteq> 0"
    "\<not> bool_call c \<Longrightarrow> wr_ret (fst (win_call A c v)) = 0" for c v
    using assms(1) [rule_format, of c v] by (simp_all add: succeeded_def)
  have regions: "\<exists>p n q m. as_uninit_slice b = Some (p, n) \<and> init_region b = Some (q, m)" if "wf_buf b" for b
    using uninit_spare_region [OF that] init_data_region [OF that] by metis
  show ?thesis
    using assms(2,3)
    by (cases op) (auto simp: win_op_ok_def win_transfer_defs lift_win_def Let_def win32_pending_result_def
      winsock_result_def case_prod_beta dest!: regions)
qed

theorem immediate_success_left_pending_witness:
  "\<exists>op' st' w'. win_op_operate (sample_api (\<lambda>c. zero_reply\<lparr>wr_ret := if bool_call c then 1 else 0, wr_transferred := 3\<rparr>))
      windows_consts (WinRead (win_read_new (WinFd 8) sample_vec)) 3 no_statics () = Some (Pending, op', st', w')"
  by (rule immediate_success_left_pending)
    (simp_all add: succeeded_def win_op_ok_def win_read_new_def sample_vec_def wf_raw_def)

subsection \<open>Closing and accepting\<close>

text \<open>
  A socket without a pending error is closed with \<open>closesocket\<close>, once, and the outcome of that
  call is the outcome of the operation.
\<close>

lemma win_close_socket:
  assumes "wr_ret (fst (win_call A (WGetSockError fd) w)) = 0" "wr_code (fst (win_call A (WGetSockError fd) w)) = 0"
    "win_call A (WCloseSocket fd) (snd (win_call A (WGetSockError fd) w)) = (rp, w')"
  shows "win_close_raw_fd (logged A) N fd (w, []) =
    (if wr_ret rp = 0 then Ok 0 else Err (Os (wr_error rp)), w', [WGetSockError fd, WCloseSocket fd])"
  using assms by (simp add: win_close_raw_fd_def get_sockopt_error_def case_prod_beta)

text \<open>
  A handle that is not a socket is never closed: \<open>getsockopt\<close> fails on it with the return
  value \<open>SOCKET_ERROR\<close>, which is compared with the error code \<open>WSAENOTSOCK\<close>, so the branch with
  \<open>CloseHandle\<close> is not taken; the operation reports an error, and closing through an \<open>Option\<close>
  has dropped the handle by then.
\<close>

theorem win_file_never_closed:
  assumes "W_WSAENOTSOCK N \<noteq> -1" "wr_ret (fst (win_call A (WGetSockError fd) w)) = -1"
  shows "win_op_operate (logged A) N (WinClose (WinFd fd)) user_data st (w, []) =
      Some (Ready (Err (Os (wr_error (fst (win_call A (WGetSockError fd) w))))), WinClose (WinFd fd), st,
        snd (win_call A (WGetSockError fd) w), [WGetSockError fd]) \<and>
    win_op_operate (logged A) N (WinCloseOption (Some fd)) user_data st (w, []) =
      Some (Ready (Err (Os (wr_error (fst (win_call A (WGetSockError fd) w))))), WinCloseOption None, st,
        snd (win_call A (WGetSockError fd) w), [WGetSockError fd])"
  using assms
  by (simp add: lift_win_def win_close_fd_operate_def win_close_opt_operate_def win_close_raw_fd_def
      get_sockopt_error_def case_prod_beta)

theorem win_file_never_closed_witness:
  "win_op_operate (logged (sample_api (\<lambda>c. zero_reply\<lparr>wr_ret := -1, wr_error := 10038\<rparr>))) windows_consts
      (WinCloseOption (Some 8)) 3 no_statics ((), []) =
     Some (Ready (Err (Os 10038)), WinCloseOption None, no_statics, (), [WGetSockError 8])"
  using win_file_never_closed [of windows_consts "sample_api (\<lambda>c. zero_reply\<lparr>wr_ret := -1, wr_error := 10038\<rparr>)" 8 "()"
      3 no_statics] by (simp add: windows_consts_def)

lemma win_accept_operate_log:
  assumes "win_accept_operate (logged A) N op ud st (w, []) = Some (r, op', st', w', log)"
  shows "\<forall>h. WCloseSocket h \<notin> set log \<and> WCloseHandle h \<notin> set log"
proof -
  obtain s w0 log0 where s: "win_accept_socket (logged A) op (w, []) = (s, w0, log0)" by (metis prod_cases3)
  have log0: "\<forall>h. WCloseSocket h \<notin> set log0 \<and> WCloseHandle h \<notin> set log0"
    using s by (auto simp: win_accept_socket_def Let_def split: if_splits option.splits)
  obtain f cell w1 log1 where g: "get_or_try_init (logged A) (waccept_fd op) ''WSAID_ACCEPTEX''
      ''cannot retrieve AcceptEx'' (ACCEPT_EX st) (w0, log0) = (f, cell, w1, log1)" by (metis prod_cases4)
  show ?thesis
    using assms s g log0 get_or_try_init_log [OF g]
    by (cases s; cases f) (auto simp: win_accept_operate_def Let_def)
qed

text \<open>
  An accept that fails leaks the socket it created: from the attempt over \<open>on_accept\<close> with
  the error to the reinitialisation of the operation no handle is closed, and afterwards the
  operation has forgotten the socket.
\<close>

theorem win_accept_error_leaks_socket:
  assumes "win_accept_operate (logged A) N (win_accept_with_socket_opts (logged A) fd domain ty protocol)
      user_data st (w, []) = Some (Ready (Err e), op1, st1, w1, log1)"
  shows "win_on_accept (logged A) op1 (Err e) st1 (w1, log1) = Some (Err e, op1, st1, w1, log1) \<and>
    (\<forall>h. WCloseSocket h \<notin> set log1 \<and> WCloseHandle h \<notin> set log1) \<and>
    waccept_accept_fd (win_accept_init_with_socket_opts (logged A) fd domain ty protocol op1) = W_INVALID_SOCKET A"
  using win_accept_operate_log [OF assms] by (simp add: win_on_accept_def win_accept_init_with_socket_opts_def)

theorem win_accept_error_leaks_socket_witness:
  "\<exists>op1 st1 log1. win_accept_operate (logged (sample_api (\<lambda>c. zero_reply\<lparr>wr_error := 10060, wr_handle := 44, wr_fn := Some 7\<rparr>)))
      windows_consts (win_accept_with_socket_opts (logged (sample_api (\<lambda>c. zero_reply\<lparr>wr_error := 10060, wr_handle := 44,
        wr_fn := Some 7\<rparr>))) (WinFd 8) 2 1 None) 3 no_statics ((), []) =
      Some (Ready (Err (Os 10060)), op1, st1, (), log1) \<and>
    WSocket 2 1 None \<in> set log1 \<and> waccept_accept_fd op1 = 44 \<and> WCloseSocket 44 \<notin> set log1"
proof -
  let ?A = "sample_api (\<lambda>c. zero_reply\<lparr>wr_error := 10060, wr_handle := 44, wr_fn := Some 7\<rparr>)"
  obtain op1 st1 log1 where s: "win_accept_operate (logged ?A) windows_consts
      (win_accept_with_socket_opts (logged ?A) (WinFd 8) 2 1 None) 3 no_statics ((), []) =
      Some (Ready (Err (Os 10060)), op1, st1, (), log1)" "WSocket 2 1 None \<in> set log1" "waccept_accept_fd op1 = 44"
    by (simp add: win_accept_operate_def win_accept_socket_def win_accept_with_socket_opts_def get_or_try_init_def
        get_wsa_fn_def no_statics_def zero_reply_def windows_consts_def win_result_defs Let_def)
  then show ?thesis using win_accept_error_leaks_socket [OF s(1)] by blast
qed

text \<open>
  The copy of the peer address is too long by the size of the element type: when Windows
  reports an address that is not already in place, the number of bytes copied onto the storage is
  the length of the address times the size of \<open>SOCKADDR\<close>; for an address as long as a \<open>SOCKADDR\<close>,
  which is every IPv4 address, that is past the end of a 128 byte storage.
\<close>

theorem win_accept_address_copy_overflows:
  assumes "GET_ADDRS st = Some (Some f)" "win_call A (WGetAddrs f (W_SOCKADDR_STORAGE_SIZE A)) w = (rp, w')"
    "\<not> wr_remote_in_place rp" "0 < sint (wr_remote_len rp)"
    "length (sa_storage (waccept_addr op)) < unat (wr_remote_len rp) * W_SOCKADDR_SIZE A"
  shows "win_accept_as_sockaddr A op st w = None"
proof -
  have "sint (wr_remote_len rp) < 2 ^ 31" using sint_lt [of "wr_remote_len rp"] by simp
  then have "uint (wr_remote_len rp) = sint (wr_remote_len rp)"
    "uint (word_of_int (sint (wr_remote_len rp)) :: usize) = sint (wr_remote_len rp)"
    using assms(4) by (simp_all only: uint_sint [of "wr_remote_len rp"] uint_word_of_int_eq)
      (simp_all add: take_bit_int_eq_self)
  then have "unat (scast (wr_remote_len rp) :: usize) = unat (wr_remote_len rp)"
    by (simp only: unat_eq_nat_uint scast_eq)
  then show ?thesis
    using assms by (simp add: win_accept_as_sockaddr_def get_or_try_init_def copy_onto_def)
qed

theorem win_accept_address_copy_overflows_witness:
  "win_accept_as_sockaddr (sample_api (\<lambda>c. zero_reply\<lparr>wr_remote_in_place := False, wr_remote_len := 16,
      wr_remote := replicate 400 0\<rparr>)) (win_accept_new (sample_api (\<lambda>c. zero_reply)) (WinFd 8) 44)
      (no_statics\<lparr>GET_ADDRS := Some (Some 7)\<rparr>) () = None"
  by (rule win_accept_address_copy_overflows [where f = 7 and w' = "()" and rp = "zero_reply\<lparr>wr_remote_in_place := False,
      wr_remote_len := 16, wr_remote := replicate 400 0\<rparr>"])
    (simp_all add: win_accept_new_def zeroed_addr_def zero_reply_def)

end
