(* ===== verification/Op_Runtime.thy ===== *)
theory Op_Runtime
  imports Driver_Base
begin

text \<open>
  The table of operations in flight, \<open>src/task/op.rs\<close> and \<open>src/key.rs\<close>.

  An operation is leaked from a \<open>Box\<close>; the table and the driver hold the same pointer. Boxes are
  therefore explicit: a heap maps addresses to operations, and the table and the driver hold
  addresses. The crate \<open>slab\<close> is a parameter with its documented laws in \<open>slab_spec\<close>; an
  insertion that would exceed the capacity panics, \<open>None\<close>. A \<open>Waker\<close> is the number of the task
  it wakes.
\<close>

subsection \<open>Keys\<close>

datatype 't key = Key (key_user_data: usize)

definition key_new :: "usize \<Rightarrow> 't key" where
  "key_new user_data = Key user_data"

definition key_new_dummy :: "usize \<Rightarrow> unit key" where
  "key_new_dummy user_data = key_new user_data"

definition key_deref :: "'t key \<Rightarrow> usize" where
  "key_deref k = key_user_data k"

lemma key_simps [simp]:
  "key_deref (Key u) = u" "key_new u = Key u" "key_new_dummy u = Key u"
  by (simp_all add: key_deref_def key_new_def key_new_dummy_def)

subsection \<open>Boxes and slabs\<close>

record 'op op_heap =
  boxes :: "nat \<rightharpoonup> 'op"
  next_box :: nat

definition box_leak :: "'op \<Rightarrow> 'op op_heap \<Rightarrow> nat \<times> 'op op_heap" where
  "box_leak op h = (next_box h, h\<lparr>boxes := (boxes h)(next_box h \<mapsto> op), next_box := Suc (next_box h)\<rparr>)"

text \<open>Reclaiming a box that is not there would be a use after free, \<open>None\<close>.\<close>

definition box_from_raw :: "nat \<Rightarrow> 'op op_heap \<Rightarrow> ('op \<times> 'op op_heap) option" where
  "box_from_raw a h = map_option (\<lambda>op. (op, h\<lparr>boxes := (boxes h)(a := None)\<rparr>)) (boxes h a)"

definition heap_ok :: "'op op_heap \<Rightarrow> bool" where
  "heap_ok h \<longleftrightarrow> (\<forall>a \<in> dom (boxes h). a < next_box h)"

record ('s, 'a) slab =
  slab_new :: 's
  slab_insert :: "'a \<Rightarrow> 's \<Rightarrow> (usize \<times> 's) option"
  slab_get :: "usize \<Rightarrow> 's \<Rightarrow> 'a option"
  slab_put :: "usize \<Rightarrow> 'a \<Rightarrow> 's \<Rightarrow> 's"
  slab_remove :: "usize \<Rightarrow> 's \<Rightarrow> ('a \<times> 's) option"

definition slab_spec :: "('s, 'a) slab \<Rightarrow> bool" where
  "slab_spec S \<longleftrightarrow>
     (\<forall>k. slab_get S k (slab_new S) = None) \<and>
     (\<forall>a s k s'. slab_insert S a s = Some (k, s') \<longrightarrow>
        slab_get S k s = None \<and> (\<forall>j. slab_get S j s' = (if j = k then Some a else slab_get S j s))) \<and>
     (\<forall>k a s j. slab_get S j (slab_put S k a s) =
        (if j = k \<and> slab_get S k s \<noteq> None then Some a else slab_get S j s)) \<and>
     (\<forall>k s. case slab_remove S k s of
        None \<Rightarrow> slab_get S k s = None
      | Some (a, s') \<Rightarrow> slab_get S k s = Some a \<and>
          (\<forall>j. slab_get S j s' = (if j = k then None else slab_get S j s)))"

subsection \<open>The table\<close>

record registered_op =
  reg_op :: "nat option"
  reg_waker :: "nat option"
  reg_result :: "usize io_result option"
  reg_cancelled :: bool

definition registered_op_new :: "nat option \<Rightarrow> registered_op" where
  "registered_op_new op = \<lparr>reg_op = op, reg_waker = None, reg_result = None, reg_cancelled = False\<rparr>"

record 's op_runtime =
  ops :: 's

definition op_insert ::
  "('s, registered_op) slab \<Rightarrow> 'op \<Rightarrow> 's op_runtime \<Rightarrow> 'op op_heap \<Rightarrow>
   (('op key \<times> nat) \<times> 's op_runtime \<times> 'op op_heap) option" where
  "op_insert S op rt h =
     (let (op_ptr, h') = box_leak op h
      in do { (user_data, s) \<leftarrow> slab_insert S (registered_op_new (Some op_ptr)) (ops rt);
              Some ((key_new user_data, op_ptr), rt\<lparr>ops := s\<rparr>, h') })"

definition op_insert_dummy ::
  "('s, registered_op) slab \<Rightarrow> 's op_runtime \<Rightarrow> (unit key \<times> 's op_runtime) option" where
  "op_insert_dummy S rt =
     do { (user_data, s) \<leftarrow> slab_insert S (registered_op_new None) (ops rt);
          Some (key_new_dummy user_data, rt\<lparr>ops := s\<rparr>) }"

definition op_update_waker ::
  "('s, registered_op) slab \<Rightarrow> 't key \<Rightarrow> nat \<Rightarrow> 's op_runtime \<Rightarrow> 's op_runtime" where
  "op_update_waker S key waker rt =
     (case slab_get S (key_deref key) (ops rt) of
        Some op \<Rightarrow> rt\<lparr>ops := slab_put S (key_deref key) (op\<lparr>reg_waker := Some waker\<rparr>) (ops rt)\<rparr>
      | None \<Rightarrow> rt)"

text \<open>
  \<open>remove\<close> at the type of the operation moves the operation out and frees its box. At the type
  \<open>()\<close>, which has no size, \<open>Box::from_raw\<close> frees nothing: the box stays allocated.
\<close>

definition op_remove ::
  "('s, registered_op) slab \<Rightarrow> 'op key \<Rightarrow> 's op_runtime \<Rightarrow> 'op op_heap \<Rightarrow>
   ((usize io_result option \<times> 'op option) \<times> 's op_runtime \<times> 'op op_heap) option" where
  "op_remove S key rt h =
     do { (registered_op, s) \<leftarrow> slab_remove S (key_deref key) (ops rt);
          case reg_op registered_op of
            None \<Rightarrow> Some ((reg_result registered_op, None), rt\<lparr>ops := s\<rparr>, h)
          | Some ptr \<Rightarrow>
              do { (operation, h') \<leftarrow> box_from_raw ptr h;
                   Some ((reg_result registered_op, Some operation), rt\<lparr>ops := s\<rparr>, h') } }"

definition op_remove_dummy ::
  "('s, registered_op) slab \<Rightarrow> unit key \<Rightarrow> 's op_runtime \<Rightarrow>
   ((usize io_result option \<times> unit option) \<times> 's op_runtime) option" where
  "op_remove_dummy S key rt =
     do { (registered_op, s) \<leftarrow> slab_remove S (key_deref key) (ops rt);
          Some ((reg_result registered_op, map_option (\<lambda>_. ()) (reg_op registered_op)), rt\<lparr>ops := s\<rparr>) }"

text \<open>The tasks that are woken are returned as a list.\<close>

definition op_update_result ::
  "('s, registered_op) slab \<Rightarrow> unit key \<Rightarrow> usize io_result \<Rightarrow> 's op_runtime \<Rightarrow>
   (nat list \<times> 's op_runtime) option" where
  "op_update_result S key result rt =
     (case slab_get S (key_deref key) (ops rt) of
        None \<Rightarrow> Some ([], rt)
      | Some op \<Rightarrow>
          (let woken = (case reg_waker op of Some waker \<Rightarrow> [waker] | None \<Rightarrow> []);
               rt' = rt\<lparr>ops := slab_put S (key_deref key) (op\<lparr>reg_waker := None, reg_result := Some result\<rparr>) (ops rt)\<rparr>
           in if reg_cancelled op
              then map_option (\<lambda>(_, rt''). (woken, rt'')) (op_remove_dummy S key rt')
              else Some (woken, rt')))"

definition op_has_result :: "('s, registered_op) slab \<Rightarrow> 't key \<Rightarrow> 's op_runtime \<Rightarrow> bool" where
  "op_has_result S key rt =
     (case slab_get S (key_deref key) (ops rt) of Some op \<Rightarrow> reg_result op \<noteq> None | None \<Rightarrow> False)"

definition op_cancel :: "('s, registered_op) slab \<Rightarrow> 't key \<Rightarrow> 's op_runtime \<Rightarrow> 's op_runtime" where
  "op_cancel S key rt =
     (case slab_get S (key_deref key) (ops rt) of
        Some op \<Rightarrow> rt\<lparr>ops := slab_put S (key_deref key) (op\<lparr>reg_cancelled := True\<rparr>) (ops rt)\<rparr>
      | None \<Rightarrow> rt)"

text \<open>\<open>Extend<Entry>\<close>: what \<open>submit\<close> of a driver feeds with completed entries.\<close>

fun op_extend ::
  "('s, registered_op) slab \<Rightarrow> entry list \<Rightarrow> 's op_runtime \<Rightarrow> (nat list \<times> 's op_runtime) option" where
  "op_extend S [] rt = Some ([], rt)"
| "op_extend S (e # es) rt =
     do { (ws, rt1) \<leftarrow> op_update_result S (key_new_dummy (entry_user_data e)) (entry_result e) rt;
          (ws', rt2) \<leftarrow> op_extend S es rt1;
          Some (ws @ ws', rt2) }"

subsection \<open>What a slab promises\<close>

lemma slab_specD:
  assumes "slab_spec S"
  shows slab_get_new: "slab_get S k (slab_new S) = None"
    and slab_get_insert: "slab_insert S a s = Some (k, s') \<Longrightarrow> slab_get S j s' = (if j = k then Some a else slab_get S j s)"
    and slab_insert_fresh: "slab_insert S a s = Some (k, s') \<Longrightarrow> slab_get S k s = None"
    and slab_get_put: "slab_get S j (slab_put S k a s) = (if j = k \<and> slab_get S k s \<noteq> None then Some a else slab_get S j s)"
    and slab_remove_None: "slab_remove S k s = None \<longleftrightarrow> slab_get S k s = None"
    and slab_removed: "slab_remove S k s = Some (a, s') \<Longrightarrow> slab_get S k s = Some a"
    and slab_get_remove: "slab_remove S k s = Some (a, s') \<Longrightarrow> slab_get S j s' = (if j = k then None else slab_get S j s)"
proof -
  note sp = assms [unfolded slab_spec_def]
  show "slab_get S k (slab_new S) = None" using sp by blast
  show "slab_insert S a s = Some (k, s') \<Longrightarrow> slab_get S j s' = (if j = k then Some a else slab_get S j s)" using sp by blast
  show "slab_insert S a s = Some (k, s') \<Longrightarrow> slab_get S k s = None" using sp by blast
  show "slab_get S j (slab_put S k a s) = (if j = k \<and> slab_get S k s \<noteq> None then Some a else slab_get S j s)"
    using sp by blast
  have r: "case slab_remove S k s of
        None \<Rightarrow> slab_get S k s = None
      | Some (a, s') \<Rightarrow> slab_get S k s = Some a \<and> (\<forall>j. slab_get S j s' = (if j = k then None else slab_get S j s))"
    using sp by blast
  then show "slab_remove S k s = None \<longleftrightarrow> slab_get S k s = None" by (auto split: option.splits)
  show "slab_remove S k s = Some (a, s') \<Longrightarrow> slab_get S k s = Some a"
    "slab_remove S k s = Some (a, s') \<Longrightarrow> slab_get S j s' = (if j = k then None else slab_get S j s)"
    using r by simp_all
qed

text \<open>The table as a map.\<close>

definition table :: "('s, registered_op) slab \<Rightarrow> 's op_runtime \<Rightarrow> usize \<rightharpoonup> registered_op" where
  "table S rt = (\<lambda>k. slab_get S k (ops rt))"

lemma table_ops:
  assumes "slab_spec S"
  shows "op_insert S op rt h = Some ((key, a), rt', h') \<Longrightarrow>
      table S rt' = (table S rt)(key_deref key \<mapsto> registered_op_new (Some a)) \<and>
      table S rt (key_deref key) = None \<and> (a, h') = box_leak op h"
    and "op_insert_dummy S rt = Some (dkey, rt') \<Longrightarrow>
      table S rt' = (table S rt)(key_deref dkey \<mapsto> registered_op_new None) \<and> table S rt (key_deref dkey) = None"
    and "table S (op_update_waker S wkey w rt) = (case table S rt (key_deref wkey) of
        None \<Rightarrow> table S rt | Some r \<Rightarrow> (table S rt)(key_deref wkey \<mapsto> r\<lparr>reg_waker := Some w\<rparr>))"
    and "table S (op_cancel S ckey rt) = (case table S rt (key_deref ckey) of
        None \<Rightarrow> table S rt | Some r \<Rightarrow> (table S rt)(key_deref ckey \<mapsto> r\<lparr>reg_cancelled := True\<rparr>))"
    and "op_remove_dummy S dkey rt = (case table S rt (key_deref dkey) of
        None \<Rightarrow> None | Some r \<Rightarrow> Some ((reg_result r, map_option (\<lambda>_. ()) (reg_op r)),
          rt\<lparr>ops := snd (the (slab_remove S (key_deref dkey) (ops rt)))\<rparr>))"
    and "table S rt k = Some r \<Longrightarrow>
      table S (rt\<lparr>ops := snd (the (slab_remove S k (ops rt)))\<rparr>) = (table S rt)(k := None)"
proof -
  note get = slab_specD [OF assms]
  show "op_insert S op rt h = Some ((key, a), rt', h') \<Longrightarrow>
      table S rt' = (table S rt)(key_deref key \<mapsto> registered_op_new (Some a)) \<and>
      table S rt (key_deref key) = None \<and> (a, h') = box_leak op h"
    by (auto simp: op_insert_def table_def get(2,3) Let_def split: bind_splits prod.splits)
  show "op_insert_dummy S rt = Some (dkey, rt') \<Longrightarrow>
      table S rt' = (table S rt)(key_deref dkey \<mapsto> registered_op_new None) \<and> table S rt (key_deref dkey) = None"
    by (auto simp: op_insert_dummy_def table_def get(2,3) split: bind_splits)
  show "table S (op_update_waker S wkey w rt) = (case table S rt (key_deref wkey) of
        None \<Rightarrow> table S rt | Some r \<Rightarrow> (table S rt)(key_deref wkey \<mapsto> r\<lparr>reg_waker := Some w\<rparr>))"
    by (auto simp: op_update_waker_def table_def get(4) split: option.splits)
  show "table S (op_cancel S ckey rt) = (case table S rt (key_deref ckey) of
        None \<Rightarrow> table S rt | Some r \<Rightarrow> (table S rt)(key_deref ckey \<mapsto> r\<lparr>reg_cancelled := True\<rparr>))"
    by (auto simp: op_cancel_def table_def get(4) split: option.splits)
  show "op_remove_dummy S dkey rt = (case table S rt (key_deref dkey) of
        None \<Rightarrow> None | Some r \<Rightarrow> Some ((reg_result r, map_option (\<lambda>_. ()) (reg_op r)),
          rt\<lparr>ops := snd (the (slab_remove S (key_deref dkey) (ops rt)))\<rparr>))"
    using get(5,6) [of "key_deref dkey" "ops rt"]
    by (cases "slab_remove S (key_deref dkey) (ops rt)") (auto simp: op_remove_dummy_def table_def)
  show "table S (rt\<lparr>ops := snd (the (slab_remove S k (ops rt)))\<rparr>) = (table S rt)(k := None)" if "table S rt k = Some r"
    using that get(5) [of k "ops rt"] get(7) [of k "ops rt"]
    by (cases "slab_remove S k (ops rt)") (auto simp: table_def)
qed

lemma op_update_result_table:
  assumes "slab_spec S"
  shows "\<exists>rt'. op_update_result S key res rt =
      Some (case table S rt (key_deref key) of Some r \<Rightarrow> (case reg_waker r of Some w \<Rightarrow> [w] | None \<Rightarrow> []) | None \<Rightarrow> [], rt') \<and>
    table S rt' = (case table S rt (key_deref key) of
        None \<Rightarrow> table S rt
      | Some r \<Rightarrow> (table S rt)(key_deref key :=
          (if reg_cancelled r then None else Some (r\<lparr>reg_waker := None, reg_result := Some res\<rparr>))))"
proof (cases "table S rt (key_deref key)")
  case None
  then show ?thesis by (simp add: op_update_result_def table_def)
next
  case (Some r)
  let ?rt = "rt\<lparr>ops := slab_put S (key_deref key) (r\<lparr>reg_waker := None, reg_result := Some res\<rparr>) (ops rt)\<rparr>"
  have t: "table S ?rt = (table S rt)(key_deref key \<mapsto> r\<lparr>reg_waker := None, reg_result := Some res\<rparr>)"
    using Some by (auto simp: table_def slab_get_put [OF assms])
  show ?thesis
  proof (cases "reg_cancelled r")
    case True
    then show ?thesis
      using Some t table_ops(5) [OF assms, of key ?rt] table_ops(6) [OF assms, of ?rt "key_deref key"]
      by (simp add: op_update_result_def table_def Let_def)
  next
    case False
    then show ?thesis using Some t by (simp add: op_update_result_def table_def Let_def)
  qed
qed

text \<open>Completions of other operations leave an entry alone; its own completion is recorded.\<close>

lemma op_extend_others:
  assumes "slab_spec S" "op_extend S es rt = Some (ws, rt')" "k \<notin> entry_user_data ` set es"
  shows "table S rt' k = table S rt k"
  using assms(2,3)
proof (induction es arbitrary: rt ws)
  case (Cons e es)
  then obtain ws1 rt1 ws2 where u: "op_update_result S (Key (entry_user_data e)) (entry_result e) rt = Some (ws1, rt1)"
    and "op_extend S es rt1 = Some (ws2, rt')" by (auto split: bind_splits)
  then have "table S rt' k = table S rt1 k" using Cons by auto
  also have "\<dots> = table S rt k"
    using op_update_result_table [OF assms(1), of "Key (entry_user_data e)" "entry_result e" rt] u Cons.prems(2)
    by (auto split: option.splits)
  finally show ?case .
qed simp

lemma op_extend_once:
  assumes "slab_spec S" "op_extend S es rt = Some (ws, rt')" "filter (\<lambda>e. entry_user_data e = k) es = [e]"
    and "table S rt k = Some r" "\<not> reg_cancelled r"
  shows "table S rt' k = Some (r\<lparr>reg_waker := None, reg_result := Some (entry_result e)\<rparr>) \<and>
    set_option (reg_waker r) \<subseteq> set ws"
  using assms(2-4)
proof (induction es arbitrary: rt ws)
  case (Cons x es)
  then obtain ws1 rt1 ws2 where u: "op_update_result S (Key (entry_user_data x)) (entry_result x) rt = Some (ws1, rt1)"
    and x: "op_extend S es rt1 = Some (ws2, rt')" "ws = ws1 @ ws2" by (auto split: bind_splits)
  note t = op_update_result_table [OF assms(1), of "Key (entry_user_data x)" "entry_result x" rt]
  show ?case
  proof (cases "entry_user_data x = k")
    case True
    then have "e = x" "k \<notin> entry_user_data ` set es"
      using Cons.prems(2) by (auto simp: filter_empty_conv)
    then show ?thesis
      using t u x(2) True Cons.prems(3) assms(5) op_extend_others [OF assms(1) x(1)] by (auto split: option.splits)
  next
    case False
    then have "table S rt1 k = Some r" using t u Cons.prems(3) by (auto split: option.splits)
    then show ?thesis using Cons.IH [OF x(1)] Cons.prems(2) False x(2) by auto
  qed
qed simp

subsection \<open>The abstract table\<close>

text \<open>
  What the table is for: an operation is waited for, finished with a result, or abandoned by its
  future. A completion finishes an operation that is waited for, forgets one that is abandoned,
  and wakes the task that waits.
\<close>

datatype op_status =
    Waiting (status_waker: "nat option")
  | Finished (status_waker: "nat option") "usize io_result"
  | Abandoned (status_waker: "nat option")

fun set_waker :: "nat option \<Rightarrow> op_status \<Rightarrow> op_status" where
  "set_waker w (Waiting _) = Waiting w"
| "set_waker w (Finished _ r) = Finished w r"
| "set_waker w (Abandoned _) = Abandoned w"

definition spec_woken :: "op_status option \<Rightarrow> nat list" where
  "spec_woken s = (case Option.bind s status_waker of Some w \<Rightarrow> [w] | None \<Rightarrow> [])"

fun spec_completed :: "usize io_result \<Rightarrow> op_status \<Rightarrow> op_status option" where
  "spec_completed r (Abandoned _) = None"
| "spec_completed r _ = Some (Finished None r)"

definition spec_complete :: "usize \<Rightarrow> usize io_result \<Rightarrow> (usize \<rightharpoonup> op_status) \<Rightarrow> (usize \<rightharpoonup> op_status)" where
  "spec_complete k r m = m(k := Option.bind (m k) (spec_completed r))"

fun spec_extend :: "entry list \<Rightarrow> (usize \<rightharpoonup> op_status) \<Rightarrow> nat list \<times> (usize \<rightharpoonup> op_status)" where
  "spec_extend [] m = ([], m)"
| "spec_extend (e # es) m =
     (let (ws, m') = spec_extend es (spec_complete (entry_user_data e) (entry_result e) m)
      in (spec_woken (m (entry_user_data e)) @ ws, m'))"

definition status :: "registered_op \<Rightarrow> op_status" where
  "status r =
     (if reg_cancelled r then Abandoned (reg_waker r)
      else case reg_result r of None \<Rightarrow> Waiting (reg_waker r) | Some x \<Rightarrow> Finished (reg_waker r) x)"

definition abs_table :: "('s, registered_op) slab \<Rightarrow> 's op_runtime \<Rightarrow> usize \<rightharpoonup> op_status" where
  "abs_table S rt = (\<lambda>k. map_option status (table S rt k))"

lemma status_waker_status [simp]: "status_waker (status r) = reg_waker r"
  by (simp add: status_def split: option.split)

lemma status_simps:
  "status (registered_op_new a) = Waiting None"
  "status (r\<lparr>reg_waker := w\<rparr>) = set_waker w (status r)"
  "status (r\<lparr>reg_cancelled := True\<rparr>) = Abandoned (reg_waker r)"
  "spec_completed x (status r) =
     (if reg_cancelled r then None else Some (status (r\<lparr>reg_waker := None, reg_result := Some x\<rparr>)))"
  by (simp_all add: status_def registered_op_new_def split: option.split)

lemma abs_update_result:
  assumes "slab_spec S"
  shows "\<exists>rt'. op_update_result S key res rt = Some (spec_woken (abs_table S rt (key_deref key)), rt') \<and>
    abs_table S rt' = spec_complete (key_deref key) res (abs_table S rt)"
proof -
  obtain rt' where "op_update_result S key res rt =
      Some (case table S rt (key_deref key) of Some r \<Rightarrow> (case reg_waker r of Some w \<Rightarrow> [w] | None \<Rightarrow> []) | None \<Rightarrow> [], rt')"
    "table S rt' = (case table S rt (key_deref key) of
        None \<Rightarrow> table S rt
      | Some r \<Rightarrow> (table S rt)(key_deref key :=
          (if reg_cancelled r then None else Some (r\<lparr>reg_waker := None, reg_result := Some res\<rparr>))))"
    using op_update_result_table [OF assms] by blast
  then show ?thesis
    by (cases "table S rt (key_deref key)")
      (auto simp: abs_table_def spec_woken_def spec_complete_def status_simps(4) fun_upd_idem)
qed

lemma abs_extend:
  assumes "slab_spec S"
  shows "\<exists>rt'. op_extend S es rt = Some (fst (spec_extend es (abs_table S rt)), rt') \<and>
    abs_table S rt' = snd (spec_extend es (abs_table S rt))"
proof (induction es arbitrary: rt)
  case (Cons e es)
  obtain rt1 where 1: "op_update_result S (key_new_dummy (entry_user_data e)) (entry_result e) rt =
      Some (spec_woken (abs_table S rt (entry_user_data e)), rt1)"
    "abs_table S rt1 = spec_complete (entry_user_data e) (entry_result e) (abs_table S rt)"
    using abs_update_result [OF assms, of "key_new_dummy (entry_user_data e)"] by auto
  obtain rt2 where "op_extend S es rt1 = Some (fst (spec_extend es (abs_table S rt1)), rt2)"
    "abs_table S rt2 = snd (spec_extend es (abs_table S rt1))" using Cons.IH by blast
  then show ?case using 1 by (simp add: case_prod_beta)
qed simp

text \<open>
  C2. The table of operations refines the abstract one: over any slab that keeps its documented
  laws, starting, waiting, cancelling and completing operations commute with the abstraction,
  and feeding the table with completed entries never panics and wakes exactly the waiting tasks.
\<close>

theorem op_runtime_refines:
  assumes "slab_spec S"
  shows "(\<forall>op rt h key a rt' h'. op_insert S op rt h = Some ((key, a), rt', h') \<longrightarrow>
      abs_table S rt (key_deref key) = None \<and> abs_table S rt' = (abs_table S rt)(key_deref key \<mapsto> Waiting None)) \<and>
    (\<forall>rt key w. abs_table S (op_update_waker S key w rt) =
      (abs_table S rt)(key_deref key := map_option (set_waker (Some w)) (abs_table S rt (key_deref key)))) \<and>
    (\<forall>rt key. abs_table S (op_cancel S key rt) =
      (abs_table S rt)(key_deref key := map_option (\<lambda>s. Abandoned (status_waker s)) (abs_table S rt (key_deref key)))) \<and>
    (\<forall>rt es. \<exists>rt'. op_extend S es rt = Some (fst (spec_extend es (abs_table S rt)), rt') \<and>
      abs_table S rt' = snd (spec_extend es (abs_table S rt)))"
proof (intro conjI allI impI)
  fix op rt h key a rt' h' assume "op_insert S op rt h = Some ((key, a), rt', h')"
  note t = table_ops(1) [OF assms this]
  show "abs_table S rt (key_deref key) = None" "abs_table S rt' = (abs_table S rt)(key_deref key \<mapsto> Waiting None)"
    using t by (auto simp: abs_table_def status_simps)
next
  fix rt w and key :: "'t key"
  show "abs_table S (op_update_waker S key w rt) =
      (abs_table S rt)(key_deref key := map_option (set_waker (Some w)) (abs_table S rt (key_deref key)))"
    using table_ops(3) [OF assms, of key w rt]
    by (cases "table S rt (key_deref key)") (auto simp: abs_table_def status_simps)
next
  fix rt and key :: "'u key"
  show "abs_table S (op_cancel S key rt) =
      (abs_table S rt)(key_deref key := map_option (\<lambda>s. Abandoned (status_waker s)) (abs_table S rt (key_deref key)))"
    using table_ops(4) [OF assms, of key rt]
    by (cases "table S rt (key_deref key)") (auto simp: abs_table_def status_simps)
next
  fix rt es
  show "\<exists>rt'. op_extend S es rt = Some (fst (spec_extend es (abs_table S rt)), rt') \<and>
      abs_table S rt' = snd (spec_extend es (abs_table S rt))" by (rule abs_extend [OF assms])
qed

text \<open>A slab as a list of slots, the first free slot is reused.\<close>

definition vec_slab :: "('a option list, 'a) slab" where
  "vec_slab =
     \<lparr>slab_new = [],
      slab_insert = (\<lambda>a s.
        if length s < 2 ^ 63 then
          (case position Option.is_none s of
             Some i \<Rightarrow> Some (of_nat i, s[i := Some a])
           | None \<Rightarrow> Some (of_nat (length s), s @ [Some a]))
        else None),
      slab_get = (\<lambda>k s. if unat k < length s then s ! unat k else None),
      slab_put = (\<lambda>k a s. if unat k < length s \<and> s ! unat k \<noteq> None then s[unat k := Some a] else s),
      slab_remove = (\<lambda>k s.
        if unat k < length s then map_option (\<lambda>a. (a, s[unat k := None])) (s ! unat k) else None)\<rparr>"

lemma unat_of_nat_small: "n < 2 ^ 63 \<Longrightarrow> unat (of_nat n :: usize) = n"
  by (simp add: unat_of_nat take_bit_nat_eq_self)

lemma position_Some: "position P xs = Some i \<Longrightarrow> i < length xs \<and> P (xs ! i)"
  by (induction xs arbitrary: i) (auto split: if_splits)

lemma vec_slab_spec: "slab_spec vec_slab"
proof -
  have ins: "slab_get vec_slab k s = None \<and> (\<forall>j. slab_get vec_slab j s' = (if j = k then Some a else slab_get vec_slab j s))"
    if i: "slab_insert vec_slab a s = Some (k, s')" for a :: 'a and s k s'
  proof -
    have len: "length s < 2 ^ 63" using i by (simp add: vec_slab_def split: if_splits)
    show ?thesis
    proof (cases "position Option.is_none s")
      case None
      then have "k = of_nat (length s)" "s' = s @ [Some a]" using i len by (simp_all add: vec_slab_def)
      moreover have "unat (of_nat (length s) :: usize) = length s" by (rule unat_of_nat_small [OF len])
      ultimately show ?thesis by (auto simp: vec_slab_def nth_append word_unat_eq_iff)
    next
      case (Some n)
      then have n: "k = of_nat n" "s' = s[n := Some a]" "n < length s" "s ! n = None"
        using i len position_Some [OF Some] by (simp_all add: vec_slab_def Option.is_none_def)
      moreover have "unat (of_nat n :: usize) = n" using n(3) len by (intro unat_of_nat_small) simp
      ultimately show ?thesis by (auto simp: vec_slab_def nth_list_update word_unat_eq_iff)
    qed
  qed
  have "slab_get vec_slab j (slab_put vec_slab k a s) =
      (if j = k \<and> slab_get vec_slab k s \<noteq> None then Some a else slab_get vec_slab j s)" for k and a :: 'a and s j
    by (auto simp: vec_slab_def nth_list_update word_unat_eq_iff)
  moreover have "case slab_remove vec_slab k s of
        None \<Rightarrow> slab_get vec_slab k s = None
      | Some (a, s') \<Rightarrow> slab_get vec_slab k s = Some a \<and>
          (\<forall>j. slab_get vec_slab j s' = (if j = k then None else slab_get vec_slab j s))" for k and s :: "'a option list"
    by (auto simp: vec_slab_def nth_list_update word_unat_eq_iff split: option.split)
  moreover have "slab_get vec_slab k (slab_new vec_slab) = (None :: 'a option)" for k by (simp add: vec_slab_def)
  ultimately show ?thesis unfolding slab_spec_def using ins by blast
qed

theorem op_runtime_refines_witness:
  "\<exists>rt'. op_extend vec_slab [entry_new 0 (Ok 5)] \<lparr>ops = [Some ((registered_op_new (Some 9))\<lparr>reg_waker := Some 4\<rparr>)]\<rparr> =
      Some ([4], rt') \<and> abs_table vec_slab rt' 0 = Some (Finished None (Ok 5))"
proof -
  let ?rt = "\<lparr>ops = [Some ((registered_op_new (Some 9))\<lparr>reg_waker := Some 4\<rparr>)]\<rparr>"
  have "spec_extend [entry_new 0 (Ok 5)] (abs_table vec_slab ?rt) =
      ([4], (abs_table vec_slab ?rt)(0 \<mapsto> Finished None (Ok 5)))"
    by (simp add: abs_table_def table_def vec_slab_def spec_complete_def spec_woken_def status_def registered_op_new_def)
  then show ?thesis
    using op_runtime_refines [OF vec_slab_spec, THEN conjunct2, THEN conjunct2, THEN conjunct2, THEN spec, THEN spec,
        of "[entry_new 0 (Ok 5)]" ?rt] by auto
qed

subsection \<open>Boxes are not freed twice\<close>

text \<open>
  The states the table and the heap reach together. The driver writes into the boxes, it does
  not free them. A box is freed by \<open>remove\<close> at the type of the operation only.
\<close>

inductive table_reachable :: "('s, registered_op) slab \<Rightarrow> 's op_runtime \<Rightarrow> 'op op_heap \<Rightarrow> bool"
  for S :: "('s, registered_op) slab" where
  init: "table_reachable S \<lparr>ops = slab_new S\<rparr> \<lparr>boxes = Map.empty, next_box = 0\<rparr>"
| insert: "table_reachable S rt h \<Longrightarrow> op_insert S op rt h = Some ((key, a), rt', h') \<Longrightarrow> table_reachable S rt' h'"
| insert_dummy: "table_reachable S rt h \<Longrightarrow> op_insert_dummy S rt = Some (dkey, rt') \<Longrightarrow> table_reachable S rt' h"
| waker: "table_reachable S rt h \<Longrightarrow> table_reachable S (op_update_waker S (Key k :: 'op key) w rt) h"
| cancel: "table_reachable S rt h \<Longrightarrow> table_reachable S (op_cancel S (Key k :: 'op key) rt) h"
| completed: "table_reachable S rt h \<Longrightarrow> op_extend S es rt = Some (ws, rt') \<Longrightarrow> table_reachable S rt' h"
| remove: "table_reachable S rt h \<Longrightarrow> op_remove S key rt h = Some (out, rt', h') \<Longrightarrow> table_reachable S rt' h'"
| remove_dummy: "table_reachable S rt h \<Longrightarrow> op_remove_dummy S dkey rt = Some (dout, rt') \<Longrightarrow> table_reachable S rt' h"
| written: "table_reachable S rt h \<Longrightarrow> dom (boxes h') = dom (boxes h) \<Longrightarrow> next_box h' = next_box h \<Longrightarrow>
    table_reachable S rt h'"

text \<open>The boxes a table owns, by key.\<close>

definition owned :: "(usize \<rightharpoonup> registered_op) \<Rightarrow> usize \<rightharpoonup> nat" where
  "owned t = (\<lambda>k. Option.bind (t k) reg_op)"

definition table_ok :: "(usize \<rightharpoonup> registered_op) \<Rightarrow> 'op op_heap \<Rightarrow> bool" where
  "table_ok t h \<longleftrightarrow> heap_ok h \<and> ran (owned t) \<subseteq> dom (boxes h) \<and> inj_on (owned t) (dom (owned t))"

lemma owned_update [simp]:
  "owned (t(k \<mapsto> r)) = (owned t)(k := reg_op r)" "owned (t(k := None)) = (owned t)(k := None)"
  by (auto simp: owned_def)

text \<open>Forgetting entries, or changing other fields, keeps the invariant.\<close>

lemma table_ok_forget:
  assumes "table_ok t h" "owned t' \<subseteq>\<^sub>m owned t"
  shows "table_ok t' h"
proof -
  have "ran (owned t') \<subseteq> ran (owned t)" using assms(2) by (force simp: ran_def map_le_def dom_def)
  moreover have "inj_on (owned t') (dom (owned t'))"
    using assms unfolding table_ok_def inj_on_def map_le_def by (metis domIff)
  ultimately show ?thesis using assms(1) by (auto simp: table_ok_def)
qed

lemma owned_update_result:
  assumes "slab_spec S" "op_update_result S key res rt = Some (ws, rt')"
  shows "owned (table S rt') \<subseteq>\<^sub>m owned (table S rt)"
proof -
  have "table S rt' = (case table S rt (key_deref key) of
        None \<Rightarrow> table S rt
      | Some r \<Rightarrow> (table S rt)(key_deref key :=
          (if reg_cancelled r then None else Some (r\<lparr>reg_waker := None, reg_result := Some res\<rparr>))))"
    using op_update_result_table [OF assms(1), of key res rt] assms(2) by auto
  then show ?thesis
    by (cases "table S rt (key_deref key)") (auto simp: map_le_def owned_def)
qed

lemma owned_extend:
  assumes "slab_spec S" "op_extend S es rt = Some (ws, rt')"
  shows "owned (table S rt') \<subseteq>\<^sub>m owned (table S rt)"
  using assms(2)
proof (induction es arbitrary: rt ws)
  case (Cons e es)
  then obtain ws1 rt1 ws2 where
    "op_update_result S (key_new_dummy (entry_user_data e)) (entry_result e) rt = Some (ws1, rt1)"
    "op_extend S es rt1 = Some (ws2, rt')" by (auto split: bind_splits)
  then show ?case using owned_update_result [OF assms(1)] Cons.IH map_le_trans by blast
qed simp

lemma op_remove_table:
  assumes "slab_spec S" "op_remove S key rt h = Some (out, rt', h')"
  obtains r where "table S rt (key_deref key) = Some r" "table S rt' = (table S rt)(key_deref key := None)"
    "next_box h' = next_box h" "boxes h' = (case reg_op r of None \<Rightarrow> boxes h | Some a \<Rightarrow> (boxes h)(a := None))"
    "out = (reg_result r, Option.bind (reg_op r) (boxes h))"
proof -
  obtain r s where r: "slab_remove S (key_deref key) (ops rt) = Some (r, s)" "rt' = rt\<lparr>ops := s\<rparr>"
    using assms(2) by (auto simp: op_remove_def split: bind_splits option.splits)
  have "table S rt (key_deref key) = Some r" using slab_removed [OF assms(1) r(1)] by (simp add: table_def)
  moreover have "table S rt' = (table S rt)(key_deref key := None)"
    using slab_get_remove [OF assms(1) r(1)] r(2) by (auto simp: table_def)
  ultimately show ?thesis
    using that r(1) assms(2) by (auto simp: op_remove_def box_from_raw_def split: option.splits bind_splits)
qed

lemma table_ok_insert:
  assumes "slab_spec S" "op_insert S op rt h = Some ((key, a), rt', h')" "table_ok (table S rt) h"
  shows "table_ok (table S rt') h'"
proof -
  note t = table_ops(1) [OF assms(1) assms(2)]
  let ?m = "owned (table S rt)"
  have a: "a = next_box h" "boxes h' = (boxes h)(a \<mapsto> op)" "next_box h' = Suc (next_box h)"
    using t by (auto simp: box_leak_def)
  then have "a \<notin> ran ?m" using assms(3) by (auto simp: table_ok_def heap_ok_def)
  moreover have "?m (key_deref key) = None" using t by (simp add: owned_def)
  ultimately have "inj_on (?m(key_deref key \<mapsto> a)) (dom (?m(key_deref key \<mapsto> a)))"
    "ran (?m(key_deref key \<mapsto> a)) = insert a (ran ?m)"
    using assms(3) by (auto simp: table_ok_def inj_on_def ranI)
  moreover have "owned (table S rt') = ?m(key_deref key \<mapsto> a)" using t by (simp add: registered_op_new_def)
  ultimately show ?thesis using assms(3) a by (auto simp: table_ok_def heap_ok_def less_Suc_eq)
qed

lemma table_ok_remove:
  assumes "slab_spec S" "op_remove S key rt h = Some (out, rt', h')" "table_ok (table S rt) h"
  shows "table_ok (table S rt') h'"
proof -
  obtain r where r: "table S rt (key_deref key) = Some r" "table S rt' = (table S rt)(key_deref key := None)"
    "next_box h' = next_box h" "boxes h' = (case reg_op r of None \<Rightarrow> boxes h | Some a \<Rightarrow> (boxes h)(a := None))"
    by (rule op_remove_table [OF assms(1) assms(2)])
  have le: "table_ok (table S rt') h"
    by (rule table_ok_forget [OF assms(3)]) (simp add: r(2) map_le_def)
  have "a \<notin> ran (owned (table S rt'))" if "reg_op r = Some a" for a
  proof
    assume "a \<in> ran (owned (table S rt'))"
    then obtain k where k: "k \<noteq> key_deref key" "owned (table S rt) k = Some a"
      unfolding r(2) owned_update by (auto simp: ran_def split: if_splits)
    have "owned (table S rt) (key_deref key) = Some a" using r(1) that by (simp add: owned_def)
    with k assms(3) show False unfolding table_ok_def by (metis domI inj_onD)
  qed
  then show ?thesis
    using le r(3,4) by (auto simp: table_ok_def heap_ok_def split: option.splits)
qed

lemma table_reachable_ok:
  fixes h :: "'op op_heap"
  assumes "slab_spec S" "table_reachable S rt h"
  shows "table_ok (table S rt) h"
  using assms(2)
proof induction
  case init
  then show ?case
    using slab_get_new [OF assms(1)] by (simp add: table_ok_def heap_ok_def table_def owned_def ran_def inj_on_def)
next
  case (insert rt h op key a rt' h')
  show ?case by (rule table_ok_insert [OF assms(1) insert.hyps(2) insert.IH])
next
  case (insert_dummy rt h dkey rt')
  then show ?case
    using table_ops(2) [OF assms(1) insert_dummy.hyps(2)]
    by (auto intro!: table_ok_forget [OF insert_dummy.IH] simp: map_le_def owned_def registered_op_new_def)
next
  case (waker rt h k w)
  then show ?case
    using table_ops(3) [OF assms(1), of "Key k :: 'op key" w rt]
    by (auto intro!: table_ok_forget [OF waker.IH] simp: map_le_def owned_def split: option.splits)
next
  case (cancel rt h k)
  then show ?case
    using table_ops(4) [OF assms(1), of "Key k :: 'op key" rt]
    by (auto intro!: table_ok_forget [OF cancel.IH] simp: map_le_def owned_def split: option.splits)
next
  case (completed rt h es ws rt')
  then show ?case using owned_extend [OF assms(1)] table_ok_forget by blast
next
  case (remove rt h key out rt' h')
  show ?case by (rule table_ok_remove [OF assms(1) remove.hyps(2) remove.IH])
next
  case (remove_dummy rt h dkey dout rt')
  then obtain r where "table S rt (key_deref dkey) = Some r"
    "rt' = rt\<lparr>ops := snd (the (slab_remove S (key_deref dkey) (ops rt)))\<rparr>"
    using table_ops(5) [OF assms(1), of dkey rt] by (auto split: option.splits)
  then have t: "table S rt' = (table S rt)(key_deref dkey := None)" using table_ops(6) [OF assms(1)] by blast
  show ?case by (rule table_ok_forget [OF remove_dummy.IH]) (simp only: t owned_update, simp add: map_le_def)
next
  case (written rt h h')
  then show ?case by (simp add: table_ok_def heap_ok_def)
qed

lemma op_remove_registered:
  assumes "slab_spec S" "table_reachable S rt h" "slab_get S (key_deref key) (ops rt) = Some r" "reg_op r = Some a"
  shows "\<exists>op rt' h'. op_remove S key rt h = Some ((reg_result r, Some op), rt', h') \<and> boxes h a = Some op \<and>
    (\<forall>k r' b. k \<noteq> key_deref key \<and> slab_get S k (ops rt) = Some r' \<and> reg_op r' = Some b \<longrightarrow>
      slab_get S k (ops rt') = Some r' \<and> boxes h' b = boxes h b)"
proof -
  have ok: "table_ok (table S rt) h" by (rule table_reachable_ok [OF assms(1,2)])
  have own: "owned (table S rt) (key_deref key) = Some a" using assms(3,4) by (simp add: owned_def table_def)
  then obtain op where op: "boxes h a = Some op" using ok by (force simp: table_ok_def ran_def)
  obtain s where s: "slab_remove S (key_deref key) (ops rt) = Some (r, s)"
    using assms(3) slab_remove_None [OF assms(1)] slab_removed [OF assms(1)] by (metis not_Some_eq option.inject surj_pair)
  have "b \<noteq> a" if "k \<noteq> key_deref key" "slab_get S k (ops rt) = Some r'" "reg_op r' = Some b" for k r' b
  proof
    assume "b = a"
    then have "owned (table S rt) k = owned (table S rt) (key_deref key)" using own that by (simp add: owned_def table_def)
    with ok own that(1) show False unfolding table_ok_def by (metis domI inj_onD)
  qed
  then show ?thesis
    using s op assms(4) slab_get_remove [OF assms(1) s] by (auto simp: op_remove_def box_from_raw_def)
qed

text \<open>
  C17. The table never frees a box twice and never reads a freed one: in every state the table
  and the heap reach, removing a registered operation succeeds and yields the operation as the
  driver last left it in its box, and no other entry loses its box.
\<close>

theorem registered_op_removable:
  assumes "slab_spec S" "table_reachable S rt h" "slab_get S (key_deref key) (ops rt) = Some r" "reg_op r = Some a"
  shows "\<exists>op rt' h'. op_remove S key rt h = Some ((reg_result r, Some op), rt', h') \<and> boxes h a = Some op \<and>
    (\<forall>k r' b. k \<noteq> key_deref key \<and> slab_get S k (ops rt) = Some r' \<and> reg_op r' = Some b \<longrightarrow>
      slab_get S k (ops rt') = Some r' \<and> boxes h' b = boxes h b)"
  by (rule op_remove_registered [OF assms])

theorem registered_op_removable_witness:
  "\<exists>rt h. op_insert vec_slab (''read'' :: string) \<lparr>ops = []\<rparr> \<lparr>boxes = Map.empty, next_box = 0\<rparr> = Some ((Key 0, 0), rt, h) \<and>
    (\<exists>rt' h'. op_remove vec_slab (Key 0) rt h = Some ((None, Some ''read''), rt', h'))"
proof -
  obtain rt h where i: "op_insert vec_slab (''read'' :: string) \<lparr>ops = []\<rparr> \<lparr>boxes = Map.empty, next_box = 0\<rparr> =
      Some ((Key 0, 0), rt, h)" "rt = \<lparr>ops = [Some (registered_op_new (Some 0))]\<rparr>" "boxes h 0 = Some ''read''"
    by (simp add: op_insert_def box_leak_def vec_slab_def)
  have "table_reachable vec_slab \<lparr>ops = []\<rparr> (\<lparr>boxes = Map.empty, next_box = 0\<rparr> :: string op_heap)"
    using table_reachable.init [of vec_slab] by (simp add: vec_slab_def)
  then have "table_reachable vec_slab rt h" using i(1) by (rule table_reachable.insert)
  from registered_op_removable [OF vec_slab_spec this, of "Key 0" "registered_op_new (Some 0)" 0] i
  show ?thesis by (auto simp: vec_slab_def registered_op_new_def)
qed

end
