(* ===== verification/Runtime.thy ===== *)
theory Runtime
  imports Op_Runtime "HOL-Library.Monad_Syntax"
begin

text \<open>
  The runtime of a thread, \<open>src/task/runtime.rs\<close> and \<open>src/task/mod.rs\<close>, the futures of
  \<open>src/task/op.rs\<close> and the attacher of \<open>src/attacher.rs\<close>.

  The driver is whichever of the three the platform has: a record \<open>driver_ops\<close> of the methods of
  \<open>CompleteIo\<close> the runtime calls. The operations the driver holds are addresses of boxes, so its
  methods get the heap together with the world. Tasks are numbers; running a task, which is user
  code under the crate \<open>async_task\<close>, is a parameter. A panic is \<open>None\<close>; a loop that does not end
  is \<open>None\<close> of the outer option.
\<close>

subsection \<open>The driver as the runtime sees it\<close>

record ('d, 'op, 'w, 'raw, 'fd) driver_ops =
  drv_new :: "'op op_heap \<times> 'w \<Rightarrow> 'd io_result \<times> 'op op_heap \<times> 'w"
  drv_attach :: "'raw \<Rightarrow> 'd \<Rightarrow> 'op op_heap \<times> 'w \<Rightarrow> ('fd io_result \<times> 'd \<times> 'op op_heap \<times> 'w) option"
  drv_try_cancel :: "usize \<Rightarrow> 'd \<Rightarrow> (unit + unit) \<times> 'd"
  drv_try_push_dyn :: "nat op_object \<Rightarrow> 'd \<Rightarrow> 'op op_heap \<times> 'w \<Rightarrow> ((nat op_object + unit) \<times> 'd \<times> 'op op_heap \<times> 'w) option"
  drv_push_queue :: "nat op_object list \<Rightarrow> 'd \<Rightarrow> 'op op_heap \<times> 'w \<Rightarrow> (nat op_object list \<times> 'd \<times> 'op op_heap \<times> 'w) option"
  drv_submit :: "nat option \<Rightarrow> 'd \<Rightarrow> 'op op_heap \<times> 'w \<Rightarrow> ((unit io_result \<times> entry list) \<times> 'd \<times> 'op op_heap \<times> 'w) option"
  drv_timed_out :: "io_error \<Rightarrow> bool"

record ('d, 's, 'op, 'w) runtime =
  rt_driver :: 'd
  runnables :: "nat list"
  unqueued_operations :: "nat op_object list"
  unqueued_cancels :: "usize list"
  rt_ops :: "'s op_runtime"
  rt_heap :: "'op op_heap"
  rt_world :: 'w
  next_task :: nat

definition runtime_new ::
  "('d, 'op, 'w, 'raw, 'fd) driver_ops \<Rightarrow> ('s, registered_op) slab \<Rightarrow> 'w \<Rightarrow> ('d, 's, 'op, 'w) runtime io_result \<times> 'w" where
  "runtime_new D S w =
     (case drv_new D (\<lparr>boxes = Map.empty, next_box = 0\<rparr>, w) of
        (Err e, _, w') \<Rightarrow> (Err e, w')
      | (Ok d, h, w') \<Rightarrow>
          (Ok \<lparr>rt_driver = d, runnables = [], unqueued_operations = [], unqueued_cancels = [],
               rt_ops = \<lparr>ops = slab_new S\<rparr>, rt_heap = h, rt_world = w',
               next_task = 0\<rparr>, w'))"

definition spawn :: "('d, 's, 'op, 'w) runtime \<Rightarrow> nat \<times> ('d, 's, 'op, 'w) runtime" where
  "spawn rt = (next_task rt, rt\<lparr>runnables := runnables rt @ [next_task rt], next_task := Suc (next_task rt)\<rparr>)"

definition runtime_attach ::
  "('d, 'op, 'w, 'raw, 'fd) driver_ops \<Rightarrow> 'raw \<Rightarrow> ('d, 's, 'op, 'w) runtime \<Rightarrow>
   ('fd io_result \<times> ('d, 's, 'op, 'w) runtime) option" where
  "runtime_attach D fd rt =
     do { (r, d, h, w) \<leftarrow> drv_attach D fd (rt_driver rt) (rt_heap rt, rt_world rt);
          Some (r, rt\<lparr>rt_driver := d, rt_heap := h, rt_world := w\<rparr>) }"

text \<open>The future of an operation.\<close>

record 't op_future =
  fut_user_data :: "'t key"
  fut_completed :: bool

definition op_future_new :: "'t key \<Rightarrow> 't op_future" where
  "op_future_new user_data = \<lparr>fut_user_data = user_data, fut_completed = False\<rparr>"

text \<open>\<open>submit\<close> gives the spawned task and its future, here with its key.\<close>

definition runtime_submit ::
  "('d, 'op, 'w, 'raw, 'fd) driver_ops \<Rightarrow> ('s, registered_op) slab \<Rightarrow> 'op \<Rightarrow> ('d, 's, 'op, 'w) runtime \<Rightarrow>
   ((nat \<times> 'op op_future) \<times> ('d, 's, 'op, 'w) runtime) option" where
  "runtime_submit D S op rt =
     do { ((user_data, op_mut), ops', h) \<leftarrow> op_insert S op (rt_ops rt) (rt_heap rt);
          (res, d, h', w) \<leftarrow> drv_try_push_dyn D (op_object_new op_mut (key_deref user_data)) (rt_driver rt) (h, rt_world rt);
          let rt1 = rt\<lparr>rt_ops := ops', rt_heap := h', rt_driver := d, rt_world := w\<rparr>;
              rt2 = (case res of
                       Err op_object \<Rightarrow> rt1\<lparr>unqueued_operations := unqueued_operations rt1 @ [op_object]\<rparr>
                     | Ok _ \<Rightarrow> rt1);
              (task, rt3) = spawn rt2
          in Some ((task, op_future_new user_data), rt3) }"

definition submit_dummy ::
  "('s, registered_op) slab \<Rightarrow> ('d, 's, 'op, 'w) runtime \<Rightarrow> (unit key \<times> ('d, 's, 'op, 'w) runtime) option" where
  "submit_dummy S rt = map_option (\<lambda>(k, ops'). (k, rt\<lparr>rt_ops := ops'\<rparr>)) (op_insert_dummy S (rt_ops rt))"

definition cancel_op ::
  "('d, 'op, 'w, 'raw, 'fd) driver_ops \<Rightarrow> ('s, registered_op) slab \<Rightarrow> 't key \<Rightarrow> ('d, 's, 'op, 'w) runtime \<Rightarrow>
   ('d, 's, 'op, 'w) runtime" where
  "cancel_op D S user_data rt =
     (case drv_try_cancel D (key_deref user_data) (rt_driver rt) of
        (Err _, d) \<Rightarrow> rt\<lparr>rt_driver := d, unqueued_cancels := unqueued_cancels rt @ [key_deref user_data]\<rparr>
      | (Ok _, d) \<Rightarrow> rt\<lparr>rt_driver := d, rt_ops := op_cancel S user_data (rt_ops rt)\<rparr>)"

datatype 'a task_poll = TaskPending | TaskReady 'a

definition poll_task ::
  "('s, registered_op) slab \<Rightarrow> nat \<Rightarrow> 'op key \<Rightarrow> ('d, 's, 'op, 'w) runtime \<Rightarrow>
   ((usize io_result \<times> 'op) task_poll \<times> ('d, 's, 'op, 'w) runtime) option" where
  "poll_task S waker user_data rt =
     (if op_has_result S user_data (rt_ops rt) then
        do { ((maybe_result, maybe_op), ops', h) \<leftarrow> op_remove S user_data (rt_ops rt) (rt_heap rt);
             result \<leftarrow> maybe_result;
             operation \<leftarrow> maybe_op;
             Some (TaskReady (result, operation), rt\<lparr>rt_ops := ops', rt_heap := h\<rparr>) }
      else Some (TaskPending, rt\<lparr>rt_ops := op_update_waker S user_data waker (rt_ops rt)\<rparr>))"

definition poll_dummy ::
  "('s, registered_op) slab \<Rightarrow> nat \<Rightarrow> unit key \<Rightarrow> ('d, 's, 'op, 'w) runtime \<Rightarrow>
   (usize io_result task_poll \<times> ('d, 's, 'op, 'w) runtime) option" where
  "poll_dummy S waker user_data rt =
     (if op_has_result S user_data (rt_ops rt) then
        do { ((maybe_result, _), ops') \<leftarrow> op_remove_dummy S user_data (rt_ops rt);
             result \<leftarrow> maybe_result;
             Some (TaskReady result, rt\<lparr>rt_ops := ops'\<rparr>) }
      else Some (TaskPending, rt\<lparr>rt_ops := op_update_waker S user_data waker (rt_ops rt)\<rparr>))"

fun retry_cancels ::
  "('d, 'op, 'w, 'raw, 'fd) driver_ops \<Rightarrow> usize list \<Rightarrow> 'd \<Rightarrow> usize list \<times> 'd" where
  "retry_cancels D [] d = ([], d)"
| "retry_cancels D (user_data # us) d =
     (case drv_try_cancel D user_data d of
        (Err _, d') \<Rightarrow> (user_data # us, d')
      | (Ok _, d') \<Rightarrow> retry_cancels D us d')"

text \<open>
  \<open>poll\<close>: the entries of \<open>submit\<close> go into the table, which wakes tasks; an error other than a
  timeout panics.
\<close>

definition runtime_poll ::
  "('d, 'op, 'w, 'raw, 'fd) driver_ops \<Rightarrow> ('s, registered_op) slab \<Rightarrow> ('d, 's, 'op, 'w) runtime \<Rightarrow>
   ('d, 's, 'op, 'w) runtime option" where
  "runtime_poll D S rt =
     (let (cancels, d1) = retry_cancels D (unqueued_cancels rt) (rt_driver rt)
      in do { (rest, d2, h2, w2) \<leftarrow> drv_push_queue D (unqueued_operations rt) d1 (rt_heap rt, rt_world rt);
              let timeout = (if rest \<noteq> [] then Some 0 else None);
              ((res, es), d3, h3, w3) \<leftarrow> drv_submit D timeout d2 (h2, w2);
              (woken, ops') \<leftarrow> op_extend S es (rt_ops rt);
              let rt' = rt\<lparr>unqueued_cancels := cancels, unqueued_operations := rest, rt_driver := d3, rt_heap := h3,
                           rt_world := w3, rt_ops := ops', runnables := runnables rt @ woken\<rparr>
              in case res of
                   Ok _ \<Rightarrow> Some rt'
                 | Err e \<Rightarrow> if drv_timed_out D e then Some rt' else None })"

subsection \<open>Futures\<close>

definition op_future_poll ::
  "('s, registered_op) slab \<Rightarrow> nat \<Rightarrow> 'op op_future \<Rightarrow> ('d, 's, 'op, 'w) runtime \<Rightarrow>
   ((usize io_result \<times> 'op) task_poll \<times> 'op op_future \<times> ('d, 's, 'op, 'w) runtime) option" where
  "op_future_poll S waker f rt =
     map_option (\<lambda>(res, rt'). (res, if res = TaskPending then f else f\<lparr>fut_completed := True\<rparr>, rt'))
       (poll_task S waker (fut_user_data f) rt)"

definition op_future_poll_dummy ::
  "('s, registered_op) slab \<Rightarrow> nat \<Rightarrow> unit op_future \<Rightarrow> ('d, 's, 'op, 'w) runtime \<Rightarrow>
   (usize io_result task_poll \<times> unit op_future \<times> ('d, 's, 'op, 'w) runtime) option" where
  "op_future_poll_dummy S waker f rt =
     map_option (\<lambda>(res, rt'). (res, if res = TaskPending then f else f\<lparr>fut_completed := True\<rparr>, rt'))
       (poll_dummy S waker (fut_user_data f) rt)"

definition op_future_drop ::
  "('d, 'op, 'w, 'raw, 'fd) driver_ops \<Rightarrow> ('s, registered_op) slab \<Rightarrow> 't op_future \<Rightarrow> ('d, 's, 'op, 'w) runtime \<Rightarrow>
   ('d, 's, 'op, 'w) runtime" where
  "op_future_drop D S f rt = (if fut_completed f then rt else cancel_op D S (fut_user_data f) rt)"

subsection \<open>Blocking on a future\<close>

text \<open>
  \<open>run t rt\<close> runs task \<open>t\<close> once; it yields the output of the future that is blocked on when the
  task completes it.
\<close>

partial_function (option) run_tasks ::
  "(nat \<Rightarrow> ('d, 's, 'op, 'w) runtime \<Rightarrow> ('r option \<times> ('d, 's, 'op, 'w) runtime) option) \<Rightarrow>
   'r option \<Rightarrow> ('d, 's, 'op, 'w) runtime \<Rightarrow> ('r option \<times> ('d, 's, 'op, 'w) runtime) option option" where
  "run_tasks run result rt =
     (case runnables rt of
        [] \<Rightarrow> Some (Some (result, rt))
      | task # ts \<Rightarrow>
          (case run task (rt\<lparr>runnables := ts\<rparr>) of
             None \<Rightarrow> Some None
           | Some (out, rt') \<Rightarrow> run_tasks run (case out of Some r \<Rightarrow> Some r | None \<Rightarrow> result) rt'))"

partial_function (option) block_on_loop ::
  "('d, 'op, 'w, 'raw, 'fd) driver_ops \<Rightarrow> ('s, registered_op) slab \<Rightarrow>
   (nat \<Rightarrow> ('d, 's, 'op, 'w) runtime \<Rightarrow> ('r option \<times> ('d, 's, 'op, 'w) runtime) option) \<Rightarrow>
   ('d, 's, 'op, 'w) runtime \<Rightarrow> ('r \<times> ('d, 's, 'op, 'w) runtime) option option" where
  "block_on_loop D S run rt =
     Option.bind (run_tasks run None rt) (\<lambda>x. case x of
        None \<Rightarrow> Some None
      | Some (Some r, rt') \<Rightarrow> Some (Some (r, rt'))
      | Some (None, rt') \<Rightarrow>
          (case runtime_poll D S rt' of
             None \<Rightarrow> Some None
           | Some rt'' \<Rightarrow> block_on_loop D S run rt''))"

definition block_on ::
  "('d, 'op, 'w, 'raw, 'fd) driver_ops \<Rightarrow> ('s, registered_op) slab \<Rightarrow>
   (nat \<Rightarrow> nat \<Rightarrow> ('d, 's, 'op, 'w) runtime \<Rightarrow> ('r option \<times> ('d, 's, 'op, 'w) runtime) option) \<Rightarrow>
   ('d, 's, 'op, 'w) runtime \<Rightarrow> ('r \<times> ('d, 's, 'op, 'w) runtime) option option" where
  "block_on D S run rt = (let (main, rt') = spawn rt in block_on_loop D S (run main) rt')"

subsection \<open>Attaching once\<close>

record 'fd attacher =
  once :: "'fd option"

definition attacher_new :: "'fd attacher" where
  "attacher_new = \<lparr>once = None\<rparr>"

text \<open>
  \<open>attach\<close> gets the method of the runtime of the thread, \<open>runtime_attach\<close>, as an argument, on a
  driver whose \<open>attach\<close> does not panic; only
  the first success calls it.
\<close>

definition attacher_attach ::
  "('raw \<Rightarrow> 'w \<Rightarrow> 'fd io_result \<times> 'w) \<Rightarrow> 'raw \<Rightarrow> 'fd attacher \<Rightarrow> 'w \<Rightarrow> 'fd io_result \<times> 'fd attacher \<times> 'w" where
  "attacher_attach att source at w =
     (case once at of
        Some fd \<Rightarrow> (Ok fd, at, w)
      | None \<Rightarrow>
          (case att source w of
             (Err e, w') \<Rightarrow> (Err e, at, w')
           | (Ok fd, w') \<Rightarrow> (Ok fd, at\<lparr>once := Some fd\<rparr>, w')))"

lemma attach_once:
  "attacher_attach att source at w = (Ok fd, at', w') \<Longrightarrow> attacher_attach att2 source2 at' w2 = (Ok fd, at', w2)"
  by (auto simp: attacher_attach_def split: option.splits prod.splits sum.splits)

end
