(* ===== verification/Runtime_Spec.thy ===== *)
theory Runtime_Spec
  imports Runtime
begin

text \<open>
  What the runtime guarantees: completed operations reach their futures, nothing is lost between
  the runtime and the driver, and blocking on a future leaves no task waiting; and where it fails
  to: cancelled operations.

  The locale \<open>complete_io\<close> is what the runtime relies on in a driver, in terms of the user data
  the driver holds; the three drivers interpret it.
\<close>

subsection \<open>One turn of the runtime\<close>

text \<open>What \<open>submit\<close> is called with in a \<open>poll\<close>, and the entries it reports.\<close>

definition poll_call ::
  "('d, 'op, 'w, 'raw, 'fd) driver_ops \<Rightarrow> ('d, 's, 'op, 'w) runtime \<Rightarrow> (nat option \<times> 'd \<times> 'op op_heap \<times> 'w) option" where
  "poll_call D rt =
     (let (cancels, d1) = retry_cancels D (unqueued_cancels rt) (rt_driver rt)
      in do { (rest, d2, hw2) \<leftarrow> drv_push_queue D (unqueued_operations rt) d1 (rt_heap rt, rt_world rt);
              Some (if rest \<noteq> [] then Some 0 else None, d2, hw2) })"

definition poll_entries ::
  "('d, 'op, 'w, 'raw, 'fd) driver_ops \<Rightarrow> ('d, 's, 'op, 'w) runtime \<Rightarrow> entry list option" where
  "poll_entries D rt =
     do { (timeout, d, hw) \<leftarrow> poll_call D rt;
          ((res, es), d', hw') \<leftarrow> drv_submit D timeout d hw;
          Some es }"

lemma runtime_pollE:
  assumes "runtime_poll D S rt = Some rt'"
  obtains cancels d1 rest d2 h2 w2 res es d3 h3 w3 woken ops' where
    "retry_cancels D (unqueued_cancels rt) (rt_driver rt) = (cancels, d1)"
    "drv_push_queue D (unqueued_operations rt) d1 (rt_heap rt, rt_world rt) = Some (rest, d2, h2, w2)"
    "drv_submit D (if rest \<noteq> [] then Some 0 else None) d2 (h2, w2) = Some ((res, es), d3, h3, w3)"
    "op_extend S es (rt_ops rt) = Some (woken, ops')"
    "rt' = rt\<lparr>unqueued_cancels := cancels, unqueued_operations := rest, rt_driver := d3, rt_heap := h3,
              rt_world := w3, rt_ops := ops', runnables := runnables rt @ woken\<rparr>"
    "poll_entries D rt = Some es" "poll_call D rt = Some (if rest \<noteq> [] then Some 0 else None, d2, h2, w2)"
    "\<forall>e. res = Err e \<longrightarrow> drv_timed_out D e"
proof -
  obtain cancels d1 where c: "retry_cancels D (unqueued_cancels rt) (rt_driver rt) = (cancels, d1)" by (rule prod.exhaust)
  obtain rest d2 h2 w2 where
    p: "drv_push_queue D (unqueued_operations rt) d1 (rt_heap rt, rt_world rt) = Some (rest, d2, h2, w2)"
    using assms c by (cases "drv_push_queue D (unqueued_operations rt) d1 (rt_heap rt, rt_world rt)")
      (auto simp: runtime_poll_def)
  let ?t = "if rest \<noteq> [] then Some 0 else None"
  obtain res es d3 h3 w3 where s: "drv_submit D ?t d2 (h2, w2) = Some ((res, es), d3, h3, w3)"
    using assms c p by (cases "drv_submit D ?t d2 (h2, w2)") (auto simp: runtime_poll_def)
  obtain woken ops' where e: "op_extend S es (rt_ops rt) = Some (woken, ops')"
    using assms c p s by (cases "op_extend S es (rt_ops rt)") (auto simp: runtime_poll_def)
  have r: "rt' = rt\<lparr>unqueued_cancels := cancels, unqueued_operations := rest, rt_driver := d3, rt_heap := h3,
              rt_world := w3, rt_ops := ops', runnables := runnables rt @ woken\<rparr>"
    "\<forall>e. res = Err e \<longrightarrow> drv_timed_out D e"
    using assms c p s e by (simp_all add: runtime_poll_def Let_def split: sum.splits if_splits)
  have call: "poll_call D rt = Some (?t, d2, h2, w2)" using c p by (simp add: poll_call_def)
  then have es: "poll_entries D rt = Some es" using s by (simp add: poll_entries_def)
  show ?thesis by (rule that [OF c p s e r(1) es call r(2)])
qed

text \<open>A driver that allocates no boxes and frees none.\<close>

definition keeps_boxes :: "('d, 'op, 'w, 'raw, 'fd) driver_ops \<Rightarrow> bool" where
  "keeps_boxes D \<longleftrightarrow>
     (\<forall>x d h w r d' h' w'. drv_try_push_dyn D x d (h, w) = Some (r, d', h', w') \<longrightarrow>
        dom (boxes h') = dom (boxes h) \<and> next_box h' = next_box h) \<and>
     (\<forall>xs d h w rest d' h' w'. drv_push_queue D xs d (h, w) = Some (rest, d', h', w') \<longrightarrow>
        dom (boxes h') = dom (boxes h) \<and> next_box h' = next_box h) \<and>
     (\<forall>t d h w r d' h' w'. drv_submit D t d (h, w) = Some (r, d', h', w') \<longrightarrow>
        dom (boxes h') = dom (boxes h) \<and> next_box h' = next_box h)"

text \<open>A driver that keeps a property of the operations in their boxes.\<close>

definition box_has :: "('op \<Rightarrow> bool) \<Rightarrow> nat \<Rightarrow> 'op op_heap \<Rightarrow> bool" where
  "box_has P a h \<longleftrightarrow> (\<exists>op. boxes h a = Some op \<and> P op)"

definition keeps_ops :: "('op \<Rightarrow> bool) \<Rightarrow> ('d, 'op, 'w, 'raw, 'fd) driver_ops \<Rightarrow> bool" where
  "keeps_ops P D \<longleftrightarrow>
     (\<forall>x d h w r d' h' w' a. drv_try_push_dyn D x d (h, w) = Some (r, d', h', w') \<longrightarrow> box_has P a h \<longrightarrow> box_has P a h') \<and>
     (\<forall>xs d h w rest d' h' w' a. drv_push_queue D xs d (h, w) = Some (rest, d', h', w') \<longrightarrow> box_has P a h \<longrightarrow> box_has P a h') \<and>
     (\<forall>t d h w r d' h' w' a. drv_submit D t d (h, w) = Some (r, d', h', w') \<longrightarrow> box_has P a h \<longrightarrow> box_has P a h')"

lemma keeps_opsD:
  assumes "keeps_ops P D"
  shows "drv_try_push_dyn D x d (h, w) = Some (r, d', h', w') \<Longrightarrow> box_has P a h \<Longrightarrow> box_has P a h'"
    "drv_push_queue D xs d (h, w) = Some (rest, d', h', w') \<Longrightarrow> box_has P a h \<Longrightarrow> box_has P a h'"
    "drv_submit D t d (h, w) = Some (out, d', h', w') \<Longrightarrow> box_has P a h \<Longrightarrow> box_has P a h'"
  by (rule assms [unfolded keeps_ops_def, THEN conjunct1, rule_format]
      assms [unfolded keeps_ops_def, THEN conjunct2, THEN conjunct1, rule_format]
      assms [unfolded keeps_ops_def, THEN conjunct2, THEN conjunct2, rule_format]; assumption)+

definition runtime_ok :: "('s, registered_op) slab \<Rightarrow> ('d, 's, 'op, 'w) runtime \<Rightarrow> bool" where
  "runtime_ok S rt \<longleftrightarrow> table_reachable S (rt_ops rt) (rt_heap rt)"

lemma runtime_poll_ok:
  assumes "keeps_boxes D" "runtime_ok S rt" "runtime_poll D S rt = Some rt'"
  shows "runtime_ok S rt'"
  using assms(3)
proof (rule runtime_pollE)
  fix rest d1 d2 h2 w2 res es d3 h3 w3 woken ops' cancels
  assume p: "drv_push_queue D (unqueued_operations rt) d1 (rt_heap rt, rt_world rt) = Some (rest, d2, h2, w2)"
    and s: "drv_submit D (if rest \<noteq> [] then Some 0 else None) d2 (h2, w2) = Some ((res, es), d3, h3, w3)"
    and e: "op_extend S es (rt_ops rt) = Some (woken, ops')"
    and rt': "rt' = rt\<lparr>unqueued_cancels := cancels, unqueued_operations := rest, rt_driver := d3, rt_heap := h3,
              rt_world := w3, rt_ops := ops', runnables := runnables rt @ woken\<rparr>"
  have "dom (boxes h3) = dom (boxes (rt_heap rt))" "next_box h3 = next_box (rt_heap rt)"
    using assms(1) p s unfolding keeps_boxes_def by metis+
  then have "table_reachable S ops' h3"
    using assms(2) e table_reachable.completed table_reachable.written unfolding runtime_ok_def by metis
  then show ?thesis using rt' by (simp add: runtime_ok_def)
qed

lemma delivered:
  assumes "slab_spec S" "keeps_boxes D" "runtime_ok S rt" "runtime_poll D S rt = Some rt'" "poll_entries D rt = Some es"
    and "filter (\<lambda>e. entry_user_data e = k) es = [e]" "slab_get S k (ops (rt_ops rt)) = Some r"
    and "reg_op r = Some a" "reg_waker r = Some t" "\<not> reg_cancelled r"
  shows "t \<in> set (runnables rt') \<and>
    (\<exists>op rt''. poll_task S waker (Key k) rt' = Some (TaskReady (entry_result e, op), rt'') \<and>
      boxes (rt_heap rt') a = Some op \<and> rt_driver rt'' = rt_driver rt' \<and> slab_get S k (ops (rt_ops rt'')) = None \<and>
      boxes (rt_heap rt'') = (boxes (rt_heap rt'))(a := None))"
proof -
  obtain ws where ext: "op_extend S es (rt_ops rt) = Some (ws, rt_ops rt')" "runnables rt' = runnables rt @ ws"
    by (rule runtime_pollE [OF assms(4)]) (use assms(5) in simp)
  have "table S (rt_ops rt) k = Some r" using assms(7) by (simp add: table_def)
  note once = op_extend_once [OF assms(1) ext(1) assms(6) this assms(10)]
  then have t: "t \<in> set (runnables rt')" using assms(9) ext(2) by auto
  let ?r = "r\<lparr>reg_waker := None, reg_result := Some (entry_result e)\<rparr>"
  have get: "slab_get S (key_deref (Key k)) (ops (rt_ops rt')) = Some ?r" using once by (simp add: table_def)
  have ok: "table_reachable S (rt_ops rt') (rt_heap rt')"
    using runtime_poll_ok [OF assms(2,3,4)] by (simp add: runtime_ok_def)
  have "reg_op ?r = Some a" using assms(8) by simp
  from op_remove_registered [OF assms(1) ok get this] obtain op o' h' where
    rm: "op_remove S (Key k) (rt_ops rt') (rt_heap rt') = Some ((Some (entry_result e), Some op), o', h')"
    "boxes (rt_heap rt') a = Some op" by auto
  obtain r2 where r2: "table S (rt_ops rt') k = Some r2" "table S o' = (table S (rt_ops rt'))(k := None)"
    "boxes h' = (case reg_op r2 of None \<Rightarrow> boxes (rt_heap rt') | Some a \<Rightarrow> (boxes (rt_heap rt'))(a := None))"
    by (rule op_remove_table [OF assms(1) rm(1), unfolded key_simps], rule that)
  then have "r2 = ?r" using get by (simp add: table_def)
  moreover have "slab_get S k (ops o') = None" using fun_cong [OF r2(2), of k] by (simp add: table_def)
  ultimately show ?thesis
    using t rm get r2(3) assms(8) by (simp add: poll_task_def op_has_result_def)
qed

text \<open>
  The whole turn of an operation: submitted, waited for, reported once by the driver, delivered.
\<close>

lemma submitted_op:
  assumes "slab_spec S" "keeps_boxes D" "keeps_ops P D" "runtime_ok S rt" "P op"
    and "runtime_submit D S op rt = Some ((task, f), rt1)"
  obtains a where "runtime_ok S rt1" "box_has P a (rt_heap rt1)" "\<not> fut_completed f"
    "table S (rt_ops rt1) (key_deref (fut_user_data f)) = Some (registered_op_new (Some a))"
proof -
  obtain key a ops' h res d h' w where
    i: "op_insert S op (rt_ops rt) (rt_heap rt) = Some ((key, a), ops', h)" and
    p: "drv_try_push_dyn D (op_object_new a (key_deref key)) (rt_driver rt) (h, rt_world rt) = Some (res, d, h', w)"
    using assms(6) by (auto simp: runtime_submit_def split: bind_splits)
  have eq: "rt_ops rt1 = ops'" "rt_heap rt1 = h'" "f = op_future_new key"
    using assms(6) i p by (cases res; auto simp: runtime_submit_def spawn_def Let_def)+
  have "table_reachable S ops' h" using assms(4) i table_reachable.insert unfolding runtime_ok_def by metis
  moreover have "dom (boxes h') = dom (boxes h)" "next_box h' = next_box h"
    using assms(2) p unfolding keeps_boxes_def by metis+
  ultimately have ok: "table_reachable S ops' h'" by (rule table_reachable.written)
  note t = table_ops(1) [OF assms(1) i]
  have "box_has P a h" using t assms(5) by (auto simp: box_has_def box_leak_def)
  then have "box_has P a h'" by (rule keeps_opsD(1) [OF assms(3) p])
  then show ?thesis using that [of a] ok t by (simp add: runtime_ok_def eq op_future_new_def)
qed

lemma poll_keeps_op:
  assumes "keeps_ops P D" "runtime_poll D S rt = Some rt'" "box_has P a (rt_heap rt)"
  shows "box_has P a (rt_heap rt')"
proof -
  obtain d1 rest d2 h2 w2 t r d3 w3 where
    p: "drv_push_queue D (unqueued_operations rt) d1 (rt_heap rt, rt_world rt) = Some (rest, d2, h2, w2)" and
    s: "drv_submit D t d2 (h2, w2) = Some (r, d3, rt_heap rt', w3)"
    by (rule runtime_pollE [OF assms(2)]) simp
  show ?thesis by (rule keeps_opsD(3) [OF assms(1) s keeps_opsD(2) [OF assms(1) p assms(3)]])
qed

lemma op_turn:
  fixes op :: 'op
  assumes "slab_spec S" "keeps_boxes D" "keeps_ops P D" "runtime_ok S rt" "P op"
    and "runtime_submit D S op rt = Some ((task, f), rt1)" "op_future_poll S waker f rt1 = Some (p, f', rt2)"
    and "runtime_poll D S rt2 = Some rt3" "poll_entries D rt2 = Some es"
    and "filter (\<lambda>e. entry_user_data e = key_deref (fut_user_data f)) es = [e]"
  shows "p = TaskPending \<and> waker \<in> set (runnables rt3) \<and>
    (\<exists>op' f'' rt4. op_future_poll S waker f' rt3 = Some (TaskReady (entry_result e, op'), f'', rt4) \<and> P op' \<and>
      fut_completed f'' \<and> slab_get S (key_deref (fut_user_data f)) (ops (rt_ops rt4)) = None)"
proof -
  obtain k where k: "fut_user_data f = Key k" by (cases "fut_user_data f")
  obtain a where a: "runtime_ok S rt1" "box_has P a (rt_heap rt1)" "table S (rt_ops rt1) k = Some (registered_op_new (Some a))"
    by (rule submitted_op [OF assms(1-6)]) (simp add: k)
  then have get: "slab_get S k (ops (rt_ops rt1)) = Some (registered_op_new (Some a))" by (simp add: table_def)
  then have 1: "p = TaskPending" "f' = f" "rt2 = rt1\<lparr>rt_ops := op_update_waker S (Key k :: 'op key) waker (rt_ops rt1)\<rparr>"
    using assms(7) by (auto simp: op_future_poll_def poll_task_def op_has_result_def registered_op_new_def k)
  have ok2: "runtime_ok S rt2" using a(1) table_reachable.waker unfolding runtime_ok_def 1(3) by auto
  have get2: "slab_get S k (ops (rt_ops rt2)) = Some ((registered_op_new (Some a))\<lparr>reg_waker := Some waker\<rparr>)"
    using fun_cong [OF table_ops(3) [OF assms(1), of "Key k" waker "rt_ops rt1"], of k] a(3) by (simp add: 1(3) table_def)
  have "box_has P a (rt_heap rt2)" using a(2) by (simp add: 1(3))
  then have box: "box_has P a (rt_heap rt3)" by (rule poll_keeps_op [OF assms(3,8)])
  have "filter (\<lambda>e. entry_user_data e = k) es = [e]" using assms(10) k by simp
  from delivered [OF assms(1,2) ok2 assms(8,9) this get2, where waker = waker, of a waker] box 1(1,2) k show ?thesis
    by (auto simp: registered_op_new_def op_future_poll_def box_has_def)
qed

subsection \<open>The driver contract\<close>

text \<open>Draining the front of a queue, and removing the first operation with some user data.\<close>

lemma op_uds_take_drop: "op_uds (drop n xs) + op_uds (take n xs) = op_uds xs"
  by (metis add.commute append_take_drop_id uds_simps(3))

lemma count_remove_first:
  "v \<noteq> u \<Longrightarrow> count (op_uds (remove_first (\<lambda>x. obj_user_data x = u) xs)) v = count (op_uds xs) v"
  by (induction xs) auto

text \<open>
  \<open>holds d w\<close> is the user data of the operations the driver and the system behind it have and have
  not reported; \<open>silent t d\<close> tells for which user data the call of \<open>submit\<close> may drop a report.
\<close>

locale complete_io =
  fixes D :: "('d, 'op, 'w, 'raw, 'fd) driver_ops"
    and invar :: "'d \<Rightarrow> bool"
    and holds :: "'d \<Rightarrow> 'w \<Rightarrow> usize multiset"
    and silent :: "nat option \<Rightarrow> 'd \<Rightarrow> usize \<Rightarrow> bool"
  assumes push_law: "invar d \<Longrightarrow> drv_try_push_dyn D x d (h, w) = Some (r, d', h', w') \<Longrightarrow>
      invar d' \<and> (case r of
        Err x' \<Rightarrow> obj_user_data x' = obj_user_data x \<and> holds d' w' = holds d w
      | Ok _ \<Rightarrow> holds d' w' = add_mset (obj_user_data x) (holds d w))"
    and push_queue_law: "invar d \<Longrightarrow> drv_push_queue D xs d (h, w) = Some (rest, d', h', w') \<Longrightarrow>
      invar d' \<and> holds d' w' + op_uds rest = holds d w + op_uds xs"
    and cancel_law: "invar d \<Longrightarrow> drv_try_cancel D u d = (c, d') \<Longrightarrow>
      invar d' \<and> (\<forall>v. v \<noteq> u \<longrightarrow> count (holds d' w) v = count (holds d w) v)"
    and submit_law: "invar d \<Longrightarrow> drv_submit D t d (h, w) = Some ((res, es), d', h', w') \<Longrightarrow>
      invar d' \<and> (\<forall>v. \<not> silent t d v \<longrightarrow> count (holds d w) v \<le> count (entry_uds es + holds d' w') v) \<and>
      set_mset (entry_uds es) \<subseteq> set_mset (holds d w)"
begin

lemma retry_cancels_others:
  assumes "invar d" "retry_cancels D us d = (us', d')"
  shows "invar d' \<and> (\<forall>v. v \<notin> set us \<longrightarrow> count (holds d' w) v = count (holds d w) v)"
  using assms
proof (induction us arbitrary: d)
  case (Cons u us)
  obtain c d1 where c: "drv_try_cancel D u d = (c, d1)" by (rule prod.exhaust)
  note l = cancel_law [OF Cons.prems(1) c, of w]
  show ?case
  proof (cases c)
    case (Inl a)
    then show ?thesis using c l Cons.prems(2) by auto
  next
    case (Inr b)
    then have "retry_cancels D us d1 = (us', d')" using c Cons.prems(2) by simp
    then show ?thesis using Cons.IH [of d1] l by auto
  qed
qed simp

lemma submit_registers:
  assumes "invar (rt_driver rt)" "runtime_submit D S op rt = Some ((task, f), rt')"
  shows "invar (rt_driver rt') \<and> op_uds (unqueued_operations rt') + holds (rt_driver rt') (rt_world rt') =
    add_mset (key_deref (fut_user_data f)) (op_uds (unqueued_operations rt) + holds (rt_driver rt) (rt_world rt))"
proof -
  obtain key a ops' h res d h' w where
    i: "op_insert S op (rt_ops rt) (rt_heap rt) = Some ((key, a), ops', h)"
    "drv_try_push_dyn D (op_object_new a (key_deref key)) (rt_driver rt) (h, rt_world rt) = Some (res, d, h', w)"
    using assms(2) by (auto simp: runtime_submit_def split: bind_splits)
  note l = push_law [OF assms(1) i(2)]
  show ?thesis
    using assms(2) i l
    by (cases res) (auto simp: runtime_submit_def spawn_def op_future_new_def Let_def op_object_new_def)
qed

lemma poll_accounts:
  assumes "invar (rt_driver rt)" "runtime_poll D S rt = Some rt'" "poll_entries D rt = Some es"
    "v \<notin> set (unqueued_cancels rt)" "poll_call D rt = Some (t, d, hw)"
  shows "invar (rt_driver rt') \<and>
    (\<not> silent t d v \<longrightarrow> count (op_uds (unqueued_operations rt) + holds (rt_driver rt) (rt_world rt)) v \<le>
      count (entry_uds es + op_uds (unqueued_operations rt') + holds (rt_driver rt') (rt_world rt')) v) \<and>
    (v \<in># entry_uds es \<longrightarrow> v \<in># op_uds (unqueued_operations rt) + holds (rt_driver rt) (rt_world rt))"
proof -
  obtain cancels d1 d2 h2 w2 res where
    c: "retry_cancels D (unqueued_cancels rt) (rt_driver rt) = (cancels, d1)" and
    p: "drv_push_queue D (unqueued_operations rt) d1 (rt_heap rt, rt_world rt) =
        Some (unqueued_operations rt', d2, h2, w2)" and
    s: "drv_submit D (if unqueued_operations rt' \<noteq> [] then Some 0 else None) d2 (h2, w2) =
        Some ((res, es), rt_driver rt', rt_heap rt', rt_world rt')" and
    t: "t = (if unqueued_operations rt' \<noteq> [] then Some 0 else None)" "d = d2"
    by (rule runtime_pollE [OF assms(2)]) (use assms(3,5) in simp)
  note 1 = retry_cancels_others [OF assms(1) c, of "rt_world rt"]
  note 2 = push_queue_law [OF conjunct1 [OF 1] p]
  note 3 = submit_law [OF conjunct1 [OF 2] s]
  have eq: "count (holds d2 w2) v + count (op_uds (unqueued_operations rt')) v =
      count (holds (rt_driver rt) (rt_world rt)) v + count (op_uds (unqueued_operations rt)) v"
    using 1 assms(4) arg_cong [OF conjunct2 [OF 2], of "\<lambda>m. count m v"] by simp
  have le: "count (holds d2 w2) v \<le> count (entry_uds es) v + count (holds (rt_driver rt') (rt_world rt')) v" if "\<not> silent t d v"
    using conjunct1 [OF conjunct2 [OF 3], rule_format, of v] that unfolding t by simp
  have "v \<in># holds d2 w2" if "v \<in># entry_uds es" using 3 that by blast
  then have "0 < count (op_uds (unqueued_operations rt) + holds (rt_driver rt) (rt_world rt)) v" if "v \<in># entry_uds es"
    using eq that by (simp add: count_greater_zero_iff [symmetric] del: count_greater_zero_iff) linarith
  then show ?thesis using eq le 3 by (auto simp: count_greater_zero_iff)
qed

end

subsection \<open>Cancellation\<close>

lemma op_extend_keeps_uncancelled:
  assumes "slab_spec S" "op_extend S es rt = Some (ws, rt')" "table S rt k = Some r" "\<not> reg_cancelled r"
  shows "\<exists>r'. table S rt' k = Some r' \<and> \<not> reg_cancelled r' \<and> reg_op r' = reg_op r"
  using assms(2-4)
proof (induction es arbitrary: rt ws r)
  case (Cons e es)
  then obtain ws1 rt1 ws2 where u: "op_update_result S (Key (entry_user_data e)) (entry_result e) rt = Some (ws1, rt1)"
    and x: "op_extend S es rt1 = Some (ws2, rt')" by (auto split: bind_splits)
  obtain r1 where "table S rt1 k = Some r1" "\<not> reg_cancelled r1" "reg_op r1 = reg_op r"
    using op_update_result_table [OF assms(1), of "Key (entry_user_data e)" "entry_result e" rt] u Cons.prems(2,3)
    by (cases "entry_user_data e = k") (auto split: option.splits)
  then show ?case using Cons.IH [OF x] by auto
qed simp

fun polls ::
  "('d, 'op, 'w, 'raw, 'fd) driver_ops \<Rightarrow> ('s, registered_op) slab \<Rightarrow> nat \<Rightarrow> ('d, 's, 'op, 'w) runtime \<Rightarrow>
   ('d, 's, 'op, 'w) runtime option" where
  "polls D S 0 rt = Some rt"
| "polls D S (Suc n) rt = Option.bind (runtime_poll D S rt) (polls D S n)"

lemma polls_keep_uncancelled:
  assumes "slab_spec S" "polls D S n rt = Some rt'" "table S (rt_ops rt) k = Some r" "\<not> reg_cancelled r"
  shows "\<exists>r'. table S (rt_ops rt') k = Some r' \<and> \<not> reg_cancelled r' \<and> reg_op r' = reg_op r"
  using assms(2-4)
proof (induction n arbitrary: rt r)
  case (Suc n)
  then obtain rt1 where p: "runtime_poll D S rt = Some rt1" "polls D S n rt1 = Some rt'" by (auto split: bind_splits)
  obtain es ws where "op_extend S es (rt_ops rt) = Some (ws, rt_ops rt1)" by (rule runtime_pollE [OF p(1)]) simp
  then obtain r1 where "table S (rt_ops rt1) k = Some r1" "\<not> reg_cancelled r1" "reg_op r1 = reg_op r"
    using op_extend_keeps_uncancelled [OF assms(1)] Suc.prems(2,3) by blast
  then show ?case using Suc.IH [OF p(2)] by auto
qed simp

text \<open>
  A cancellation the driver cannot take at once is never recorded: when a future is dropped
  and \<open>try_cancel\<close> fails, the entry of its operation is not marked, also when a later \<open>poll\<close>
  passes the cancellation on; whatever the driver reports, however often, the entry stays in the
  table and keeps its box, although no future is left to take it out.
\<close>

theorem refused_cancel_leaks_entry:
  assumes "slab_spec S" "\<not> fut_completed f" "drv_try_cancel D (key_deref (fut_user_data f)) (rt_driver rt) = (Err u, d')"
    and "slab_get S (key_deref (fut_user_data f)) (ops (rt_ops rt)) = Some r" "\<not> reg_cancelled r"
    and "polls D S n (op_future_drop D S f rt) = Some rt'"
  shows "\<exists>r'. slab_get S (key_deref (fut_user_data f)) (ops (rt_ops rt')) = Some r' \<and> \<not> reg_cancelled r' \<and>
    reg_op r' = reg_op r"
  using polls_keep_uncancelled [OF assms(1,6), of "key_deref (fut_user_data f)" r] assms(2-5)
  by (simp add: op_future_drop_def cancel_op_def table_def)

text \<open>A driver whose submission queue is full, so that it can take neither operations nor cancellations.\<close>

definition full_driver :: "(unit, string, unit, unit, unit) driver_ops" where
  "full_driver =
     \<lparr>drv_new = (\<lambda>w. (Ok (), w)), drv_attach = (\<lambda>fd d hw. Some (Ok (), d, hw)), drv_try_cancel = (\<lambda>u d. (Err (), d)),
      drv_try_push_dyn = (\<lambda>x d hw. Some (Err x, d, hw)), drv_push_queue = (\<lambda>xs d hw. Some (xs, d, hw)),
      drv_submit = (\<lambda>t d hw. Some ((Ok (), []), d, hw)), drv_timed_out = (\<lambda>e. False)\<rparr>"

definition one_op :: "registered_op \<Rightarrow> (unit, registered_op option list, string, unit) runtime" where
  "one_op r = \<lparr>rt_driver = (), runnables = [], unqueued_operations = [], unqueued_cancels = [], rt_ops = \<lparr>ops = [Some r]\<rparr>,
     rt_heap = \<lparr>boxes = [0 \<mapsto> ''op''], next_box = 1\<rparr>, rt_world = (), next_task = 1\<rparr>"

lemma one_op_reachable:
  "table_reachable vec_slab \<lparr>ops = [Some (registered_op_new (Some 0))]\<rparr> \<lparr>boxes = [0 \<mapsto> ''op''], next_box = 1\<rparr>"
  "table_reachable vec_slab \<lparr>ops = [Some ((registered_op_new (Some 0))\<lparr>reg_cancelled := True\<rparr>)]\<rparr>
     \<lparr>boxes = [0 \<mapsto> ''op''], next_box = 1\<rparr>"
proof -
  have "table_reachable vec_slab \<lparr>ops = []\<rparr> \<lparr>boxes = Map.empty, next_box = 0\<rparr>"
    using table_reachable.init [of vec_slab] by (simp add: vec_slab_def)
  then show 1: "table_reachable vec_slab \<lparr>ops = [Some (registered_op_new (Some 0))]\<rparr> \<lparr>boxes = [0 \<mapsto> ''op''], next_box = 1\<rparr>"
    by (rule table_reachable.insert) (simp add: op_insert_def box_leak_def vec_slab_def)
  from table_reachable.cancel [OF this, of 0]
  show "table_reachable vec_slab \<lparr>ops = [Some ((registered_op_new (Some 0))\<lparr>reg_cancelled := True\<rparr>)]\<rparr>
     \<lparr>boxes = [0 \<mapsto> ''op''], next_box = 1\<rparr>"
    by (simp add: op_cancel_def vec_slab_def)
qed

theorem refused_cancel_leaks_entry_witness:
  "\<exists>rt' r'. polls full_driver vec_slab 1 (op_future_drop full_driver vec_slab (op_future_new (Key 0 :: string key))
      (one_op (registered_op_new (Some 0)))) = Some rt' \<and> slab_get vec_slab 0 (ops (rt_ops rt')) = Some r' \<and> reg_op r' = Some 0"
proof -
  let ?rt = "op_future_drop full_driver vec_slab (op_future_new (Key 0 :: string key)) (one_op (registered_op_new (Some 0)))"
  obtain rt' where p: "polls full_driver vec_slab 1 ?rt = Some rt'"
    by (simp add: runtime_poll_def op_future_drop_def op_future_new_def cancel_op_def full_driver_def one_op_def)
  from refused_cancel_leaks_entry [OF vec_slab_spec _ _ _ _ p] p show ?thesis
    by (auto simp: op_future_new_def full_driver_def one_op_def vec_slab_def registered_op_new_def)
qed

text \<open>
  A cancelled operation that completes gives its slot back but not its memory: the entry is
  removed at the type \<open>()\<close>, so its box stays allocated, and no entry of the table owns it.
\<close>

theorem cancelled_completion_leaks_box:
  assumes "slab_spec S" "table_reachable S rt h" "slab_get S k (ops rt) = Some r" "reg_cancelled r" "reg_op r = Some a"
    and "op_extend S [entry_new k res] rt = Some (ws, rt')"
  shows "slab_get S k (ops rt') = None \<and> boxes h a \<noteq> None \<and>
    (\<forall>j r'. slab_get S j (ops rt') = Some r' \<longrightarrow> reg_op r' \<noteq> Some a)"
proof -
  have ok: "table_ok (table S rt) h" by (rule table_reachable_ok [OF assms(1,2)])
  have own: "owned (table S rt) k = Some a" using assms(3,5) by (simp add: owned_def table_def)
  have t: "table S rt' = (table S rt)(k := None)"
    using op_update_result_table [OF assms(1), of "Key k" res rt] assms(3,4,6)
    by (auto simp: table_def split: bind_splits)
  have "reg_op r' \<noteq> Some a" if "slab_get S j (ops rt') = Some r'" for j r'
  proof
    assume "reg_op r' = Some a"
    moreover have j: "table S rt j = Some r'" "j \<noteq> k" using that fun_cong [OF t, of j] by (auto simp: table_def split: if_splits)
    ultimately have "owned (table S rt) j = owned (table S rt) k" using own by (simp add: owned_def)
    with ok own j(2) show False unfolding table_ok_def by (metis domI inj_onD)
  qed
  moreover have "boxes h a \<noteq> None" using ok own by (force simp: table_ok_def ran_def)
  ultimately show ?thesis using fun_cong [OF t, of k] by (simp add: table_def)
qed

theorem cancelled_completion_leaks_box_witness:
  "\<exists>ws rt'. op_extend vec_slab [entry_new 0 (Ok 0)] \<lparr>ops = [Some ((registered_op_new (Some 0))\<lparr>reg_cancelled := True\<rparr>)]\<rparr> =
      Some (ws, rt') \<and> slab_get vec_slab 0 (ops rt') = None"
proof -
  obtain ws rt' where e: "op_extend vec_slab [entry_new 0 (Ok 0)]
      \<lparr>ops = [Some ((registered_op_new (Some 0))\<lparr>reg_cancelled := True\<rparr>)]\<rparr> = Some (ws, rt')"
    using abs_extend [OF vec_slab_spec] by blast
  have "slab_get vec_slab 0 (ops rt') = None"
    using cancelled_completion_leaks_box [OF vec_slab_spec one_op_reachable(2) _ _ _ e]
    by (simp add: vec_slab_def registered_op_new_def)
  then show ?thesis using e by blast
qed

text \<open>
  A key that is reused too early delivers a foreign result: when a cancelled operation is
  reported twice, as io_uring does for an operation and its cancellation, the first report frees
  the slot; an operation that is submitted next and gets the same key is completed by the second
  report, and its future is ready with a result the operation never had.
\<close>

theorem second_report_hits_reused_key:
  fixes op :: 'op
  assumes "slab_spec S" "table_reachable S rt h" "slab_get S k (ops rt) = Some r" "reg_cancelled r"
    and "op_extend S [entry_new k res1] rt = Some (ws1, rt1)" "op_insert S op rt1 h = Some ((Key k, a), rt2, h2)"
    and "op_extend S [entry_new k res2] rt2 = Some (ws2, rt3)"
  shows "\<exists>rt4 h4. op_has_result S (Key k :: 'op key) rt3 \<and> op_remove S (Key k) rt3 h2 = Some ((Some res2, Some op), rt4, h4)"
proof -
  have reach: "table_reachable S rt3 h2"
    using assms(2,5,6,7) table_reachable.completed table_reachable.insert by metis
  note i = table_ops(1) [OF assms(1,6)]
  then have "table S rt2 k = Some (registered_op_new (Some a))" "boxes h2 a = Some op" by (auto simp: box_leak_def)
  then have "table S rt3 k = Some ((registered_op_new (Some a))\<lparr>reg_waker := None, reg_result := Some res2\<rparr>)"
    using op_extend_once [OF assms(1,7), of k] by (simp add: registered_op_new_def)
  then have g: "slab_get S (key_deref (Key k :: 'op key)) (ops rt3) =
      Some ((registered_op_new (Some a))\<lparr>reg_waker := None, reg_result := Some res2\<rparr>)" by (simp add: table_def)
  from op_remove_registered [OF assms(1) reach g] g \<open>boxes h2 a = Some op\<close> show ?thesis
    by (auto simp: registered_op_new_def op_has_result_def)
qed

theorem second_report_hits_reused_key_witness:
  "\<exists>rt1 rt2 h2 rt3 rt4 h4.
    op_extend vec_slab [entry_new 0 (Ok 0)] \<lparr>ops = [Some ((registered_op_new (Some 0))\<lparr>reg_cancelled := True\<rparr>)]\<rparr> = Some ([], rt1) \<and>
    op_insert vec_slab ''next'' rt1 \<lparr>boxes = [0 \<mapsto> ''op''], next_box = 1\<rparr> = Some ((Key 0, 1), rt2, h2) \<and>
    op_extend vec_slab [entry_new 0 (Err (Os 125))] rt2 = Some ([], rt3) \<and>
    op_remove vec_slab (Key 0) rt3 h2 = Some ((Some (Err (Os 125)), Some ''next''), rt4, h4)"
proof -
  let ?rt = "\<lparr>ops = [Some ((registered_op_new (Some 0))\<lparr>reg_cancelled := True\<rparr>)]\<rparr>"
  obtain rt1 rt2 h2 rt3 where
    1: "op_extend vec_slab [entry_new 0 (Ok 0)] ?rt = Some ([], rt1)" and
    2: "op_insert vec_slab ''next'' rt1 \<lparr>boxes = [0 \<mapsto> ''op''], next_box = 1\<rparr> = Some ((Key 0, 1), rt2, h2)" and
    3: "op_extend vec_slab [entry_new 0 (Err (Os 125))] rt2 = Some ([], rt3)"
    by (simp add: op_update_result_def op_remove_dummy_def op_insert_def box_leak_def vec_slab_def registered_op_new_def)
  from second_report_hits_reused_key [OF vec_slab_spec one_op_reachable(2) _ _ 1 2 3] 1 2 3 show ?thesis
    by (auto simp: vec_slab_def)
qed

subsection \<open>Blocking on a future\<close>

lemma run_tasks_empties:
  "run_tasks run res rt = Some x \<Longrightarrow> (\<forall>res' rt'. x = Some (res', rt') \<longrightarrow> runnables rt' = [])"
proof (induction rule: run_tasks.raw_induct [rotated 1, consumes 1])
  case (1 f run res rt x)
  from 1(2) show ?case
    by (cases "runnables rt") (auto split: option.splits dest!: 1(1))
qed

lemma run_tasks_terminates:
  assumes "\<And>t ts rt. runnables rt = t # ts \<Longrightarrow> I rt \<Longrightarrow>
      \<exists>out rt'. run t (rt\<lparr>runnables := ts\<rparr>) = Some (out, rt') \<and> I rt' \<and> m rt' < (m rt :: nat) \<and> p rt' \<le> (p rt :: nat)"
    and "I rt"
  shows "\<exists>res' rt'. run_tasks run res rt = Some (Some (res', rt')) \<and> I rt' \<and> p rt' \<le> p rt \<and> runnables rt' = []"
  using assms(2)
proof (induction "m rt" arbitrary: rt res rule: less_induct)
  case less
  show ?case
  proof (cases "runnables rt")
    case Nil
    then show ?thesis using less.prems by (simp add: run_tasks.simps [of run res rt])
  next
    case (Cons t ts)
    then obtain out rt1 where 1: "run t (rt\<lparr>runnables := ts\<rparr>) = Some (out, rt1)" "I rt1" "m rt1 < m rt" "p rt1 \<le> p rt"
      using assms(1) less.prems by blast
    let ?res = "case out of Some r \<Rightarrow> Some r | None \<Rightarrow> res"
    obtain res' rt' where "run_tasks run ?res rt1 = Some (Some (res', rt'))" "I rt'" "p rt' \<le> p rt1" "runnables rt' = []"
      using less.hyps [OF 1(3,2)] by blast
    then show ?thesis using Cons 1 by (simp add: run_tasks.simps [of run res rt])
  qed
qed


text \<open>Tasks that complete at once.\<close>

definition answer :: "nat \<Rightarrow> nat \<Rightarrow> ('d, 's, 'op, 'w) runtime \<Rightarrow> (nat option \<times> ('d, 's, 'op, 'w) runtime) option" where
  "answer main t rt = Some (Some 42, rt)"

lemma run_answer: "runnables rt \<noteq> [] \<Longrightarrow> run_tasks (answer main) res rt = Some (Some (Some 42, rt\<lparr>runnables := []\<rparr>))"
proof (induction "length (runnables rt)" arbitrary: rt res)
  case (Suc n)
  then obtain t ts where t: "runnables rt = t # ts" by (cases "runnables rt") auto
  show ?case
  proof (cases ts)
    case Nil
    then show ?thesis
      using t by (simp add: run_tasks.simps [of _ _ rt] run_tasks.simps [of _ _ "rt\<lparr>runnables := []\<rparr>"] answer_def)
  next
    case (Cons u us)
    then show ?thesis using t Suc(1) [of "rt\<lparr>runnables := ts\<rparr>" "Some 42"] Suc(2) by (simp add: run_tasks.simps [of _ _ rt] answer_def)
  qed
qed simp


end
