(* ===== verification/Runtime_Kqueue.thy ===== *)
theory Runtime_Kqueue
  imports Runtime_Spec Kqueue_Spec
begin

text \<open>
  The runtime over the kqueue driver: the driver keeps the contract \<open>complete_io\<close>, so the runtime
  loses no operation, but it keeps pointers to operations whose boxes the runtime has freed.
\<close>

subsection \<open>The driver on boxes\<close>

text \<open>
  The operations the kqueue driver holds are addresses. Trying an operation reads its box, tries
  what is in it and writes it back; a box that is gone is a use after free, \<open>None\<close>. The event and
  the delay of an operation do not change while the driver holds it: they are given per address.
\<close>

definition boxed ::
  "('op \<Rightarrow> 'w \<Rightarrow> (usize io_result option \<times> 'op \<times> 'w) option) \<Rightarrow> (nat \<Rightarrow> nat \<Rightarrow> kq_event option) \<Rightarrow> (nat \<Rightarrow> nat option) \<Rightarrow>
   (nat, 'op op_heap \<times> 'w) kq_opcode" where
  "boxed attempt event delay =
     \<lparr>operate = (\<lambda>a (h, w). do { op \<leftarrow> boxes h a;
                               (r, op', w') \<leftarrow> attempt op w;
                               Some (r, a, (h\<lparr>boxes := (boxes h)(a \<mapsto> op')\<rparr>, w')) }),
      as_event = event, timer_delay = delay\<rparr>"

definition kq_driver_ops ::
  "('op op_heap \<times> 'w) kq_sys \<Rightarrow> (nat, 'op op_heap \<times> 'w) kq_opcode \<Rightarrow> (io_error \<Rightarrow> bool) \<Rightarrow>
   (nat kq_driver, 'op, 'w, i32, kq_fd) driver_ops" where
  "kq_driver_ops K V timed_out =
     \<lparr>drv_new = kq_new K, drv_attach = (\<lambda>fd d hw. let (r, d') = kq_attach fd d in Some (r, d', hw)),
      drv_try_cancel = kq_try_cancel,
      drv_try_push_dyn = (\<lambda>x d hw. let (r, d') = kq_try_push_dyn x d in Some (r, d', hw)),
      drv_push_queue = (\<lambda>xs d hw. let (rest, d') = kq_push_queue xs d in Some (rest, d', hw)),
      drv_submit = kq_submit K V, drv_timed_out = timed_out\<rparr>"

interpretation kqd: complete_io "kq_driver_ops K V timed_out" "\<lambda>d. wheel_ok (timers d)" "\<lambda>d w. held d" "\<lambda>t d v. False"
proof unfold_locales
  fix d x r d' and h h' :: "'a op_heap" and w w' :: 'b
  assume "wheel_ok (timers d)" "drv_try_push_dyn (kq_driver_ops K V timed_out) x d (h, w) = Some (r, d', h', w')"
  then show "wheel_ok (timers d') \<and> (case r of
        Err x' \<Rightarrow> obj_user_data x' = obj_user_data x \<and> held d' = held d
      | Ok _ \<Rightarrow> held d' = add_mset (obj_user_data x) (held d))"
    by (auto simp: kq_driver_ops_def kq_try_push_dyn_def held_def split: if_splits)
next
  fix d xs rest d' and h h' :: "'a op_heap" and w w' :: 'b
  assume "wheel_ok (timers d)" "drv_push_queue (kq_driver_ops K V timed_out) xs d (h, w) = Some (rest, d', h', w')"
  then show "wheel_ok (timers d') \<and> held d' + op_uds rest = held d + op_uds xs"
    using op_uds_take_drop by (auto simp: kq_driver_ops_def kq_push_queue_def held_def Let_def add_ac)
next
  fix d u c and d' :: "nat kq_driver"
  assume "wheel_ok (timers d)" "drv_try_cancel (kq_driver_ops K V timed_out) u d = (c, d')"
  then show "wheel_ok (timers d') \<and> (\<forall>v. v \<noteq> u \<longrightarrow> count (held d') v = count (held d) v)"
    by (auto simp: kq_driver_ops_def kq_try_cancel_def held_def count_remove_first)
next
  fix d t res es d' and h h' :: "'a op_heap" and w w' :: 'b
  assume "wheel_ok (timers d)" "drv_submit (kq_driver_ops K V timed_out) t d (h, w) = Some ((res, es), d', h', w')"
  then have "held d \<subseteq># entry_uds es + held d' \<and> set_mset (entry_uds es) \<subseteq> set_mset (held d) \<and> wheel_ok (timers d')"
    using kq_submit_account [of d K V t "(h, w)" res es d' "(h', w')"] by (auto simp: kq_driver_ops_def)
  then show "wheel_ok (timers d') \<and> (\<forall>v. \<not> False \<longrightarrow> count (held d) v \<le> count (entry_uds es + held d') v) \<and>
      set_mset (entry_uds es) \<subseteq> set_mset (held d)"
    by (simp add: subseteq_mset_def)
qed

subsection \<open>Frames\<close>

text \<open>
  What the driver leaves alone when it tries operations: if an attempt keeps the operation and
  relates the worlds before and after by a preorder, so does a \<open>submit\<close>, and the operations it
  holds afterwards are among those it held before.
\<close>

definition attempts_keep :: "('w \<Rightarrow> 'w \<Rightarrow> bool) \<Rightarrow> ('op, 'w) kq_opcode \<Rightarrow> bool" where
  "attempts_keep R V \<longleftrightarrow> reflp R \<and> transp R \<and> (\<forall>a w r a' w'. operate V a w = Some (r, a', w') \<longrightarrow> a' = a \<and> R w w')"

lemma attempts_keepD:
  assumes "attempts_keep R V"
  shows "R w w" "R u v \<Longrightarrow> R v w \<Longrightarrow> R u w" "operate V a w = Some (r, a', w') \<Longrightarrow> a' = a \<and> R w w'"
  using assms unfolding attempts_keep_def reflp_def transp_def by blast+

lemma operate_ops_keep:
  assumes "attempts_keep R V" "operate_ops K V xs pend tm w = Some (es, pend', tm', w')"
  shows "set pend' \<subseteq> set pend \<union> set xs \<and> R w w'"
  using assms(2)
proof (induction xs arbitrary: pend tm w es)
  case Nil
  then show ?case using attempts_keepD(1) [OF assms(1)] by auto
next
  case (Cons x xs)
  then obtain r op' w1 where op: "operate V (obj_op x) w = Some (r, op', w1)" by (auto split: bind_splits)
  then have keep: "x\<lparr>obj_op := op'\<rparr> = x" "R w w1" using attempts_keepD(3) [OF assms(1) op] by auto
  obtain pend1 tm1 es1 where "operate_ops K V xs pend1 tm1 w1 = Some (es1, pend', tm', w')" "set pend1 \<subseteq> insert x (set pend)"
    using Cons.prems op keep(1)
    by (cases r) (auto split: bind_splits if_splits intro: that)
  then show ?case using Cons.IH attempts_keepD(2) [OF assms(1) keep(2)] by fastforce
qed

lemma operate_ready_keep:
  assumes "attempts_keep R V" "operate_ready V evs pend C w = Some (es, pend', C', w')"
  shows "pend' = pend \<and> R w w'"
  using assms(2)
proof (induction evs arbitrary: C w es)
  case Nil
  then show ?case using attempts_keepD(1) [OF assms(1)] by auto
next
  case (Cons ev evs)
  show ?case
  proof (cases "EvERROR \<in> ev_flags ev")
    case True
    then obtain es1 where "operate_ready V evs pend (insert (ev_udata ev) C) w = Some (es1, pend', C', w')"
      using Cons.prems by (auto simp: Let_def split: if_splits bind_splits)
    then show ?thesis by (rule Cons.IH)
  next
    case False
    then obtain r op' w1 where op: "operate V (obj_op (pend ! ev_udata ev)) w = Some (r, op', w1)"
      and i: "ev_udata ev < length pend"
      using Cons.prems by (auto simp: Let_def split: if_splits bind_splits)
    have keep: "pend[ev_udata ev := (pend ! ev_udata ev)\<lparr>obj_op := op'\<rparr>] = pend" "R w w1"
      using attempts_keepD(3) [OF assms(1) op] by auto
    obtain C1 es1 where "operate_ready V evs pend C1 w1 = Some (es1, pend', C', w')"
      using Cons.prems op keep(1) False i by (cases r) (auto simp: Let_def split: bind_splits)
    then show ?thesis using Cons.IH keep(2) attempts_keepD(2) [OF assms(1) keep(2)] by blast
  qed
qed

lemma requeue_subset: "requeue C i n xs = Some ys \<Longrightarrow> set ys \<subseteq> set xs"
  by (induction C i n xs rule: requeue.induct) (auto split: if_splits)

lemma kq_submit_keep:
  assumes "attempts_keep R V" "\<And>c n t w r w'. kevent K c n t w = (r, w') \<Longrightarrow> R w w'"
    "kq_submit K V timeout d w = Some ((res, es), d', w')"
  shows "set (io_pending d') \<subseteq> set (squeue d) \<union> set (io_pending d) \<and> R w w'"
proof -
  obtain es1 d1 w1 where sq: "operate_squeue K V d w = Some (es1, d1, w1)"
    using assms(3) by (auto simp: kq_submit_def split: bind_splits)
  then have 1: "set (io_pending d1) \<subseteq> set (squeue d) \<union> set (io_pending d)" "R w w1"
    using operate_ops_keep [OF assms(1), of K "squeue d" "io_pending d" "timers d" w]
    by (auto simp: operate_squeue_def split: bind_splits)
  show ?thesis
  proof (cases "squeue d \<noteq> [] \<and> io_pending d1 = []")
    case True
    then show ?thesis using assms(3) sq 1 by (auto simp: kq_submit_def split: prod.splits)
  next
    case False
    then obtain r es2 d2 w2 where cr: "check_readiness K V timeout d1 w1 = Some (r, es2, d2, w2)"
      using assms(3) sq by (auto simp: kq_submit_def split: bind_splits)
    then have 2: "io_pending d2 = io_pending d1" "R w1 w2"
      using assms(2) [OF surjective_pairing] by (auto simp: check_readiness_def Let_def case_prod_beta split: bind_splits)
    have 3: "R w w2" by (rule attempts_keepD(2) [OF assms(1) 1(2) 2(2)])
    show ?thesis
    proof (cases r)
      case (Inl e)
      then show ?thesis using assms(3) sq cr False 1 2 3 by (auto simp: kq_submit_def)
    next
      case (Inr till)
      then obtain es3 where oc: "operate_completed_and_requeue V till d2 w2 = Some (es3, d', w')"
        using assms(3) sq cr False by (auto simp: kq_submit_def split: bind_splits)
      obtain pend C where "operate_ready V (ready_events d2) (io_pending d2) {} w2 = Some (es3, pend, C, w')"
        "requeue C 0 till pend = Some (io_pending d')" by (rule operate_completedE [OF oc])
      note r = this
      have "set (io_pending d') \<subseteq> set (io_pending d2)" "R w2 w'"
        using operate_ready_keep [OF assms(1) r(1)] requeue_subset [OF r(2)] by simp_all
      moreover have "R w w'" by (rule attempts_keepD(2) [OF assms(1) 3 calculation(2)])
      ultimately show ?thesis using 1(1) 2(1) by auto
    qed
  qed
qed

definition same_boxes :: "'op op_heap \<times> 'w \<Rightarrow> 'op op_heap \<times> 'w \<Rightarrow> bool" where
  "same_boxes x y \<longleftrightarrow> dom (boxes (fst y)) = dom (boxes (fst x)) \<and> next_box (fst y) = next_box (fst x)"

lemma boxed_keep: "attempts_keep same_boxes (boxed attempt event delay)"
  by (auto simp: attempts_keep_def reflp_def transp_def same_boxes_def boxed_def split: bind_splits)

lemma kq_keeps_boxes:
  assumes "\<And>c n t x r y. kevent K c n t x = (r, y) \<Longrightarrow> same_boxes x y"
  shows "keeps_boxes (kq_driver_ops K (boxed attempt event delay) timed_out)"
  unfolding keeps_boxes_def
proof (intro conjI allI impI)
  fix x d h w r d' h' w'
  assume "drv_try_push_dyn (kq_driver_ops K (boxed attempt event delay) timed_out) x d (h, w) = Some (r, d', h', w')"
  then show "dom (boxes h') = dom (boxes h)" "next_box h' = next_box h"
    by (auto simp: kq_driver_ops_def case_prod_beta)
next
  fix xs d h w rest d' h' w'
  assume "drv_push_queue (kq_driver_ops K (boxed attempt event delay) timed_out) xs d (h, w) = Some (rest, d', h', w')"
  then show "dom (boxes h') = dom (boxes h)" "next_box h' = next_box h"
    by (auto simp: kq_driver_ops_def case_prod_beta)
next
  fix t d h w r d' h' w'
  assume "drv_submit (kq_driver_ops K (boxed attempt event delay) timed_out) t d (h, w) = Some (r, d', h', w')"
  then have "kq_submit K (boxed attempt event delay) t d (h, w) = Some ((fst r, snd r), d', h', w')"
    by (simp add: kq_driver_ops_def)
  note s = this
  have "same_boxes (h, w) (h', w')" by (rule conjunct2 [OF kq_submit_keep [OF boxed_keep _ s]]) (rule assms)
  then show "dom (boxes h') = dom (boxes h)" "next_box h' = next_box h" by (simp_all add: same_boxes_def)
qed

subsection \<open>An instance\<close>

text \<open>Each box has the results its attempts will have, every event is ready at once.\<close>

definition scripted_op ::
  "usize io_result option list \<Rightarrow> unit \<Rightarrow> (usize io_result option \<times> usize io_result option list \<times> unit) option" where
  "scripted_op op w = (case op of [] \<Rightarrow> Some (None, [], w) | r # rs \<Rightarrow> Some (r, rs, w))"

definition eager_kq :: "(usize io_result option list op_heap \<times> unit) kq_sys" where
  "eager_kq = \<lparr>kqueue = (\<lambda>w. (Ok (), w)), kevent = (\<lambda>changes n t w. (Ok changes, w)), clock = (\<lambda>w. 0)\<rparr>"

definition sample_driver :: "(nat kq_driver, usize io_result option list, unit, i32, kq_fd) driver_ops" where
  "sample_driver = kq_driver_ops eager_kq
     (boxed scripted_op (\<lambda>a i. Some \<lparr>ev_filter = FRead 5, ev_flags = {EvADD}, ev_udata = i, ev_data = 0\<rparr>) (\<lambda>a. None)) (\<lambda>e. False)"

definition sample_runtime ::
  "usize io_result option list \<Rightarrow> (nat kq_driver, registered_op option list, usize io_result option list, unit) runtime" where
  "sample_runtime script =
     \<lparr>rt_driver = \<lparr>squeue = [], squeue_cap = 4, squeue_drained_till = 4, io_pending = [op_object_new 0 0], events_cap = 4,
        events_to_change = [], ready_events = [], completed_events_indices = {}, to_change_fd_reads = {},
        to_change_fd_writes = {}, timers = []\<rparr>,
      runnables = [], unqueued_operations = [], unqueued_cancels = [],
      rt_ops = \<lparr>ops = [Some ((registered_op_new (Some 0))\<lparr>reg_waker := Some 9\<rparr>)]\<rparr>,
      rt_heap = \<lparr>boxes = [0 \<mapsto> script], next_box = 1\<rparr>, rt_world = (), next_task = 10\<rparr>"

lemma sample_runtime_ok: "runtime_ok vec_slab (sample_runtime script)"
proof -
  have "table_reachable vec_slab \<lparr>ops = []\<rparr> \<lparr>boxes = Map.empty, next_box = 0\<rparr>"
    using table_reachable.init [of vec_slab] by (simp add: vec_slab_def)
  then have "table_reachable vec_slab \<lparr>ops = [Some (registered_op_new (Some 0))]\<rparr> \<lparr>boxes = [0 \<mapsto> script], next_box = 1\<rparr>"
    by (rule table_reachable.insert) (simp add: op_insert_def box_leak_def vec_slab_def)
  from table_reachable.waker [OF this, of 0 9] show ?thesis
    by (simp add: runtime_ok_def sample_runtime_def op_update_waker_def vec_slab_def)
qed

lemma sample_poll:
  "poll_entries sample_driver (sample_runtime [Some (Ok 3)]) = Some [entry_new 0 (Ok 3)]"
  "\<exists>rt'. runtime_poll sample_driver vec_slab (sample_runtime [Some (Ok 3)]) = Some rt'"
proof -
  have k: "\<exists>d' h. kq_submit eager_kq (boxed scripted_op (\<lambda>a i. Some \<lparr>ev_filter = FRead 5, ev_flags = {EvADD}, ev_udata = i,
      ev_data = 0\<rparr>) (\<lambda>a. None)) None (rt_driver (sample_runtime [Some (Ok 3)])) (rt_heap (sample_runtime [Some (Ok 3)]), ()) =
      Some ((Ok (), [entry_new 0 (Ok 3)]), d', h, ())"
    by (simp add: kq_submit_def operate_squeue_def check_readiness_def operate_completed_and_requeue_def
        till_next_timer_or_timeout_def duration_till_next_timer_def op_object_new_def is_negative_def sample_runtime_def
        eager_kq_def boxed_def scripted_op_def)
  then show "poll_entries sample_driver (sample_runtime [Some (Ok 3)]) = Some [entry_new 0 (Ok 3)]"
    by (auto simp: poll_entries_def poll_call_def sample_driver_def kq_driver_ops_def kq_push_queue_def sample_runtime_def)
  obtain ws o' where "op_extend vec_slab [entry_new 0 (Ok 3)] (rt_ops (sample_runtime [Some (Ok 3)])) = Some (ws, o')"
    using abs_extend [OF vec_slab_spec] by blast
  with k show "\<exists>rt'. runtime_poll sample_driver vec_slab (sample_runtime [Some (Ok 3)]) = Some rt'"
    by (auto simp: runtime_poll_def sample_driver_def kq_driver_ops_def kq_push_queue_def sample_runtime_def Let_def)
qed

lemma eager_kq_same: "kevent eager_kq c n t x = (r, y) \<Longrightarrow> same_boxes x y"
  by (auto simp: eager_kq_def same_boxes_def)

subsection \<open>Properties\<close>



text \<open>
  C18. On kqueue the runtime loses no operation: an operation that is queued in the runtime or
  held by the driver, and whose cancellation is not outstanding, is after a \<open>poll\<close> still queued,
  still held, or reported, as often as before; and only such operations are reported.
\<close>

theorem kq_runtime_loses_nothing:
  assumes "wheel_ok (timers (rt_driver rt))" "runtime_poll (kq_driver_ops K V timed_out) S rt = Some rt'"
    "poll_entries (kq_driver_ops K V timed_out) rt = Some es" "v \<notin> set (unqueued_cancels rt)"
  shows "wheel_ok (timers (rt_driver rt')) \<and>
    count (op_uds (unqueued_operations rt) + held (rt_driver rt)) v \<le>
      count (entry_uds es + op_uds (unqueued_operations rt') + held (rt_driver rt')) v \<and>
    (v \<in># entry_uds es \<longrightarrow> v \<in># op_uds (unqueued_operations rt) + held (rt_driver rt))"
proof -
  obtain t d hw where "poll_call (kq_driver_ops K V timed_out) rt = Some (t, d, hw)"
    by (rule runtime_pollE [OF assms(2)]) blast
  from kqd.poll_accounts [OF assms this] show ?thesis by blast
qed

theorem kq_runtime_loses_nothing_witness:
  "\<exists>rt'. runtime_poll sample_driver vec_slab (sample_runtime [Some (Ok 3)]) = Some rt' \<and>
    0 < count (entry_uds [entry_new 0 (Ok 3)] + op_uds (unqueued_operations rt') + held (rt_driver rt')) 0"
proof -
  obtain rt' where p: "runtime_poll sample_driver vec_slab (sample_runtime [Some (Ok 3)]) = Some rt'" using sample_poll by blast
  from kq_runtime_loses_nothing [OF _ p [unfolded sample_driver_def] sample_poll(1) [unfolded sample_driver_def], of 0]
  show ?thesis using p by (auto simp: sample_runtime_def wheel_ok_def)
qed

text \<open>
  C36. On kqueue the driver keeps a pointer to freed memory: when the last operation of the pending
  queue completes and its future is polled, the runtime frees the box of the operation, while the
  driver still holds the operation in its queue and will try it again with the next \<open>submit\<close>.
\<close>

theorem kq_completed_box_dangles:
  assumes "D = kq_driver_ops K (boxed attempt event delay) timed_out" "slab_spec S"
    "\<forall>c n t x r y. kevent K c n t x = (r, y) \<longrightarrow> same_boxes x y" "\<forall>e. \<not> timed_out e"
    and "runtime_ok S rt" "runtime_poll D S rt = Some rt'" "poll_entries D rt = Some es"
    and "unqueued_operations rt = []" "unqueued_cancels rt = []" "squeue (rt_driver rt) = []"
    and "io_pending (rt_driver rt) = ps @ [x]" "length ps < events_cap (rt_driver rt)"
    and "filter (\<lambda>e. entry_user_data e = obj_user_data x) es = [e]"
    and "slab_get S (obj_user_data x) (ops (rt_ops rt)) = Some r" "reg_op r = Some (obj_op x)"
    and "reg_waker r = Some t" "\<not> reg_cancelled r"
  shows "\<exists>op rt''. poll_task S t (Key (obj_user_data x)) rt' = Some (TaskReady (entry_result e, op), rt'') \<and>
    x \<in> set (io_pending (rt_driver rt'')) \<and> boxes (rt_heap rt'') (obj_op x) = None"
proof -
  have keep: "keeps_boxes D" unfolding assms(1) by (rule kq_keeps_boxes) (use assms(3) in blast)
  obtain op rt'' where pt: "poll_task S t (Key (obj_user_data x)) rt' = Some (TaskReady (entry_result e, op), rt'')"
    "rt_driver rt'' = rt_driver rt'" "boxes (rt_heap rt'') = (boxes (rt_heap rt'))(obj_op x := None)"
    using delivered [OF assms(2) keep assms(5-7) assms(13-17), where waker = t] by blast
  let ?V = "boxed attempt event delay"
  obtain d2 h2 w2 res h3 w3 where s: "kq_submit K ?V None d2 (h2, w2) = Some ((res, es), rt_driver rt', h3, w3)"
    and res: "\<forall>e. res = Err e \<longrightarrow> timed_out e"
    and d2: "squeue d2 = []" "io_pending d2 = ps @ [x]" "events_cap d2 = events_cap (rt_driver rt)"
    by (rule runtime_pollE [OF assms(6)])
      (use assms(1,7-11) in \<open>auto simp: kq_driver_ops_def kq_push_queue_def Let_def\<close>)
  have "res = Ok ()" using res assms(4) by (cases res) auto
  then have s': "kq_submit K ?V None d2 (h2, w2) = Some ((Ok (), es), rt_driver rt', h3, w3)" using s by simp
  obtain evs w4 es3 pend C where "operate_ready ?V evs (io_pending d2) {} w4 = Some (es3, pend, C, h3, w3)"
    "last pend \<in> set (io_pending (rt_driver rt'))"
    by (rule kq_last_pending_stays [OF s']) (use d2 assms(12) in simp_all)
  then have "x \<in> set (io_pending (rt_driver rt'))"
    using operate_ready_keep [OF boxed_keep] d2(2) by fastforce
  then show ?thesis using pt by simp
qed

theorem kq_completed_box_dangles_witness:
  "\<exists>rt' op rt''. runtime_poll sample_driver vec_slab (sample_runtime [Some (Ok 3)]) = Some rt' \<and>
    poll_task vec_slab 9 (Key 0) rt' = Some (TaskReady (Ok 3, op), rt'') \<and>
    op_object_new 0 0 \<in> set (io_pending (rt_driver rt'')) \<and> boxes (rt_heap rt'') 0 = None"
proof -
  obtain rt' where p: "runtime_poll sample_driver vec_slab (sample_runtime [Some (Ok 3)]) = Some rt'" using sample_poll by blast
  have "\<forall>c n t x r y. kevent eager_kq c n t x = (r, y) \<longrightarrow> same_boxes x y" using eager_kq_same by blast
  from kq_completed_box_dangles [OF sample_driver_def vec_slab_spec this _ sample_runtime_ok p sample_poll(1),
      where ps = "[]" and x = "op_object_new 0 0" and t = 9] p
  show ?thesis by (fastforce simp: sample_runtime_def vec_slab_def registered_op_new_def op_object_new_def)
qed

end
