(* ===== verification/Runtime_Iour.thy ===== *)
theory Runtime_Iour
  imports Runtime_Spec Iour_Spec
begin

text \<open>
  The runtime over the io_uring driver: the driver keeps the contract \<open>complete_io\<close> up to the
  completions it hides, so the runtime loses no operation whose completion is visible; and a whole
  turn of an operation, from its submission to the output of its future.
\<close>

subsection \<open>The driver on boxes\<close>

text \<open>
  The operations of the runtime are addresses of boxes. Asking them for their entries, in the order
  of the queue, reads each box and writes back the operation as \<open>create_entry\<close> (the argument \<open>C\<close>)
  left it; a box that is gone is a use after free, \<open>None\<close>.
\<close>

fun boxed_entries ::
  "('op \<Rightarrow> (sqe_op \<times> 'op) option) \<Rightarrow> nat op_object list \<Rightarrow> 'op op_heap \<Rightarrow> (sqe_op op_object list \<times> 'op op_heap) option" where
  "boxed_entries C [] h = Some ([], h)"
| "boxed_entries C (x # xs) h =
     do { op \<leftarrow> boxes h (obj_op x);
          (e, op') \<leftarrow> C op;
          (ys, h') \<leftarrow> boxed_entries C xs (h\<lparr>boxes := (boxes h)(obj_op x \<mapsto> op')\<rparr>);
          Some (op_object_new e (obj_user_data x) # ys, h') }"

definition boxed_try_push ::
  "'r io_uring \<Rightarrow> ('op \<Rightarrow> (sqe_op \<times> 'op) option) \<Rightarrow> nat op_object \<Rightarrow> 'r iour_driver \<Rightarrow> 'op op_heap \<Rightarrow>
   ((nat op_object + unit) \<times> 'r iour_driver \<times> 'op op_heap) option" where
  "boxed_try_push U C x d h =
     do { (ys, h') \<leftarrow> boxed_entries C [x] h;
          (r, d') \<leftarrow> iour_try_push_dyn U (\<lambda>e. Some (e, e)) (hd ys) d;
          Some (case r of Err _ \<Rightarrow> Err x | Ok _ \<Rightarrow> Ok (), d', h') }"

definition boxed_push_queue ::
  "'r io_uring \<Rightarrow> ('op \<Rightarrow> (sqe_op \<times> 'op) option) \<Rightarrow> nat op_object list \<Rightarrow> 'r iour_driver \<Rightarrow> 'op op_heap \<Rightarrow>
   (nat op_object list \<times> 'r iour_driver \<times> 'op op_heap) option" where
  "boxed_push_queue U C xs d h =
     (let n = min (iour_capacity_left U d) (length xs)
      in do { (ys, h') \<leftarrow> boxed_entries C (take n xs) h;
              (rest, d') \<leftarrow> iour_push_queue U (\<lambda>e. Some (e, e)) ys d;
              Some (drop n xs, d', h') })"

definition iour_driver_ops ::
  "'r io_uring \<Rightarrow> errnos \<Rightarrow> ('op \<Rightarrow> (sqe_op \<times> 'op) option) \<Rightarrow> (io_error \<Rightarrow> bool) \<Rightarrow>
   ('r iour_driver, 'op, 'w, i32, fd) driver_ops" where
  "iour_driver_ops U no C timed_out =
     \<lparr>drv_new = (\<lambda>hw. (iour_new U, hw)),
      drv_attach = (\<lambda>fd d hw. let (r, d') = iour_attach fd d in Some (r, d', hw)),
      drv_try_cancel = iour_try_cancel U,
      drv_try_push_dyn = (\<lambda>x d (h, w). map_option (\<lambda>(r, d', h'). (r, d', h', w)) (boxed_try_push U C x d h)),
      drv_push_queue = (\<lambda>xs d (h, w). map_option (\<lambda>(rest, d', h'). (rest, d', h', w)) (boxed_push_queue U C xs d h)),
      drv_submit = (\<lambda>t d hw. let (r, d') = iour_submit U no t d in Some (r, d', hw)),
      drv_timed_out = timed_out\<rparr>"

lemma boxed_entries_spec:
  "boxed_entries C xs h = Some (ys, h') \<Longrightarrow>
   map obj_user_data ys = map obj_user_data xs \<and> dom (boxes h') = dom (boxes h) \<and> next_box h' = next_box h"
proof (induction xs arbitrary: h ys)
  case (Cons x xs)
  then obtain op e op' ys' where a: "boxes h (obj_op x) = Some op" "C op = Some (e, op')"
    "boxed_entries C xs (h\<lparr>boxes := (boxes h)(obj_op x \<mapsto> op')\<rparr>) = Some (ys', h')"
    "ys = op_object_new e (obj_user_data x) # ys'"
    by (auto split: bind_splits)
  then show ?case using Cons.IH [OF a(3)] by (auto simp: op_object_new_def split: if_splits)
qed simp

lemma boxed_entries_length: "boxed_entries C xs h = Some (ys, h') \<Longrightarrow> length ys = length xs"
  by (metis boxed_entries_spec length_map)

subsection \<open>The driver contract\<close>

text \<open>The requests the ring has: those that wait in the submission queue and those the kernel has taken.\<close>

definition iour_held :: "('r \<Rightarrow> sqe list) \<Rightarrow> ('r \<Rightarrow> u64 multiset) \<Rightarrow> 'r iour_driver \<Rightarrow> usize multiset" where
  "iour_held sq fl d = mset (map sqe_user_data (sq (inner d))) + fl (inner d)"

text \<open>The ring when \<open>submit\<close> looks at the completions, and the completions it finds.\<close>

definition submitted_ring :: "'r io_uring \<Rightarrow> nat option \<Rightarrow> 'r iour_driver \<Rightarrow> 'r" where
  "submitted_ring U t d = snd (ring_submit U
     (case t of None \<Rightarrow> SubmitAndWait1 | Some x \<Rightarrow> if x = 0 then SubmitOnly else SubmitWait1For (timespec x))
     (sq_sync U (inner d)))"

definition iour_completions :: "'r io_uring \<Rightarrow> nat option \<Rightarrow> 'r iour_driver \<Rightarrow> cqe list" where
  "iour_completions U t d = fst (ring_completion U (submitted_ring U t d))"

definition iour_silent :: "'r io_uring \<Rightarrow> errnos \<Rightarrow> nat option \<Rightarrow> 'r iour_driver \<Rightarrow> usize \<Rightarrow> bool" where
  "iour_silent U no t d v \<longleftrightarrow> (\<exists>c \<in> set (iour_completions U t d). cqe_user_data c = v \<and> \<not> cqe_visible no c)"

lemma iour_submit_entries:
  "list_all2 (reports no) (filter (cqe_visible no) (iour_completions U t d)) (snd (fst (iour_submit U no t d)))"
  using complete_cqes_reports [of no "iour_completions U t d" U]
  by (simp add: iour_submit_def complete_entries_def iour_completions_def submitted_ring_def submit_impl_inner
      Let_def split_def)

lemma list_all2_filter_key:
  "list_all2 R xs ys \<Longrightarrow> (\<And>x y. R x y \<Longrightarrow> P x \<longleftrightarrow> Q y) \<Longrightarrow> list_all2 R (filter P xs) (filter Q ys)"
  by (induction rule: list_all2_induct) auto

lemma iour_submit_uds:
  "map entry_user_data (snd (fst (iour_submit U no t d))) =
   map cqe_user_data (filter (cqe_visible no) (iour_completions U t d))"
  by (rule list_all2_user_data [OF iour_submit_entries])

lemma iour_submit_inner: "inner (snd (iour_submit U no t d)) = snd (ring_completion U (submitted_ring U t d))"
  by (simp add: iour_submit_def complete_entries_def submitted_ring_def submit_impl_inner complete_cqes_state
      reset_files_update_def Let_def split_def)

lemma iour_submit_held:
  assumes "ring_flow U sq fl"
  shows "iour_held sq fl d = mset (map cqe_user_data (iour_completions U t d)) + iour_held sq fl (snd (iour_submit U no t d))"
proof -
  have 1: "mset (map sqe_user_data (sq (submitted_ring U t d))) + fl (submitted_ring U t d) =
      mset (map sqe_user_data (sq (inner d))) + fl (inner d)"
    using assms unfolding ring_flow_def submitted_ring_def by metis
  have 2: "sq (snd (ring_completion U (submitted_ring U t d))) = sq (submitted_ring U t d)"
    "mset (map cqe_user_data (iour_completions U t d)) + fl (snd (ring_completion U (submitted_ring U t d))) =
      fl (submitted_ring U t d)"
    using assms unfolding ring_flow_def iour_completions_def by metis+
  show ?thesis
    unfolding iour_held_def iour_submit_inner 1 [symmetric] 2(1) 2(2) [symmetric] by (simp only: add_ac)
qed

lemma count_visible:
  "\<not> (\<exists>c \<in> set cs. cqe_user_data c = v \<and> \<not> cqe_visible no c) \<Longrightarrow>
   count (mset (map cqe_user_data (filter (cqe_visible no) cs))) v = count (mset (map cqe_user_data cs)) v"
  by (induction cs) auto

lemma push_held:
  assumes "ring_spec U sq" "ring_flow U sq fl"
  shows "sq_push U e (inner d) = Some r \<Longrightarrow> iour_held sq fl (d\<lparr>inner := r\<rparr>) = add_mset (sqe_user_data e) (iour_held sq fl d)"
    "sq_push_multiple U es (inner d) = Some r \<Longrightarrow>
     iour_held sq fl (d\<lparr>inner := r, squeue_buffer := es\<rparr>) = mset (map sqe_user_data es) + iour_held sq fl d"
  using flow_push [OF assms] flow_push_multiple [OF assms] by (simp_all add: iour_held_def add_ac)

lemma boxed_try_push_held:
  assumes "ring_spec U sq" "ring_flow U sq fl" "boxed_try_push U C x d h = Some (r, d', h')"
  shows "case r of Err x' \<Rightarrow> x' = x \<and> iour_held sq fl d' = iour_held sq fl d
    | Ok _ \<Rightarrow> iour_held sq fl d' = add_mset (obj_user_data x) (iour_held sq fl d)"
  using assms(3) push_held(1) [OF assms(1,2)]
  by (auto simp: boxed_try_push_def iour_try_push_dyn_def op_object_new_def split: bind_splits option.splits)

lemma boxed_push_queue_held:
  assumes "ring_spec U sq" "ring_flow U sq fl" "boxed_push_queue U C xs d h = Some (rest, d', h')"
  shows "iour_held sq fl d' + op_uds rest = iour_held sq fl d + op_uds xs"
proof -
  let ?n = "min (iour_capacity_left U d) (length xs)"
  obtain ys rest' where y: "boxed_entries C (take ?n xs) h = Some (ys, h')"
    "iour_push_queue U (\<lambda>e. Some (e, e)) ys d = Some (rest', d')" "rest = drop ?n xs"
    using assms(3) by (auto simp: boxed_push_queue_def Let_def split: bind_splits)
  have len: "length ys = ?n" using boxed_entries_length [OF y(1)] by simp
  have uds: "mset (map obj_user_data ys) = op_uds (take ?n xs)"
    using boxed_entries_spec [OF y(1)] by (simp add: op_uds_def del: mset_map)
  have "iour_held sq fl d' = op_uds (take ?n xs) + iour_held sq fl d"
  proof (cases "ys = []")
    case True
    then show ?thesis using y(2) uds by (simp add: iour_push_queue_def)
  next
    case False
    then have "length ys \<noteq> 0" by simp
    moreover have "min (iour_capacity_left U d) (length ys) = length ys" using len by simp
    ultimately obtain es r where p: "those (map (entry_of (\<lambda>e. Some (e, e))) ys) = Some es"
      "sq_push_multiple U es (inner d) = Some r" "d' = d\<lparr>inner := r, squeue_buffer := es\<rparr>"
      using y(2) by (auto simp: iour_push_queue_def Let_def split: bind_splits)
    show ?thesis
      unfolding p(3) push_held(2) [OF assms(1,2) p(2)] those_user_data [OF p(1)] uds ..
  qed
  then show ?thesis using op_uds_take_drop [of ?n xs] by (simp add: y(3) add_ac)
qed

interpretation iourd: complete_io "iour_driver_ops U no C timed_out" "\<lambda>d. ring_spec U sq \<and> ring_flow U sq fl"
  "\<lambda>d w. iour_held sq fl d" "iour_silent U no"
  for U :: "'r io_uring" and sq fl no timed_out and C :: "'op \<Rightarrow> (sqe_op \<times> 'op) option"
proof unfold_locales
  fix d x r d' and h h' :: "'op op_heap" and w w' :: 'a
  assume "ring_spec U sq \<and> ring_flow U sq fl"
    "drv_try_push_dyn (iour_driver_ops U no C timed_out) x d (h, w) = Some (r, d', h', w')"
  then show "(ring_spec U sq \<and> ring_flow U sq fl) \<and> (case r of
        Err x' \<Rightarrow> obj_user_data x' = obj_user_data x \<and> iour_held sq fl d' = iour_held sq fl d
      | Ok _ \<Rightarrow> iour_held sq fl d' = add_mset (obj_user_data x) (iour_held sq fl d))"
    using boxed_try_push_held [of U sq fl C x d h r d' h'] by (auto simp: iour_driver_ops_def split: sum.splits)
next
  fix d xs rest d' and h h' :: "'op op_heap" and w w' :: 'a
  assume "ring_spec U sq \<and> ring_flow U sq fl"
    "drv_push_queue (iour_driver_ops U no C timed_out) xs d (h, w) = Some (rest, d', h', w')"
  then show "(ring_spec U sq \<and> ring_flow U sq fl) \<and> iour_held sq fl d' + op_uds rest = iour_held sq fl d + op_uds xs"
    using boxed_push_queue_held [of U sq fl C xs d h rest d' h'] by (auto simp: iour_driver_ops_def)
next
  fix d u c d'
  assume "ring_spec U sq \<and> ring_flow U sq fl" "drv_try_cancel (iour_driver_ops U no C timed_out) u d = (c, d')"
  then show "(ring_spec U sq \<and> ring_flow U sq fl) \<and>
      (\<forall>v. v \<noteq> u \<longrightarrow> count (iour_held sq fl d') v = count (iour_held sq fl d) v)"
    using push_held(1) [of U sq fl] by (auto simp: iour_driver_ops_def iour_try_cancel_def split: option.splits)
next
  fix d t res es d' and h h' :: "'op op_heap" and w w' :: 'a
  assume inv: "ring_spec U sq \<and> ring_flow U sq fl"
    and "drv_submit (iour_driver_ops U no C timed_out) t d (h, w) = Some ((res, es), d', h', w')"
  then have s: "es = snd (fst (iour_submit U no t d))" "d' = snd (iour_submit U no t d)"
    by (auto simp: iour_driver_ops_def split: prod.splits)
  have e: "entry_uds es = mset (map cqe_user_data (filter (cqe_visible no) (iour_completions U t d)))"
    unfolding entry_uds_def s(1) iour_submit_uds ..
  have held: "iour_held sq fl d = mset (map cqe_user_data (iour_completions U t d)) + iour_held sq fl d'"
    using iour_submit_held inv unfolding s(2) by blast
  then show "(ring_spec U sq \<and> ring_flow U sq fl) \<and>
      (\<forall>v. \<not> iour_silent U no t d v \<longrightarrow> count (iour_held sq fl d) v \<le> count (entry_uds es + iour_held sq fl d') v) \<and>
      set_mset (entry_uds es) \<subseteq> set_mset (iour_held sq fl d)"
    using inv unfolding iour_silent_def e held by (auto simp: count_visible simp del: mset_map)
qed

subsection \<open>Frames\<close>

lemma boxed_entries_keep_op:
  assumes "\<forall>op e op'. C op = Some (e, op') \<longrightarrow> P op \<longrightarrow> P op'"
  shows "boxed_entries C xs h = Some (ys, h') \<Longrightarrow> box_has P a h \<Longrightarrow> box_has P a h'"
proof (induction xs arbitrary: h ys)
  case (Cons x xs)
  then obtain op e op' ys' where e: "boxes h (obj_op x) = Some op" "C op = Some (e, op')"
    "boxed_entries C xs (h\<lparr>boxes := (boxes h)(obj_op x \<mapsto> op')\<rparr>) = Some (ys', h')"
    by (auto split: bind_splits)
  moreover have "box_has P a (h\<lparr>boxes := (boxes h)(obj_op x \<mapsto> op')\<rparr>)"
    using Cons.prems(2) e(1,2) assms by (auto simp: box_has_def)
  ultimately show ?case using Cons.IH by blast
qed simp

lemma iour_drvE:
  "drv_try_push_dyn (iour_driver_ops U no C timed_out) x d (h, w) = Some (r, d', h', w') \<Longrightarrow>
   \<exists>xs ys. boxed_entries C xs h = Some (ys, h')"
  "drv_push_queue (iour_driver_ops U no C timed_out) xs d (h, w) = Some (rest, d', h', w') \<Longrightarrow>
   \<exists>xs ys. boxed_entries C xs h = Some (ys, h')"
  "drv_submit (iour_driver_ops U no C timed_out) t d (h, w) = Some (out, d', h', w') \<Longrightarrow> h' = h \<and> w' = w"
  by (auto simp: iour_driver_ops_def boxed_try_push_def boxed_push_queue_def Let_def
      simp del: boxed_entries.simps split: bind_splits prod.splits)

lemma iour_keeps_boxes: "keeps_boxes (iour_driver_ops U no C timed_out)"
  unfolding keeps_boxes_def by (auto dest!: iour_drvE boxed_entries_spec)

lemma iour_keeps_ops:
  assumes "\<forall>op e op'. C op = Some (e, op') \<longrightarrow> P op \<longrightarrow> P op'"
  shows "keeps_ops P (iour_driver_ops U no C timed_out)"
  unfolding keeps_ops_def using boxed_entries_keep_op [OF assms] by (auto dest!: iour_drvE)

subsection \<open>An instance\<close>

text \<open>Operations that are their own entries, on the ring kept as lists.\<close>

definition ring_runtime :: "(list_ring iour_driver, registered_op option list, sqe_op, unit) runtime" where
  "ring_runtime =
     \<lparr>rt_driver = list_driver [] [] [] NoUpdateInProgress, runnables = [], unqueued_operations = [], unqueued_cancels = [],
      rt_ops = \<lparr>ops = []\<rparr>, rt_heap = \<lparr>boxes = Map.empty, next_box = 0\<rparr>, rt_world = (), next_task = 0\<rparr>"

definition ring_driver :: "(list_ring iour_driver, sqe_op, unit, i32, fd) driver_ops" where
  "ring_driver = iour_driver_ops list_io_uring linux_errnos close_op (\<lambda>e. False)"

lemma ring_runtime_ok: "runtime_ok vec_slab ring_runtime"
  using table_reachable.init [of vec_slab] by (simp add: runtime_ok_def ring_runtime_def vec_slab_def)

subsection \<open>Properties\<close>

text \<open>
  C19. On io_uring the runtime loses no operation whose completions are visible: an operation that is
  queued in the runtime, waits in the ring or is with the kernel, that has no cancellation outstanding
  and no completion of this \<open>poll\<close> that the driver hides, is afterwards still there or reported, as
  often as before; and only such operations are reported.
\<close>

theorem iour_runtime_loses_nothing:
  assumes "ring_spec U sq" "ring_flow U sq fl" "runtime_poll (iour_driver_ops U no C timed_out) S rt = Some rt'"
    "poll_entries (iour_driver_ops U no C timed_out) rt = Some es" "v \<notin> set (unqueued_cancels rt)"
    "poll_call (iour_driver_ops U no C timed_out) rt = Some (t, d, hw)"
    "\<forall>c \<in> set (iour_completions U t d). cqe_user_data c = v \<longrightarrow> cqe_visible no c"
  shows "count (op_uds (unqueued_operations rt) + iour_held sq fl (rt_driver rt)) v \<le>
      count (entry_uds es + op_uds (unqueued_operations rt') + iour_held sq fl (rt_driver rt')) v \<and>
    (v \<in># entry_uds es \<longrightarrow> v \<in># op_uds (unqueued_operations rt) + iour_held sq fl (rt_driver rt))"
proof -
  have "\<not> iour_silent U no t d v" using assms(7) by (auto simp: iour_silent_def)
  then show ?thesis using iourd.poll_accounts [OF _ assms(3-6), of sq fl] assms(1,2) by blast
qed

lemma ring_eval:
  "drv_try_push_dyn ring_driver = (\<lambda>x d (h, w). map_option (\<lambda>(r, d', h'). (r, d', h', w)) (boxed_try_push list_io_uring close_op x d h))"
  "drv_push_queue ring_driver = (\<lambda>xs d (h, w). map_option (\<lambda>(rest, d', h'). (rest, d', h', w)) (boxed_push_queue list_io_uring close_op xs d h))"
  "drv_submit ring_driver = (\<lambda>t d hw. let (r, d') = iour_submit list_io_uring linux_errnos t d in Some (r, d', hw))"
  by (simp_all add: ring_driver_def iour_driver_ops_def)

text \<open>The runtime after a submission and a first poll of its future, and after a turn.\<close>

definition ring_waiting :: "(list_ring iour_driver, registered_op option list, sqe_op, unit) runtime" where
  "ring_waiting = ring_runtime\<lparr>rt_driver := list_driver [\<lparr>sqe_op = OpClose 7, sqe_user_data = 0\<rparr>] [] [] NoUpdateInProgress,
     runnables := [0], rt_ops := \<lparr>ops = [Some ((registered_op_new (Some 0))\<lparr>reg_waker := Some 9\<rparr>)]\<rparr>,
     rt_heap := \<lparr>boxes = [0 \<mapsto> OpClose 7], next_box = 1\<rparr>, next_task := 1\<rparr>"

lemma ring_steps:
  "\<exists>rt1. runtime_submit ring_driver vec_slab (OpClose 7) ring_runtime = Some ((0, op_future_new (Key 0)), rt1) \<and>
     op_future_poll vec_slab 9 (op_future_new (Key 0)) rt1 = Some (TaskPending, op_future_new (Key 0), ring_waiting)"
  "poll_call ring_driver ring_waiting = Some (None, rt_driver ring_waiting, rt_heap ring_waiting, ())"
  "iour_completions list_io_uring None (rt_driver ring_waiting) = [\<lparr>cqe_user_data = 0, cqe_result = 0\<rparr>]"
  "\<exists>rt3. runtime_poll ring_driver vec_slab ring_waiting = Some rt3"
proof -
  let ?e = "\<lparr>sqe_op = OpClose 7, sqe_user_data = 0\<rparr>"
  show "\<exists>rt1. runtime_submit ring_driver vec_slab (OpClose 7) ring_runtime = Some ((0, op_future_new (Key 0)), rt1) \<and>
     op_future_poll vec_slab 9 (op_future_new (Key 0)) rt1 = Some (TaskPending, op_future_new (Key 0), ring_waiting)"
    by (simp add: runtime_submit_def op_insert_def box_leak_def vec_slab_def ring_eval boxed_try_push_def
        iour_try_push_dyn_def close_op_def ring_waiting_def ring_runtime_def list_driver_def list_io_uring_def lr_push_def
        op_object_new_def spawn_def op_future_poll_def poll_task_def op_has_result_def op_update_waker_def
        op_future_new_def registered_op_new_def key_new_def)
  show "poll_call ring_driver ring_waiting = Some (None, rt_driver ring_waiting, rt_heap ring_waiting, ())"
    by (simp add: poll_call_def ring_eval boxed_push_queue_def iour_push_queue_def ring_waiting_def ring_runtime_def)
  show "iour_completions list_io_uring None (rt_driver ring_waiting) = [\<lparr>cqe_user_data = 0, cqe_result = 0\<rparr>]"
    by (simp add: iour_completions_def submitted_ring_def ring_waiting_def list_driver_def list_io_uring_def)
  obtain d where d: "iour_submit list_io_uring linux_errnos None (rt_driver ring_waiting) = ((Ok (), [entry_new 0 (Ok 0)]), d)"
    by (simp add: iour_submit_def submit_impl_def complete_entries_def complete_cqe_def create_entry_def is_negative_def
        i32_as_usize_def ring_waiting_def list_driver_def list_io_uring_def linux_errnos_def FILES_UPDATE_KEY_def)
  obtain ws o' where "op_extend vec_slab [entry_new 0 (Ok 0)] (rt_ops ring_waiting) = Some (ws, o')"
    using abs_extend [OF vec_slab_spec] by blast
  with d show "\<exists>rt3. runtime_poll ring_driver vec_slab ring_waiting = Some rt3"
    by (simp add: runtime_poll_def ring_eval boxed_push_queue_def iour_push_queue_def ring_waiting_def ring_runtime_def Let_def)
qed

lemma zero_visible: "cqe_visible linux_errnos \<lparr>cqe_user_data = 0, cqe_result = 0\<rparr>"
  by (simp add: cqe_visible_def linux_errnos_def FILES_UPDATE_KEY_def)

theorem iour_runtime_loses_nothing_witness:
  "\<exists>rt' es. runtime_poll ring_driver vec_slab ring_waiting = Some rt' \<and> poll_entries ring_driver ring_waiting = Some es \<and>
    1 \<le> count (entry_uds es + op_uds (unqueued_operations rt') +
      iour_held lr_sq (\<lambda>r. mset (map sqe_user_data (lr_flight r))) (rt_driver rt')) 0"
proof -
  obtain rt' where p: "runtime_poll ring_driver vec_slab ring_waiting = Some rt'" using ring_steps(4) by blast
  obtain es where e: "poll_entries ring_driver ring_waiting = Some es" by (rule runtime_pollE [OF p]) blast
  have "count (op_uds (unqueued_operations ring_waiting) +
      iour_held lr_sq (\<lambda>r. mset (map sqe_user_data (lr_flight r))) (rt_driver ring_waiting)) 0 = 1"
    by (simp add: ring_waiting_def ring_runtime_def iour_held_def list_driver_def)
  moreover have "\<forall>c \<in> set (iour_completions list_io_uring None (rt_driver ring_waiting)).
      cqe_user_data c = 0 \<longrightarrow> cqe_visible linux_errnos c"
    unfolding ring_steps(3) using zero_visible by simp
  moreover have "0 \<notin> set (unqueued_cancels ring_waiting)" by (simp add: ring_waiting_def ring_runtime_def)
  ultimately have "1 \<le> count (entry_uds es + op_uds (unqueued_operations rt') +
      iour_held lr_sq (\<lambda>r. mset (map sqe_user_data (lr_flight r))) (rt_driver rt')) 0"
    using iour_runtime_loses_nothing [OF ring_spec_list ring_flow_list p [unfolded ring_driver_def] e [unfolded ring_driver_def]
        _ ring_steps(2) [unfolded ring_driver_def], of 0] by metis
  with p e show ?thesis by blast
qed

text \<open>
  C14. The whole turn of an operation on io_uring: an operation is submitted, its future is polled and
  waits; when the kernel completes it, the next \<open>poll\<close> of the runtime wakes the waiting task, and the
  future is then ready with the result the kernel reported and with the operation, of which every
  property holds that \<open>create_entry\<close> keeps, such as owning the same buffer; the slot is free again.
\<close>

theorem iour_op_turn:
  assumes "slab_spec S" "\<forall>op e op'. C op = Some (e, op') \<longrightarrow> P op \<longrightarrow> P op'" "runtime_ok S rt" "P op"
    and "runtime_submit (iour_driver_ops U no C timed_out) S op rt = Some ((task, f), rt1)"
    and "op_future_poll S waker f rt1 = Some (p, f', rt2)"
    and "runtime_poll (iour_driver_ops U no C timed_out) S rt2 = Some rt3"
    and "poll_call (iour_driver_ops U no C timed_out) rt2 = Some (t, d, hw)"
    and "filter (\<lambda>c. cqe_user_data c = key_deref (fut_user_data f)) (iour_completions U t d) = [c]" "cqe_visible no c"
  shows "p = TaskPending \<and> waker \<in> set (runnables rt3) \<and>
    (\<exists>res op' f'' rt4. op_future_poll S waker f' rt3 = Some (TaskReady (res, op'), f'', rt4) \<and> P op' \<and>
      reports no c (entry_new (key_deref (fut_user_data f)) res) \<and> fut_completed f'' \<and>
      slab_get S (key_deref (fut_user_data f)) (ops (rt_ops rt4)) = None)"
proof -
  let ?D = "iour_driver_ops U no C timed_out" and ?k = "key_deref (fut_user_data f)"
  have "poll_entries ?D rt2 = Some (snd (fst (iour_submit U no t d)))" (is "_ = Some ?es")
    using assms(8) by (simp add: poll_entries_def iour_driver_ops_def split_def Let_def)
  note es = this
  have "list_all2 (reports no) (filter (\<lambda>c. cqe_user_data c = ?k) (filter (cqe_visible no) (iour_completions U t d)))
      (filter (\<lambda>e. entry_user_data e = ?k) ?es)"
    by (rule list_all2_filter_key [OF iour_submit_entries]) (simp add: reports_def)
  moreover have "filter (\<lambda>c. cqe_user_data c = ?k) (filter (cqe_visible no) (iour_completions U t d)) =
      filter (cqe_visible no) (filter (\<lambda>c. cqe_user_data c = ?k) (iour_completions U t d))"
    by (simp add: conj_commute)
  ultimately obtain e where e: "filter (\<lambda>e. entry_user_data e = ?k) ?es = [e]" "reports no c e"
    using assms(9,10) by (auto simp: list_all2_Cons1)
  have "e \<in> set (filter (\<lambda>e. entry_user_data e = ?k) ?es)" unfolding e(1) by simp
  then have "e = entry_new ?k (entry_result e)" by (simp add: entry_new_def)
  then have r: "reports no c (entry_new ?k (entry_result e))" using e(2) by simp
  note turn = op_turn [OF assms(1) iour_keeps_boxes iour_keeps_ops [OF assms(2)] assms(3-7) es e(1)]
  then obtain op' f'' rt4 where "op_future_poll S waker f' rt3 = Some (TaskReady (entry_result e, op'), f'', rt4)" "P op'"
    "fut_completed f''" "slab_get S ?k (ops (rt_ops rt4)) = None" by blast
  then show ?thesis using turn r by blast
qed

theorem iour_op_turn_witness:
  "\<exists>rt1 rt3 res f'' rt4.
    runtime_submit ring_driver vec_slab (OpClose 7) ring_runtime = Some ((0, op_future_new (Key 0)), rt1) \<and>
    runtime_poll ring_driver vec_slab ring_waiting = Some rt3 \<and> 9 \<in> set (runnables rt3) \<and>
    op_future_poll vec_slab 9 (op_future_new (Key 0)) rt3 = Some (TaskReady (res, OpClose 7), f'', rt4)"
proof -
  obtain rt1 where s: "runtime_submit ring_driver vec_slab (OpClose 7) ring_runtime = Some ((0, op_future_new (Key 0)), rt1)"
    "op_future_poll vec_slab 9 (op_future_new (Key 0)) rt1 = Some (TaskPending, op_future_new (Key 0), ring_waiting)"
    using ring_steps(1) by blast
  obtain rt3 where p: "runtime_poll ring_driver vec_slab ring_waiting = Some rt3" using ring_steps(4) by blast
  have "filter (\<lambda>c. cqe_user_data c = key_deref (fut_user_data (op_future_new (Key 0 :: sqe_op key))))
      (iour_completions list_io_uring None (rt_driver ring_waiting)) = [\<lparr>cqe_user_data = 0, cqe_result = 0\<rparr>]"
    unfolding ring_steps(3) by (simp add: op_future_new_def)
  note c = this
  have "\<forall>op e op'. close_op op = Some (e, op') \<longrightarrow> op = OpClose 7 \<longrightarrow> op' = OpClose 7" by (simp add: close_op_def)
  from iour_op_turn [OF vec_slab_spec this ring_runtime_ok _ s(1) [unfolded ring_driver_def] s(2) p [unfolded ring_driver_def]
      ring_steps(2) [unfolded ring_driver_def] c zero_visible]
  show ?thesis using s(1) p by blast
qed

end
