(* ===== verification/Runtime_Iocp.thy ===== *)
theory Runtime_Iocp
  imports Runtime_Spec Iocp_Spec
begin

text \<open>
  The runtime over the IOCP driver: the driver keeps the contract \<open>complete_io\<close>, with the operations
  that Windows has started counted as held; and, because the port is never asked for a packet, the
  future of such an operation waits forever.
\<close>

subsection \<open>The driver on boxes\<close>

text \<open>
  The operations of the runtime are addresses of boxes: starting an operation reads its box, starts
  what is in it and writes it back. The delay of a timer does not change; it is given per address.
\<close>

definition win_boxed ::
  "('op \<Rightarrow> usize \<Rightarrow> 'w \<Rightarrow> (usize io_result poll \<times> 'op \<times> 'w) option) \<Rightarrow> (nat \<Rightarrow> nat option) \<Rightarrow>
   (nat, 'op op_heap \<times> 'w) iocp_opcode" where
  "win_boxed attempt delay =
     \<lparr>win_operate = (\<lambda>a ud (h, w). do { op \<leftarrow> boxes h a;
                                      (r, op', w') \<leftarrow> attempt op ud w;
                                      Some (r, a, (h\<lparr>boxes := (boxes h)(a \<mapsto> op')\<rparr>, w')) }),
      win_timer_delay = delay\<rparr>"

definition iocp_driver_ops ::
  "('op op_heap \<times> 'w) iocp_sys \<Rightarrow> win_consts \<Rightarrow> (nat, 'op op_heap \<times> 'w) iocp_opcode \<Rightarrow>
   (nat iocp_driver, 'op, 'w, usize, win_fd) driver_ops" where
  "iocp_driver_ops S N V =
     \<lparr>drv_new = iocp_new S, drv_attach = iocp_attach S N, drv_try_cancel = iocp_try_cancel,
      drv_try_push_dyn = (\<lambda>x d hw. let (r, d') = iocp_try_push_dyn x d in Some (r, d', hw)),
      drv_push_queue = (\<lambda>xs d hw. let (rest, d') = iocp_push_queue xs d in Some (rest, d', hw)),
      drv_submit = (\<lambda>t d hw. map_option (\<lambda>(r, started, d', hw'). (r, d', hw')) (iocp_submit S N V t d hw)),
      drv_timed_out = (\<lambda>e. case raw_os_error e of Some c \<Rightarrow> timed_out S c | None \<Rightarrow> False)\<rparr>"

subsection \<open>The driver contract\<close>

text \<open>
  What Windows documents, \<open>fl w\<close> being the user data of the operations it has started and whose
  packets have not been taken from the port: an operation that is pending will have one packet, one
  that completes at once has none, since the handles are attached with
  \<open>FILE_SKIP_COMPLETION_PORT_ON_SUCCESS\<close>, and a packet that is dequeued is gone from the port.
\<close>

definition packet_ud :: "overlapped_entry \<Rightarrow> usize" where
  "packet_ud p = ov_user_data (oe_overlapped p)"

definition port_flow ::
  "('h \<times> 'w) iocp_sys \<Rightarrow> ('op, 'h \<times> 'w) iocp_opcode \<Rightarrow> ('w \<Rightarrow> usize multiset) \<Rightarrow> bool" where
  "port_flow S V fl \<longleftrightarrow>
     (\<forall>op ud h w r op' h' w'. win_operate V op ud (h, w) = Some (r, op', h', w') \<longrightarrow>
        fl w' = (if r = Pending then add_mset ud (fl w) else fl w)) \<and>
     (\<forall>n t h w r ps h' w'. port_dequeue S n t (h, w) = ((r, ps), h', w') \<longrightarrow> fl w = mset (map packet_ud ps) + fl w')"

definition iocp_held :: "('w \<Rightarrow> usize multiset) \<Rightarrow> 'op iocp_driver \<Rightarrow> 'w \<Rightarrow> usize multiset" where
  "iocp_held fl d w = op_uds (iocp_squeue d) + timer_uds (iocp_timers d) + fl w"

lemma iocp_operate_ops_flow:
  assumes "port_flow S V fl" "iocp_operate_ops S V xs tm (h, w) = Some (es, started, tm', h', w')"
  shows "fl w' = op_uds started + fl w"
  using assms(2)
proof (induction xs arbitrary: tm h w es started)
  case (Cons x xs)
  then obtain r op' h1 w1 where op: "win_operate V (obj_op x) (obj_user_data x) (h, w) = Some (r, op', h1, w1)"
    by (auto split: bind_splits)
  then have fl: "fl w1 = (if r = Pending then add_mset (obj_user_data x) (fl w) else fl w)"
    using assms(1) unfolding port_flow_def by blast
  obtain tm1 es1 st where rest: "iocp_operate_ops S V xs tm1 (h1, w1) = Some (es1, st, tm', h', w')"
    "started = (if r = Pending then x\<lparr>obj_op := op'\<rparr> # st else st)"
    using Cons.prems op by (cases r) (auto split: bind_splits if_splits)
  from Cons.IH [OF rest(1)] rest(2) fl show ?case by auto
qed simp

lemma iocp_packets_uds: "entry_uds (map (iocp_create_entry S N) ps) = mset (map packet_ud ps)"
  by (induction ps) (simp_all add: iocp_create_entry_def packet_ud_def Let_def)

lemma iocp_submit_held:
  assumes "port_flow S V fl" "wheel_ok (iocp_timers d)"
    "iocp_submit S N V timeout d (h, w) = Some ((res, es), started, d', h', w')"
  shows "wheel_ok (iocp_timers d') \<and> iocp_held fl d w = entry_uds es + iocp_held fl d' w'"
proof -
  obtain es1 tm h1 w1 r packets es2 where s:
    "iocp_operate_ops S V (iocp_squeue d) (iocp_timers d) (h, w) = Some (es1, started, tm, h1, w1)"
    "port_dequeue S (of_nat (length (iocp_entries d)))
       (poll_timeout N (till_next_timer_or_timeout (win_clock S (h1, w1)) timeout tm)) (h1, w1) = ((r, packets), h', w')"
    "expire_timers (win_clock S (h', w')) tm = (es2, iocp_timers d')"
    "es = es1 @ es2 @ map (iocp_create_entry S N) packets" "iocp_squeue d' = []"
    by (rule iocp_submitE [OF assms(3)]) (metis surj_pair)
  note o = iocp_operate_ops_conserves [OF s(1)]
  have f: "fl w1 = op_uds started + fl w" by (rule iocp_operate_ops_flow [OF assms(1) s(1)])
  have p: "fl w1 = mset (map packet_ud packets) + fl w'"
    using assms(1) s(2) unfolding port_flow_def by blast
  have t: "timer_uds tm = entry_uds es2 + timer_uds (iocp_timers d')" "wheel_ok (iocp_timers d')"
    using expire_timers_conserves [OF _ s(3)] o assms(2) by blast+
  have "iocp_held fl d w = entry_uds es1 + op_uds started + timer_uds tm + fl w" using o by (simp add: iocp_held_def)
  also have "\<dots> = entry_uds es1 + timer_uds tm + fl w1" by (simp add: f add_ac)
  also have "\<dots> = entry_uds es + iocp_held fl d' w'"
    by (simp add: p t(1) s(4,5) iocp_held_def iocp_packets_uds add_ac del: mset_map)
  finally show ?thesis using t(2) by simp
qed

interpretation iocpd: complete_io "iocp_driver_ops S N V" "\<lambda>d. wheel_ok (iocp_timers d) \<and> port_flow S V fl"
  "iocp_held fl" "\<lambda>t d v. False"
  for S :: "('op op_heap \<times> 'w) iocp_sys" and N V fl
proof unfold_locales
  fix d x r d' and h h' :: "'op op_heap" and w w' :: 'w
  assume "wheel_ok (iocp_timers d) \<and> port_flow S V fl"
    "drv_try_push_dyn (iocp_driver_ops S N V) x d (h, w) = Some (r, d', h', w')"
  then show "(wheel_ok (iocp_timers d') \<and> port_flow S V fl) \<and> (case r of
        Err x' \<Rightarrow> obj_user_data x' = obj_user_data x \<and> iocp_held fl d' w' = iocp_held fl d w
      | Ok _ \<Rightarrow> iocp_held fl d' w' = add_mset (obj_user_data x) (iocp_held fl d w))"
    by (auto simp: iocp_driver_ops_def iocp_try_push_dyn_def iocp_held_def split: if_splits)
next
  fix d xs rest d' and h h' :: "'op op_heap" and w w' :: 'w
  assume "wheel_ok (iocp_timers d) \<and> port_flow S V fl"
    "drv_push_queue (iocp_driver_ops S N V) xs d (h, w) = Some (rest, d', h', w')"
  then show "(wheel_ok (iocp_timers d') \<and> port_flow S V fl) \<and> iocp_held fl d' w' + op_uds rest = iocp_held fl d w + op_uds xs"
    using op_uds_take_drop by (auto simp: iocp_driver_ops_def iocp_push_queue_def iocp_held_def Let_def add_ac)
next
  fix d u c and d' :: "nat iocp_driver" and w :: 'w
  assume "wheel_ok (iocp_timers d) \<and> port_flow S V fl" "drv_try_cancel (iocp_driver_ops S N V) u d = (c, d')"
  then show "(wheel_ok (iocp_timers d') \<and> port_flow S V fl) \<and>
      (\<forall>v. v \<noteq> u \<longrightarrow> count (iocp_held fl d' w) v = count (iocp_held fl d w) v)"
    by (auto simp: iocp_driver_ops_def iocp_try_cancel_def iocp_held_def count_remove_first)
next
  fix d t res es d' and h h' :: "'op op_heap" and w w' :: 'w
  assume inv: "wheel_ok (iocp_timers d) \<and> port_flow S V fl"
    and "drv_submit (iocp_driver_ops S N V) t d (h, w) = Some ((res, es), d', h', w')"
  then obtain started where "iocp_submit S N V t d (h, w) = Some ((res, es), started, d', h', w')"
    by (auto simp: iocp_driver_ops_def)
  from iocp_submit_held [OF conjunct2 [OF inv] conjunct1 [OF inv] this] inv show "(wheel_ok (iocp_timers d') \<and> port_flow S V fl) \<and>
      (\<forall>v. \<not> False \<longrightarrow> count (iocp_held fl d w) v \<le> count (entry_uds es + iocp_held fl d' w') v) \<and>
      set_mset (entry_uds es) \<subseteq> set_mset (iocp_held fl d w)"
    by simp
qed

text \<open>
  On IOCP the runtime loses no operation: one that is queued, a timer or started by the system, and
  whose cancellation is not outstanding, is after a \<open>poll\<close> still there or reported.
\<close>

lemma iocp_runtime_loses_nothing:
  assumes "wheel_ok (iocp_timers (rt_driver rt))" "port_flow W V fl" "runtime_poll (iocp_driver_ops W N V) S rt = Some rt'"
    "poll_entries (iocp_driver_ops W N V) rt = Some es" "v \<notin> set (unqueued_cancels rt)"
  shows "count (op_uds (unqueued_operations rt) + iocp_held fl (rt_driver rt) (rt_world rt)) v \<le>
      count (entry_uds es + op_uds (unqueued_operations rt') + iocp_held fl (rt_driver rt') (rt_world rt')) v"
proof -
  obtain t d hw where "poll_call (iocp_driver_ops W N V) rt = Some (t, d, hw)" by (rule runtime_pollE [OF assms(3)]) blast
  from iocpd.poll_accounts [OF _ assms(3-5) this] assms(1,2) show ?thesis by blast
qed

subsection \<open>Started operations\<close>

text \<open>An operation the driver does not have, on a driver whose packet array is empty.\<close>

definition not_queued :: "usize \<Rightarrow> ('op iocp_driver) \<Rightarrow> bool" where
  "not_queued k d \<longleftrightarrow> iocp_entries d = [] \<and> wheel_ok (iocp_timers d) \<and> k \<notin># op_uds (iocp_squeue d) + timer_uds (iocp_timers d)"

lemma not_queued_cancels:
  "not_queued k d \<Longrightarrow> retry_cancels (iocp_driver_ops W N V) us d = (us', d') \<Longrightarrow> not_queued k d'"
proof (induction us arbitrary: d)
  case (Cons u us)
  have "set_mset (op_uds (remove_first P xs)) \<subseteq> set_mset (op_uds xs)" for P and xs :: "nat op_object list"
    using set_remove_first_subset [of P xs] by (auto simp: op_uds_def)
  then have "not_queued k (d\<lparr>iocp_squeue := remove_first (\<lambda>x. obj_user_data x = u) (iocp_squeue d)\<rparr>)"
    using Cons.prems(1) by (auto simp: not_queued_def)
  then show ?case using Cons.IH Cons.prems(2) by (simp add: iocp_driver_ops_def iocp_try_cancel_def)
qed simp

lemma poll_skips_started:
  assumes "slab_spec S" "\<forall>n t w. length (snd (fst (port_dequeue W n t w))) \<le> unat n"
    "not_queued k (rt_driver rt)" "k \<notin># op_uds (unqueued_operations rt)" "runtime_poll (iocp_driver_ops W N V) S rt = Some rt'"
  shows "not_queued k (rt_driver rt')" "k \<notin># op_uds (unqueued_operations rt')"
    "table S (rt_ops rt') k = table S (rt_ops rt) k"
proof -
  let ?D = "iocp_driver_ops W N V"
  obtain cancels d1 rest d2 h2 w2 t res es h3 w3 woken where
    c: "retry_cancels ?D (unqueued_cancels rt) (rt_driver rt) = (cancels, d1)" and
    p: "drv_push_queue ?D (unqueued_operations rt) d1 (rt_heap rt, rt_world rt) = Some (unqueued_operations rt', d2, h2, w2)" and
    s: "drv_submit ?D t d2 (h2, w2) = Some ((res, es), rt_driver rt', h3, w3)" and
    e: "op_extend S es (rt_ops rt) = Some (woken, rt_ops rt')"
    by (rule runtime_pollE [OF assms(5)]) simp
  have 1: "not_queued k d1" by (rule not_queued_cancels [OF assms(3) c])
  have d2: "op_uds (iocp_squeue d2) + op_uds (unqueued_operations rt') = op_uds (iocp_squeue d1) + op_uds (unqueued_operations rt)"
    "iocp_timers d2 = iocp_timers d1" "iocp_entries d2 = iocp_entries d1"
    using p op_uds_take_drop [of "min (iocp_capacity_left d1) (length (unqueued_operations rt))" "unqueued_operations rt"]
    by (auto simp: iocp_driver_ops_def iocp_push_queue_def Let_def add_ac)
  have nk: "k \<notin># op_uds (iocp_squeue d2) + op_uds (unqueued_operations rt')"
    unfolding d2(1) using 1 assms(4) by (simp add: not_queued_def)
  then have q: "k \<notin># op_uds (unqueued_operations rt')" by simp
  have 2: "not_queued k d2" using nk 1 d2(2,3) by (simp add: not_queued_def)
  obtain started where "iocp_submit W N V t d2 (h2, w2) = Some ((res, es), started, rt_driver rt', h3, w3)"
    using s by (auto simp: iocp_driver_ops_def)
  note n = iocp_submit_no_packets [OF _ _ assms(2) this]
  have "k \<notin># entry_uds es + op_uds started + timer_uds (iocp_timers (rt_driver rt'))"
    using n(1) 2 unfolding not_queued_def by metis
  then have "k \<notin> entry_user_data ` set es" "k \<notin># timer_uds (iocp_timers (rt_driver rt'))" by (auto simp: entry_uds_def)
  then show "not_queued k (rt_driver rt')" "table S (rt_ops rt') k = table S (rt_ops rt) k"
    using n(2-4) 2 op_extend_others [OF assms(1) e] by (auto simp: not_queued_def)
  show "k \<notin># op_uds (unqueued_operations rt')" by (rule q)
qed

text \<open>
  C38. On IOCP the future of an operation that does not complete at once is never ready: once the
  operation is with the system, neither queued nor a timer, its entry has no result after any number
  of turns of the runtime, so polling the future gives \<open>Pending\<close>, on a port that returns at most as
  many packets as it is asked for.
\<close>

theorem iocp_started_future_waits:
  assumes "slab_spec S" "\<forall>n t w. length (snd (fst (port_dequeue W n t w))) \<le> unat n"
    and "iocp_entries (rt_driver rt) = []" "wheel_ok (iocp_timers (rt_driver rt))"
    and "key_deref (fut_user_data f) \<notin># op_uds (iocp_squeue (rt_driver rt)) + timer_uds (iocp_timers (rt_driver rt))"
    and "key_deref (fut_user_data f) \<notin># op_uds (unqueued_operations rt)"
    and "slab_get S (key_deref (fut_user_data f)) (ops (rt_ops rt)) = Some r" "reg_result r = None"
    and "polls (iocp_driver_ops W N V) S n rt = Some rt'"
  shows "\<exists>rt''. op_future_poll S waker f rt' = Some (TaskPending, f, rt'')"
proof -
  let ?k = "key_deref (fut_user_data f)"
  have "table S (rt_ops rt') ?k = Some r"
    if "not_queued ?k (rt_driver rt)" "?k \<notin># op_uds (unqueued_operations rt)" "table S (rt_ops rt) ?k = Some r"
    using that assms(9)
  proof (induction n arbitrary: rt)
    case (Suc n)
    then obtain rt1 where p: "runtime_poll (iocp_driver_ops W N V) S rt = Some rt1"
      "polls (iocp_driver_ops W N V) S n rt1 = Some rt'" by (auto split: bind_splits)
    note k = poll_skips_started [OF assms(1,2) Suc.prems(1,2) p(1)]
    show ?case by (rule Suc.IH [OF k(1,2) _ p(2)]) (simp add: k(3) Suc.prems(3))
  qed simp
  then have "slab_get S ?k (ops (rt_ops rt')) = Some r" using assms(3-7) by (simp add: not_queued_def table_def)
  then show ?thesis using assms(8) by (simp add: op_future_poll_def poll_task_def op_has_result_def)
qed

text \<open>A port that keeps its packets, and the runtime with one operation started.\<close>

definition boxed_port :: "(string op_heap \<times> overlapped_entry list) iocp_sys" where
  "boxed_port = \<lparr>port_create = (\<lambda>w. (Ok (), w)), port_attach = (\<lambda>h w. (Ok (), w)), port_set_modes = (\<lambda>h m w. (Ok (), w)),
     port_dequeue = (\<lambda>n t (h, w). ((Ok (), take (unat n) w), h, drop (unat n) w)),
     port_post = (\<lambda>n ov (h, w). (Ok (), h, w @ [\<lparr>oe_transferred = n, oe_overlapped = ov\<rparr>])),
     nt_status_to_dos_error = (\<lambda>x. and x 0xFFFF), timed_out = (\<lambda>c. c = 258), win_clock = (\<lambda>w. 0)\<rparr>"

definition started_runtime :: "(nat iocp_driver, registered_op option list, string, overlapped_entry list) runtime" where
  "started_runtime =
     \<lparr>rt_driver = iocp_sample [], runnables = [], unqueued_operations = [], unqueued_cancels = [],
      rt_ops = \<lparr>ops = [Some (registered_op_new (Some 0))]\<rparr>, rt_heap = \<lparr>boxes = [0 \<mapsto> ''op''], next_box = 1\<rparr>,
      rt_world = [\<lparr>oe_transferred = 5, oe_overlapped = overlapped_new 0\<rparr>], next_task = 1\<rparr>"

theorem iocp_started_future_waits_witness:
  "\<exists>rt' rt''. polls (iocp_driver_ops boxed_port windows_consts (win_boxed (\<lambda>op ud w. None) (\<lambda>a. None))) vec_slab 1
      started_runtime = Some rt' \<and>
    op_future_poll vec_slab 9 (op_future_new (Key 0)) rt' = Some (TaskPending, op_future_new (Key 0), rt'')"
proof -
  let ?D = "iocp_driver_ops boxed_port windows_consts (win_boxed (\<lambda>op ud w. None) (\<lambda>a. None))"
  obtain rt' where p: "polls ?D vec_slab 1 started_runtime = Some rt'"
    by (simp add: runtime_poll_def iocp_driver_ops_def iocp_push_queue_def iocp_submit_def poll_impl_def boxed_port_def
        started_runtime_def iocp_sample_def)
  have "\<forall>n t w. length (snd (fst (port_dequeue boxed_port n t w))) \<le> unat n" by (auto simp: boxed_port_def)
  from iocp_started_future_waits [OF vec_slab_spec this _ _ _ _ _ _ p, of "op_future_new (Key 0)" _ 9] p
  show ?thesis
    by (auto simp: started_runtime_def iocp_sample_def op_future_new_def wheel_ok_def timer_uds_def vec_slab_def
        registered_op_new_def)
qed

end
