(* ===== verification/Fs_File.thy ===== *)
theory Fs_File
  imports Runtime Unix_Op
begin

text \<open>
  Files, \<open>src/fs/file.rs\<close> and \<open>src/fs/open_options.rs\<close>, over the operations of the unix
  drivers.

  Submitting an operation to the runtime and awaiting its future is a parameter per operation:
  the operation comes back with its result as the kernel left it. Opening and duplicating a
  descriptor, attaching it to the runtime and the allocator are parameters too. The additions of
  positions and lengths panic on overflow, as in a build with overflow checks; a panic is
  \<open>None\<close>. A loop that may not end is a partial function, for which not returning is the outer
  \<open>None\<close>.
\<close>

subsection \<open>Files\<close>

record std_open_options =
  opt_read :: bool
  opt_write :: bool
  opt_truncate :: bool
  opt_create :: bool
  opt_create_new :: bool
  opt_custom_flags :: u32

record ('raw, 'f, 'fd, 'w) file_env =
  env_open :: "string \<Rightarrow> std_open_options \<Rightarrow> 'w \<Rightarrow> 'raw io_result \<times> 'w"
  env_dup :: "'raw \<Rightarrow> 'w \<Rightarrow> 'raw io_result \<times> 'w"
  env_attach :: "'raw \<Rightarrow> 'w \<Rightarrow> 'f io_result \<times> 'w"
  env_into :: "'f \<Rightarrow> 'fd"
  env_grow :: "raw_buf \<Rightarrow> nat \<Rightarrow> nat \<times> u8 list"
  await_read_at :: "'fd read_at_op \<Rightarrow> 'w \<Rightarrow> (usize io_result \<times> 'fd read_at_op) \<times> 'w"
  await_write_at :: "'fd write_at_op \<Rightarrow> 'w \<Rightarrow> (usize io_result \<times> 'fd write_at_op) \<times> 'w"
  await_sync :: "'fd sync_op \<Rightarrow> 'w \<Rightarrow> (usize io_result \<times> 'fd sync_op) \<times> 'w"

record ('raw, 'f) fs_file =
  file_inner :: 'raw
  file_attacher :: "'f attacher"

definition open_options_new :: std_open_options where
  "open_options_new =
     \<lparr>opt_read = False, opt_write = False, opt_truncate = False, opt_create = False,
      opt_create_new = False, opt_custom_flags = 0\<rparr>"

text \<open>On Windows the file is opened with \<open>FILE_FLAG_OVERLAPPED\<close>.\<close>

definition file_with_options ::
  "('raw, 'f, 'fd, 'w) file_env \<Rightarrow> bool \<Rightarrow> string \<Rightarrow> std_open_options \<Rightarrow> 'w \<Rightarrow> 'raw io_result \<times> 'w" where
  "file_with_options E windows path options w =
     env_open E path (if windows then options\<lparr>opt_custom_flags := 0x40000000\<rparr> else options) w"

definition with_options ::
  "('raw, 'f, 'fd, 'w) file_env \<Rightarrow> bool \<Rightarrow> string \<Rightarrow> std_open_options \<Rightarrow> 'w \<Rightarrow> ('raw, 'f) fs_file io_result \<times> 'w" where
  "with_options E windows path options w =
     (case file_with_options E windows path options w of
        (Err e, w') \<Rightarrow> (Err e, w')
      | (Ok raw, w') \<Rightarrow> (Ok \<lparr>file_inner = raw, file_attacher = attacher_new\<rparr>, w'))"

text \<open>The builder of \<open>OpenOptions\<close>.\<close>

definition options_read :: "bool \<Rightarrow> std_open_options \<Rightarrow> std_open_options" where
  "options_read flag o1 = o1\<lparr>opt_read := flag\<rparr>"

definition options_write :: "bool \<Rightarrow> std_open_options \<Rightarrow> std_open_options" where
  "options_write flag o1 = o1\<lparr>opt_write := flag\<rparr>"

definition options_truncate :: "bool \<Rightarrow> std_open_options \<Rightarrow> std_open_options" where
  "options_truncate flag o1 = o1\<lparr>opt_truncate := flag\<rparr>"

definition options_create :: "bool \<Rightarrow> std_open_options \<Rightarrow> std_open_options" where
  "options_create flag o1 = o1\<lparr>opt_create := flag\<rparr>"

definition options_create_new :: "bool \<Rightarrow> std_open_options \<Rightarrow> std_open_options" where
  "options_create_new flag o1 = o1\<lparr>opt_create_new := flag\<rparr>"

definition options_open ::
  "('raw, 'f, 'fd, 'w) file_env \<Rightarrow> bool \<Rightarrow> string \<Rightarrow> std_open_options \<Rightarrow> 'w \<Rightarrow> ('raw, 'f) fs_file io_result \<times> 'w" where
  "options_open E windows path o1 w = with_options E windows path o1 w"

definition file_open ::
  "('raw, 'f, 'fd, 'w) file_env \<Rightarrow> bool \<Rightarrow> string \<Rightarrow> 'w \<Rightarrow> ('raw, 'f) fs_file io_result \<times> 'w" where
  "file_open E windows path w = options_open E windows path (options_read True open_options_new) w"

definition file_create ::
  "('raw, 'f, 'fd, 'w) file_env \<Rightarrow> bool \<Rightarrow> string \<Rightarrow> 'w \<Rightarrow> ('raw, 'f) fs_file io_result \<times> 'w" where
  "file_create E windows path w =
     options_open E windows path
       (options_truncate True (options_write True (options_create True open_options_new))) w"

definition file_attach ::
  "('raw, 'f, 'fd, 'w) file_env \<Rightarrow> ('raw, 'f) fs_file \<Rightarrow> 'w \<Rightarrow> 'f io_result \<times> ('raw, 'f) fs_file \<times> 'w" where
  "file_attach E f w =
     (let (r, at, w') = attacher_attach (env_attach E) (file_inner f) (file_attacher f) w
      in (r, f\<lparr>file_attacher := at\<rparr>, w'))"

definition file_try_clone ::
  "('raw, 'f, 'fd, 'w) file_env \<Rightarrow> ('raw, 'f) fs_file \<Rightarrow> 'w \<Rightarrow> ('raw, 'f) fs_file io_result \<times> 'w" where
  "file_try_clone E f w =
     (case env_dup E (file_inner f) w of
        (Err e, w') \<Rightarrow> (Err e, w')
      | (Ok raw, w') \<Rightarrow> (Ok \<lparr>file_inner = raw, file_attacher = file_attacher f\<rparr>, w'))"

type_synonym ('r, 'raw, 'f, 'w) file_result =
  "(('r io_result \<times> iobuf) \<times> ('raw, 'f) fs_file \<times> 'w) option"

definition file_read_at ::
  "('raw, 'f, 'fd, 'w) file_env \<Rightarrow> ('raw, 'f) fs_file \<Rightarrow> iobuf \<Rightarrow> usize \<Rightarrow> 'w \<Rightarrow> (usize, 'raw, 'f, 'w) file_result" where
  "file_read_at E f buffer pos w =
     (case file_attach E f w of
        (Err e, f', w') \<Rightarrow> Some ((Err e, buffer), f', w')
      | (Ok fd, f', w1) \<Rightarrow>
          (let op = read_at_new (env_into E) fd pos buffer;
               (res, w') = await_read_at E op w1
           in map_option (\<lambda>r. (r, f', w'))
                (update_buffer_len set_buf_init (buf_result_into_inner read_at_into_inner res))))"

definition file_write_at ::
  "('raw, 'f, 'fd, 'w) file_env \<Rightarrow> ('raw, 'f) fs_file \<Rightarrow> iobuf \<Rightarrow> usize \<Rightarrow> 'w \<Rightarrow> (usize io_result \<times> iobuf) \<times> ('raw, 'f) fs_file \<times> 'w" where
  "file_write_at E f buffer pos w =
     (case file_attach E f w of
        (Err e, f', w') \<Rightarrow> ((Err e, buffer), f', w')
      | (Ok fd, f', w1) \<Rightarrow>
          (let op = write_at_new (env_into E) fd pos buffer;
               (res, w') = await_write_at E op w1
           in (buf_result_into_inner write_at_into_inner res, f', w')))"

definition file_sync_impl ::
  "('raw, 'f, 'fd, 'w) file_env \<Rightarrow> bool \<Rightarrow> ('raw, 'f) fs_file \<Rightarrow> 'w \<Rightarrow> unit io_result \<times> ('raw, 'f) fs_file \<times> 'w" where
  "file_sync_impl E datasync f w =
     (case file_attach E f w of
        (Err e, f', w') \<Rightarrow> (Err e, f', w')
      | (Ok fd, f', w1) \<Rightarrow>
          (let ((res, _), w') = await_sync E (sync_new (env_into E) fd datasync) w1
           in (case res of Err e \<Rightarrow> Err e | Ok _ \<Rightarrow> Ok (), f', w')))"

definition file_sync_all ::
  "('raw, 'f, 'fd, 'w) file_env \<Rightarrow> ('raw, 'f) fs_file \<Rightarrow> 'w \<Rightarrow> unit io_result \<times> ('raw, 'f) fs_file \<times> 'w" where
  "file_sync_all E f w = file_sync_impl E False f w"

definition file_sync_data ::
  "('raw, 'f, 'fd, 'w) file_env \<Rightarrow> ('raw, 'f) fs_file \<Rightarrow> 'w \<Rightarrow> unit io_result \<times> ('raw, 'f) fs_file \<times> 'w" where
  "file_sync_data E f w = file_sync_impl E True f w"

subsection \<open>Loops over transfers\<close>

text \<open>\<open>read_exact_at\<close> makes progress in every round that does not end it, so it ends.\<close>

function read_exact_loop ::
  "('raw, 'f, 'fd, 'w) file_env \<Rightarrow> usize \<Rightarrow> nat \<Rightarrow> nat \<Rightarrow> iobuf \<Rightarrow> ('raw, 'f) fs_file \<Rightarrow> 'w \<Rightarrow> (nat, 'raw, 'f, 'w) file_result" where
  "read_exact_loop E pos need total_read buffer f w =
     (if total_read < need then
        (case checked_add (unat pos) total_read of
           None \<Rightarrow> None
         | Some at \<Rightarrow>
             (case file_read_at E f buffer (of_nat at) w of
                None \<Rightarrow> None
              | Some ((Err e, buffer'), f', w') \<Rightarrow> Some ((Err e, buffer'), f', w')
              | Some ((Ok read, buffer'), f', w') \<Rightarrow>
                  if read = 0 then Some ((Ok total_read, buffer'), f', w')
                  else if checked_add total_read (unat read) = None then None
                  else read_exact_loop E pos need (total_read + unat read) buffer' f' w'))
      else Some ((Ok total_read, buffer), f, w))"
  by pat_completeness auto

termination
  by (relation "measure (\<lambda>(E, pos, need, total_read, buffer, f, w). need - total_read)")
    (auto intro!: diff_less_mono2 simp: unat_gt_0)

declare read_exact_loop.simps [simp del]

definition file_read_exact_at ::
  "('raw, 'f, 'fd, 'w) file_env \<Rightarrow> ('raw, 'f) fs_file \<Rightarrow> iobuf \<Rightarrow> usize \<Rightarrow> 'w \<Rightarrow> (nat, 'raw, 'f, 'w) file_result" where
  "file_read_exact_at E f buffer pos w =
     do { (_, need) \<leftarrow> as_uninit_slice buffer;
          ((res, buffer'), f', w') \<leftarrow> read_exact_loop E pos need 0 buffer f w;
          Some (((case res of
                    Err e \<Rightarrow> Err e
                  | Ok total_read \<Rightarrow> if total_read < need then Err unexpected_eof else Ok total_read),
                 buffer'), f', w') }"

text \<open>\<open>Vec::reserve\<close>: the allocator gives a new address and the bytes after the initialised ones.\<close>

definition vec_reserve :: "(raw_buf \<Rightarrow> nat \<Rightarrow> nat \<times> u8 list) \<Rightarrow> nat \<Rightarrow> raw_buf \<Rightarrow> raw_buf" where
  "vec_reserve grow additional v =
     (if additional \<le> length (raw_mem v) - raw_len v then v
      else let (p, fresh) = grow v additional
           in v\<lparr>raw_ptr := p, raw_mem := take (raw_len v) (raw_mem v) @ fresh\<rparr>)"

partial_function (option) read_to_end_loop ::
  "('raw, 'f, 'fd, 'w) file_env \<Rightarrow> usize \<Rightarrow> nat \<Rightarrow> raw_buf \<Rightarrow> ('raw, 'f) fs_file \<Rightarrow> 'w \<Rightarrow> (nat, 'raw, 'f, 'w) file_result option" where
  "read_to_end_loop E pos total_read v f w =
     (case checked_add (unat pos) total_read of
        None \<Rightarrow> Some None
      | Some at \<Rightarrow>
          (case file_read_at E f (Raw v) (of_nat at) w of
             None \<Rightarrow> Some None
           | Some ((Err e, b), f', w') \<Rightarrow> Some (Some ((Err e, b), f', w'))
           | Some ((Ok read, b), f', w') \<Rightarrow>
               if read = 0 then Some (Some ((Ok total_read, b), f', w'))
               else if checked_add total_read (unat read) = None then Some None
               else
                 (let v' = root b;
                      v'' = if raw_len v' = raw_capacity v' then vec_reserve (env_grow E) 32 v' else v'
                  in read_to_end_loop E pos (total_read + unat read) v'' f' w')))"

definition file_read_to_end_at ::
  "('raw, 'f, 'fd, 'w) file_env \<Rightarrow> ('raw, 'f) fs_file \<Rightarrow> raw_buf \<Rightarrow> usize \<Rightarrow> 'w \<Rightarrow> (nat, 'raw, 'f, 'w) file_result option" where
  "file_read_to_end_at E f v pos w = read_to_end_loop E pos 0 v f w"

partial_function (option) write_all_loop ::
  "('raw, 'f, 'fd, 'w) file_env \<Rightarrow> usize \<Rightarrow> nat \<Rightarrow> nat \<Rightarrow> iobuf \<Rightarrow> ('raw, 'f) fs_file \<Rightarrow> 'w \<Rightarrow> (nat, 'raw, 'f, 'w) file_result option" where
  "write_all_loop E pos len total_written buffer f w =
     (if total_written < len then
        (case slice buffer (Included total_written) Unbounded of
           None \<Rightarrow> Some None
         | Some part \<Rightarrow>
             (case checked_add (unat pos) total_written of
                None \<Rightarrow> Some None
              | Some at \<Rightarrow>
                  (case file_write_at E f part (of_nat at) w of
                     ((Err e, part'), f', w') \<Rightarrow> Some (Some ((Err e, slice_into_inner part'), f', w'))
                   | ((Ok written, part'), f', w') \<Rightarrow>
                       if checked_add total_written (unat written) = None then Some None
                       else write_all_loop E pos len (total_written + unat written) (slice_into_inner part') f' w')))
      else Some (Some ((Ok total_written, buffer), f, w)))"

definition file_write_all_at ::
  "('raw, 'f, 'fd, 'w) file_env \<Rightarrow> ('raw, 'f) fs_file \<Rightarrow> iobuf \<Rightarrow> usize \<Rightarrow> 'w \<Rightarrow> (nat, 'raw, 'f, 'w) file_result option" where
  "file_write_all_at E f buffer pos w =
     (case buf_len buffer of
        None \<Rightarrow> Some None
      | Some len \<Rightarrow> write_all_loop E pos len 0 buffer f w)"

subsection \<open>A regular file\<close>

text \<open>
  What the loops rely on: a positional read of a regular file stores bytes of the file from the
  offset on, as many as it likes within the spare room and the file, none only when there is no
  room or no byte left; a write of at least one byte transfers at least one. The contents of the
  file behind a descriptor are a function of the world. This may be promised only in the
  worlds of an invariant \<open>I\<close>, which the operation keeps, and only for the requested lengths \<open>R\<close>.
\<close>

definition reads_file_on ::
  "('w \<Rightarrow> bool) \<Rightarrow> (nat \<Rightarrow> bool) \<Rightarrow> ('raw, 'f, 'fd, 'w) file_env \<Rightarrow> ('fd \<Rightarrow> 'w \<Rightarrow> u8 list) \<Rightarrow> bool" where
  "reads_file_on I R E content \<longleftrightarrow>
     (\<forall>op w a k. wf_buf (read_at_buffer op) \<longrightarrow> as_uninit_slice (read_at_buffer op) = Some (a, k) \<longrightarrow> R k \<longrightarrow> I w \<longrightarrow>
        (\<exists>m w'. let rest = drop (unat (read_at_offset op)) (content (read_at_fd op) w) in
           await_read_at E op w =
             ((Ok (of_nat m), op\<lparr>read_at_buffer := store_bytes a (take m rest) (read_at_buffer op)\<rparr>), w') \<and>
           m \<le> k \<and> m \<le> length rest \<and> m < 2 ^ 64 \<and> (m = 0 \<longrightarrow> k = 0 \<or> rest = []) \<and>
           content (read_at_fd op) w' = content (read_at_fd op) w \<and> I w'))"

definition reads_file :: "('raw, 'f, 'fd, 'w) file_env \<Rightarrow> ('fd \<Rightarrow> 'w \<Rightarrow> u8 list) \<Rightarrow> bool" where
  "reads_file E content \<longleftrightarrow> reads_file_on (\<lambda>w. True) (\<lambda>k. True) E content"

definition splice :: "nat \<Rightarrow> 'a \<Rightarrow> 'a list \<Rightarrow> 'a list \<Rightarrow> 'a list" where
  "splice at z ds xs =
     (if ds = [] then xs
      else take at (xs @ replicate (at - length xs) z) @ ds @ drop (at + length ds) xs)"

definition writes_file_on ::
  "('w \<Rightarrow> bool) \<Rightarrow> (nat \<Rightarrow> bool) \<Rightarrow> ('raw, 'f, 'fd, 'w) file_env \<Rightarrow> ('fd \<Rightarrow> 'w \<Rightarrow> u8 list) \<Rightarrow> bool" where
  "writes_file_on I R E content \<longleftrightarrow>
     (\<forall>op w ds. wf_buf (write_at_buffer op) \<longrightarrow> as_slice (write_at_buffer op) = Some ds \<longrightarrow> ds \<noteq> [] \<longrightarrow>
        R (length ds) \<longrightarrow> I w \<longrightarrow>
        (\<exists>m w'. await_write_at E op w = ((Ok (of_nat m), op), w') \<and>
           0 < m \<and> m \<le> length ds \<and> m < 2 ^ 64 \<and>
           content (write_at_fd op) w' =
             splice (unat (write_at_offset op)) 0 (take m ds) (content (write_at_fd op) w) \<and> I w'))"

definition writes_file :: "('raw, 'f, 'fd, 'w) file_env \<Rightarrow> ('fd \<Rightarrow> 'w \<Rightarrow> u8 list) \<Rightarrow> bool" where
  "writes_file E content \<longleftrightarrow> writes_file_on (\<lambda>w. True) (\<lambda>k. True) E content"

lemma splice_splice:
  assumes "m \<le> length ds"
  shows "splice (at + m) z (drop m ds) (splice at z (take m ds) xs) = splice at z ds xs"
proof (cases "m = 0 \<or> m = length ds")
  case True
  then show ?thesis by (auto simp: splice_def)
next
  case False
  then have m: "0 < m" "m < length ds" using assms by auto
  then have ne: "take m ds \<noteq> []" "drop m ds \<noteq> []" "ds \<noteq> []" by auto
  let ?ys = "splice at z (take m ds) xs"
  have at: "length (take at (xs @ replicate (at - length xs) z)) = at" by simp
  then have "take (at + m) ?ys = take at (xs @ replicate (at - length xs) z) @ take m ds"
    using m ne by (simp add: splice_def)
  moreover have "at + m - length ?ys = 0" using at m ne by (simp add: splice_def)
  moreover have "drop (at + m + length (drop m ds)) ?ys = drop (at + length ds) xs"
    using at m ne by (simp add: splice_def min_def add.commute)
  ultimately show ?thesis using m ne by (simp add: splice_def [of _ _ "drop m ds"] splice_def [of _ _ ds])
qed

lemma of_nat_eq_0_iff_usize: "m < 2 ^ 64 \<Longrightarrow> (of_nat m :: usize) = 0 \<longleftrightarrow> m = 0"
  by (simp only: unat_eq_zero [symmetric] unat_of_nat_usize)

lemma unat_less_usize: "unat (x :: usize) < 2 ^ 64"
  using unsigned_less [of x] by simp

lemma attached_file:
  "once (file_attacher f) = Some fd \<Longrightarrow> file_attach E f w = (Ok fd, f, w)"
  by (simp add: file_attach_def attacher_attach_def)

lemma reads_fileD:
  assumes "reads_file_on I R E content" "wf_buf (read_at_buffer op)" "as_uninit_slice (read_at_buffer op) = Some (a, k)" "R k" "I w"
  shows "\<exists>m w'. let rest = drop (unat (read_at_offset op)) (content (read_at_fd op) w) in
    await_read_at E op w =
      ((Ok (of_nat m), op\<lparr>read_at_buffer := store_bytes a (take m rest) (read_at_buffer op)\<rparr>), w') \<and>
    m \<le> k \<and> m \<le> length rest \<and> m < 2 ^ 64 \<and> (m = 0 \<longrightarrow> k = 0 \<or> rest = []) \<and>
    content (read_at_fd op) w' = content (read_at_fd op) w \<and> I w'"
  using assms unfolding reads_file_on_def by (elim allE impE)

text \<open>The epilogue of every read: the bytes stored in the spare room become the tail of the buffer.\<close>

lemma transfer_appends:
  assumes b: "wf_buf b" "mut_buf b" "geometry b p n c" "as_slice b = Some old"
    and m: "m \<le> c - n" "m \<le> length rest" "m < 2 ^ 64"
  obtains b' where "update_buffer_len set_buf_init (Ok (of_nat m), store_bytes (p + n) (take m rest) b) =
      Some (Ok (of_nat m), b')"
    "set_buf_init m (store_bytes (p + n) (take m rest) b) = Some b'"
    "wf_buf b'" "mut_buf b'" "geometry b' p (n + m) c" "as_slice b' = Some (old @ take m rest)"
proof -
  have len: "length (take m rest) = m" using m(2) by simp
  have "length (take m rest) \<le> c - n" using m(1) len by simp
  from store_then_init [OF b(1-3) this] obtain b' where b':
      "set_buf_init m (store_bytes (p + n) (take m rest) b) = Some b'" "wf_buf b'" "mut_buf b'"
      "geometry b' p (n + m) c" "as_slice b' = Some (bytes_at (root b) p n @ take m rest)"
    unfolding len by blast
  have "bytes_at (root b) p n = old" using geometry_as_slice [OF b(3)] b(4) by simp
  then show thesis using b' m(3) by (intro that [of b']) (simp_all add: update_buffer_len_def)
qed

text \<open>One read of a regular file appends a part of it to the buffer.\<close>

lemma file_read_at_step:
  assumes "reads_file_on I R E content" "once (file_attacher f) = Some fd" "R (c - n)" "I w"
    and b: "wf_buf b" "mut_buf b" "geometry b p n c" "as_slice b = Some old"
  obtains m b' w' where "file_read_at E f b pos w = Some ((Ok (of_nat m), b'), f, w')"
    "m \<le> c - n" "m \<le> length (content (env_into E fd) w) - unat pos" "m < 2 ^ 64"
    "m = 0 \<Longrightarrow> c = n \<or> length (content (env_into E fd) w) \<le> unat pos"
    "wf_buf b'" "mut_buf b'" "geometry b' p (n + m) c"
    "set_buf_init m (store_bytes (p + n) (take m (drop (unat pos) (content (env_into E fd) w))) b) = Some b'"
    "as_slice b' = Some (old @ take m (drop (unat pos) (content (env_into E fd) w)))"
    "content (env_into E fd) w' = content (env_into E fd) w" "I w'"
proof -
  let ?op = "read_at_new (env_into E) fd pos b"
  let ?rest = "drop (unat pos) (content (env_into E fd) w)"
  have u: "as_uninit_slice (read_at_buffer ?op) = Some (p + n, c - n)"
    using geometry_uninit [OF b(3)] by (simp add: read_at_new_def)
  obtain m w' where m: "await_read_at E ?op w =
        ((Ok (of_nat m), ?op\<lparr>read_at_buffer := store_bytes (p + n) (take m ?rest) b\<rparr>), w')"
      "m \<le> c - n" "m \<le> length ?rest" "m < 2 ^ 64" "m = 0 \<longrightarrow> c - n = 0 \<or> ?rest = []"
      "content (env_into E fd) w' = content (env_into E fd) w" "I w'"
    using reads_fileD [OF assms(1) _ u assms(3,4)] b(1) by (auto simp: read_at_new_def Let_def)
  obtain b' where b': "update_buffer_len set_buf_init (Ok (of_nat m), store_bytes (p + n) (take m ?rest) b) =
        Some (Ok (of_nat m), b')"
      "set_buf_init m (store_bytes (p + n) (take m ?rest) b) = Some b'"
      "wf_buf b'" "mut_buf b'" "geometry b' p (n + m) c" "as_slice b' = Some (old @ take m ?rest)"
    by (rule transfer_appends [OF b m(2-4)], rule that)
  have "file_read_at E f b pos w = Some ((Ok (of_nat m), b'), f, w')"
    using m(1) b'(1)
    by (simp add: file_read_at_def attached_file [OF assms(2)] buf_result_into_inner_def read_at_into_inner_def)
  moreover have "m = 0 \<Longrightarrow> c = n \<or> length (content (env_into E fd) w) \<le> unat pos"
    using m(5) b(3) by (auto simp: geometry_def)
  ultimately show thesis
    using m(2,3,4,6,7) b' by (intro that [of m b' w']) simp_all
qed

subsection \<open>Exact reads\<close>

text \<open>One round of the loop: it meets the end of the file, or makes progress.\<close>

lemma read_exact_round:
  assumes "reads_file_on I R E content" "once (file_attacher f) = Some fd" "R (need - t)" "I w"
    and "wf_buf b" "mut_buf b" "geometry b p (n + t) (n + need)" "content (env_into E fd) w = C"
    and "as_slice b = Some (old @ take t (drop (unat pos) C))"
    and "t < need" "t \<le> length C - unat pos" "unat pos + need < 2 ^ 64"
  obtains (eof) b' w' where "read_exact_loop E pos need t b f w = Some ((Ok t, b'), f, w')" "length C - unat pos = t"
      "wf_buf b'" "as_slice b' = Some (old @ take t (drop (unat pos) C))" "content (env_into E fd) w' = C" "I w'"
    | (more) m b' w' where "read_exact_loop E pos need t b f w = read_exact_loop E pos need (t + m) b' f w'"
      "0 < m" "t + m \<le> need" "t + m \<le> length C - unat pos" "I w'" "wf_buf b'" "mut_buf b'"
      "geometry b' p (n + (t + m)) (n + need)" "content (env_into E fd) w' = C"
      "as_slice b' = Some (old @ take (t + m) (drop (unat pos) C))"
proof -
  define at where "at = unat pos + t"
  have at: "checked_add (unat pos) t = Some at" "at < 2 ^ 64"
    using assms(10,12) by (simp_all add: checked_add_def at_def)
  have R: "R (n + need - (n + t))" using assms(3) by simp
  obtain m b' w' where s: "file_read_at E f b (of_nat at) w = Some ((Ok (of_nat m), b'), f, w')"
      "m \<le> n + need - (n + t)" "m \<le> length C - at" "m < 2 ^ 64" "m = 0 \<Longrightarrow> n + need = n + t \<or> length C \<le> at"
      "wf_buf b'" "mut_buf b'" "geometry b' p (n + t + m) (n + need)"
      "as_slice b' = Some ((old @ take t (drop (unat pos) C)) @ take m (drop at C))"
      "content (env_into E fd) w' = C" "I w'"
    by (rule file_read_at_step [OF assms(1,2) R assms(4-7,9), where pos = "of_nat at",
          unfolded assms(8) unat_of_nat_usize [OF at(2)]], rule that)
  have app: "as_slice b' = Some (old @ take (t + m) (drop (unat pos) C))"
    using s(9) by (simp add: take_add at_def add.commute [of "unat pos" t])
  show thesis
  proof (cases "m = 0")
    case True
    then have "length C - unat pos = t" using s(5) assms(10,11) by (auto simp: at_def)
    moreover have "read_exact_loop E pos need t b f w = Some ((Ok t, b'), f, w')"
      using assms(10) at(1) s(1) True by (subst read_exact_loop.simps) simp
    ultimately show thesis using s(6,10,11) app True by (intro eof) simp_all
  next
    case False
    then have "of_nat m \<noteq> (0 :: usize)" "unat (of_nat m :: usize) = m"
      using s(4) by (auto simp: of_nat_eq_0_iff_usize)
    moreover have "checked_add t m \<noteq> None" using s(2) assms(10,12) by (simp add: checked_add_def)
    ultimately have "read_exact_loop E pos need t b f w = read_exact_loop E pos need (t + m) b' f w'"
      using assms(10) at(1) s(1) by (subst read_exact_loop.simps) auto
    then show thesis using s(2,3,6-8,10,11) app False assms(10,11) by (intro more [of m b' w']) (simp_all add: at_def add.assoc)
  qed
qed

lemma read_exact_loop_fills:
  assumes "reads_file_on I R E content" "once (file_attacher f) = Some fd" "\<forall>k \<le> need. R k"
    and "wf_buf b" "mut_buf b" "geometry b p (n + t) (n + need)"
    and "content (env_into E fd) w = C"
    and "as_slice b = Some (old @ take t (drop (unat pos) C))"
    and "t \<le> need" "t \<le> length C - unat pos" "unat pos + need < 2 ^ 64" "I w"
  shows "\<exists>b' w'. read_exact_loop E pos need t b f w =
      Some ((Ok (min need (length C - unat pos)), b'), f, w') \<and>
    wf_buf b' \<and> as_slice b' = Some (old @ take need (drop (unat pos) C)) \<and> content (env_into E fd) w' = C \<and> I w'"
  using assms(4-)
proof (induction "need - t" arbitrary: t b w rule: less_induct)
  case less
  show ?case
  proof (cases "t < need")
    case False
    then have "t = need" "min need (length C - unat pos) = need" using less.prems(6,7) by simp_all
    moreover have "read_exact_loop E pos need need b f w = Some ((Ok need, b), f, w)"
      by (subst read_exact_loop.simps) simp
    ultimately show ?thesis using less.prems(1,4,5,9) by (intro exI [of _ b] exI [of _ w]) simp
  next
    case True
    have "R (need - t)" using assms(3) by simp
    from assms(1,2) this less.prems(9,1-5) True less.prems(7,8) show ?thesis
    proof (cases rule: read_exact_round)
      case (eof b' w')
      then show ?thesis using True by (intro exI [of _ b'] exI [of _ w']) simp
    next
      case (more m b' w')
      then have "need - (t + m) < need - t" using True by simp
      from less.hyps [OF this more(6-10,3,4) less.prems(8) more(5)] show ?thesis using more(1) by simp
    qed
  qed
qed

lemma file_read_exact_at_filled:
  assumes "reads_file_on I R E content" "once (file_attacher f) = Some fd" "\<forall>k \<le> need. R k"
    and "wf_buf b" "mut_buf b" "as_slice b = Some old" "as_uninit_slice b = Some (a, need)"
    and "unat pos + need < 2 ^ 64" "I w"
  shows "\<exists>b' w'. file_read_exact_at E f b pos w =
      Some ((if need \<le> length (content (env_into E fd) w) - unat pos then Ok need else Err unexpected_eof, b'), f, w') \<and>
    wf_buf b' \<and> as_slice b' = Some (old @ take need (drop (unat pos) (content (env_into E fd) w))) \<and> I w'"
proof -
  obtain p n c where g: "geometry b p n c" using wf_buf_geometry [OF assms(4)] by blast
  then have c: "need = c - n" "n \<le> c" using geometry_uninit [OF g] assms(7) by (auto simp: geometry_def)
  have "\<exists>b' w'. read_exact_loop E pos need 0 b f w =
      Some ((Ok (min need (length (content (env_into E fd) w) - unat pos)), b'), f, w') \<and>
    wf_buf b' \<and> as_slice b' = Some (old @ take need (drop (unat pos) (content (env_into E fd) w))) \<and>
    content (env_into E fd) w' = content (env_into E fd) w \<and> I w'"
    by (rule read_exact_loop_fills [OF assms(1-3), where p = p and n = n])
      (use assms(4-6,8,9) g c in simp_all)
  then obtain b' w' where l: "read_exact_loop E pos need 0 b f w =
      Some ((Ok (min need (length (content (env_into E fd) w) - unat pos)), b'), f, w')"
    "wf_buf b'" "as_slice b' = Some (old @ take need (drop (unat pos) (content (env_into E fd) w)))" "I w'"
    by blast
  have "file_read_exact_at E f b pos w =
      Some ((if need \<le> length (content (env_into E fd) w) - unat pos then Ok need else Err unexpected_eof, b'), f, w')"
    using assms(7) by (simp add: file_read_exact_at_def l(1) min_def)
  then show ?thesis using l(2-4) by (intro exI [of _ b'] exI [of _ w']) simp
qed

text \<open>
  C13. An exact read of a regular file ends. It appends the bytes of the file from the position
  on, as many as the buffer had room for, and answers the number; when the file is too short it
  appends what is there and answers \<open>UnexpectedEof\<close>.
\<close>

theorem read_exact_at_fills:
  assumes "reads_file E content" "once (file_attacher f) = Some fd"
    and "wf_buf b" "mut_buf b" "as_slice b = Some old" "as_uninit_slice b = Some (a, need)"
    and "unat pos + need < 2 ^ 64"
  shows "\<exists>b' w'. file_read_exact_at E f b pos w =
      Some ((if need \<le> length (content (env_into E fd) w) - unat pos then Ok need else Err unexpected_eof, b'), f, w') \<and>
    wf_buf b' \<and> as_slice b' = Some (old @ take need (drop (unat pos) (content (env_into E fd) w)))"
  using file_read_exact_at_filled [OF assms(1) [unfolded reads_file_def] assms(2) _ assms(3-7)] by blast

subsection \<open>Reads to the end\<close>

definition allocates :: "('raw, 'f, 'fd, 'w) file_env \<Rightarrow> bool" where
  "allocates E \<longleftrightarrow> (\<forall>v additional. additional \<le> length (snd (env_grow E v additional)))"

text \<open>A vector with room, and one whose next round can read something.\<close>

definition roomy :: "raw_buf \<Rightarrow> bool" where
  "roomy v \<longleftrightarrow> raw_kind v = VecU8 \<and> raw_len v < length (raw_mem v)"

lemma roomy_geometry:
  assumes "roomy v"
  shows "wf_buf (Raw v)" "mut_buf (Raw v)" "geometry (Raw v) (raw_ptr v) (raw_len v) (length (raw_mem v))"
  using assms by (auto simp: roomy_def wf_raw_def mut_buf_def geometry_def raw_capacity_def)

lemma as_slice_Raw: "as_slice (Raw v) = Some (take (raw_len v) (raw_mem v))"
  by (simp add: as_slice_def bytes_at_def)

lemma set_buf_init_vec:
  "raw_kind v = VecU8 \<Longrightarrow> set_buf_init m (store_bytes a ds (Raw v)) = Some b \<Longrightarrow>
   \<exists>v'. b = Raw v' \<and> raw_kind v' = VecU8"
  by (auto simp: raw_set_buf_init_def)

lemma vec_reserve_roomy:
  assumes "allocates E" "raw_kind v = VecU8" "raw_len v \<le> length (raw_mem v)"
  defines "u \<equiv> if raw_len v = raw_capacity v then vec_reserve (env_grow E) 32 v else v"
  shows "roomy u" "as_slice (Raw u) = as_slice (Raw v)"
proof -
  obtain p fresh where g: "env_grow E v 32 = (p, fresh)" "32 \<le> length fresh"
    using assms(1) unfolding allocates_def by (metis prod.collapse)
  show "roomy u" "as_slice (Raw u) = as_slice (Raw v)"
    using assms(2,3) g by (auto simp: u_def roomy_def vec_reserve_def raw_capacity_def as_slice_Raw)
qed

lemma read_to_end_round:
  assumes "reads_file_on I (\<lambda>k. True) E content" "allocates E" "once (file_attacher f) = Some fd" "I w"
    and "roomy v" "content (env_into E fd) w = C"
    and "as_slice (Raw v) = Some (old @ take t (drop (unat pos) C))"
    and "t \<le> length C - unat pos" "length C < 2 ^ 64"
  obtains (eof) v' w' where "read_to_end_loop E pos t v f w = Some (Some ((Ok t, Raw v'), f, w'))" "length C - unat pos = t"
      "as_slice (Raw v') = Some (old @ take t (drop (unat pos) C))" "I w'" "wf_buf (Raw v')"
    | (more) m u w' where "read_to_end_loop E pos t v f w = read_to_end_loop E pos (t + m) u f w'" "0 < m"
      "t + m \<le> length C - unat pos" "roomy u" "content (env_into E fd) w' = C"
      "as_slice (Raw u) = Some (old @ take (t + m) (drop (unat pos) C))" "I w'"
proof -
  define at where "at = unat pos + t"
  have at: "checked_add (unat pos) t = Some at" "at < 2 ^ 64"
    using assms(8,9) unat_less_usize [of pos] by (auto simp: checked_add_def at_def)
  obtain m b' w' where s: "file_read_at E f (Raw v) (of_nat at) w = Some ((Ok (of_nat m), b'), f, w')"
      "m \<le> length (raw_mem v) - raw_len v" "m \<le> length C - at" "m < 2 ^ 64"
      "m = 0 \<Longrightarrow> length (raw_mem v) = raw_len v \<or> length C \<le> at"
      "wf_buf b'" "geometry b' (raw_ptr v) (raw_len v + m) (length (raw_mem v))"
      "set_buf_init m (store_bytes (raw_ptr v + raw_len v) (take m (drop at C)) (Raw v)) = Some b'"
      "as_slice b' = Some ((old @ take t (drop (unat pos) C)) @ take m (drop at C))"
      "content (env_into E fd) w' = C" "I w'"
    by (rule file_read_at_step [OF assms(1,3) TrueI assms(4) roomy_geometry [OF assms(5)] assms(7),
          where pos = "of_nat at", unfolded assms(6) unat_of_nat_usize [OF at(2)]], rule that)
  have "raw_kind v = VecU8" using assms(5) by (simp add: roomy_def)
  then obtain v' where v': "b' = Raw v'" "raw_kind v' = VecU8" using set_buf_init_vec [OF _ s(8)] by blast
  have sl: "as_slice (Raw v') = Some (old @ take (t + m) (drop (unat pos) C))"
    using s(9) v'(1) by (simp add: take_add at_def add.commute [of "unat pos" t])
  show thesis
  proof (cases "m = 0")
    case True
    then have "length C - unat pos = t" using s(5) assms(5,8) by (auto simp: roomy_def at_def)
    moreover have "read_to_end_loop E pos t v f w = Some (Some ((Ok t, Raw v'), f, w'))"
      using at(1) s(1) v'(1) True by (subst read_to_end_loop.simps) simp
    ultimately show thesis using sl True s(6,11) v'(1) by (intro eof) simp_all
  next
    case False
    define u where "u = (if raw_len v' = raw_capacity v' then vec_reserve (env_grow E) 32 v' else v')"
    have u: "roomy u" "as_slice (Raw u) = as_slice (Raw v')"
      using vec_reserve_roomy [OF assms(2) v'(2)] s(6) v'(1) by (simp_all add: u_def wf_raw_def)
    have "of_nat m \<noteq> (0 :: usize)" "unat (of_nat m :: usize) = m"
      using False s(4) by (auto simp: of_nat_eq_0_iff_usize)
    moreover have "checked_add t m \<noteq> None" using s(3) False assms(9) by (simp add: checked_add_def at_def)
    ultimately have "read_to_end_loop E pos t v f w = read_to_end_loop E pos (t + m) u f w'"
      using at(1) s(1) v'(1) by (subst read_to_end_loop.simps) (auto simp: u_def Let_def)
    then show thesis using s(3,10,11) False u sl assms(8) by (intro more [of m u w']) (simp_all add: at_def)
  qed
qed

lemma read_to_end_loop_appends:
  assumes "reads_file_on I (\<lambda>k. True) E content" "allocates E" "once (file_attacher f) = Some fd"
    and "roomy v" "content (env_into E fd) w = C"
    and "as_slice (Raw v) = Some (old @ take t (drop (unat pos) C))"
    and "t \<le> length C - unat pos" "length C < 2 ^ 64" "I w"
  shows "\<exists>v' w'. read_to_end_loop E pos t v f w = Some (Some ((Ok (length C - unat pos), Raw v'), f, w')) \<and>
    as_slice (Raw v') = Some (old @ drop (unat pos) C) \<and> I w' \<and> wf_buf (Raw v')"
  using assms(4-)
proof (induction "length C - unat pos - t" arbitrary: t v w rule: less_induct)
  case less
  from assms(1-3) less.prems(6,1-5) show ?case
  proof (cases rule: read_to_end_round)
    case (eof v' w')
    then show ?thesis by (intro exI [of _ v'] exI [of _ w']) simp
  next
    case (more m u w')
    then have "length C - unat pos - (t + m) < length C - unat pos - t" by simp
    from less.hyps [OF this more(4-6,3) less.prems(5) more(7)] show ?thesis using more(1) by simp
  qed
qed

lemma file_read_to_end_at_appended:
  assumes "reads_file_on I (\<lambda>k. True) E content" "allocates E" "once (file_attacher f) = Some fd"
    and "raw_kind v = VecU8" "raw_len v < length (raw_mem v)"
    and "length (content (env_into E fd) w) < 2 ^ 64" "I w"
  shows "\<exists>v' w'. file_read_to_end_at E f v pos w =
      Some (Some ((Ok (length (content (env_into E fd) w) - unat pos), Raw v'), f, w')) \<and>
    as_slice (Raw v') = Some (take (raw_len v) (raw_mem v) @ drop (unat pos) (content (env_into E fd) w)) \<and> I w' \<and> wf_buf (Raw v')"
  unfolding file_read_to_end_at_def
  by (rule read_to_end_loop_appends [OF assms(1-3) _ refl _ _ assms(6,7)])
    (use assms(4,5) in \<open>simp_all add: roomy_def as_slice_Raw\<close>)

text \<open>
  C20. \<open>read_to_end_at\<close> on a vector with spare capacity ends: it appends all bytes of a regular
  file from the position on and answers their number.
\<close>

theorem read_to_end_at_appends:
  assumes "reads_file E content" "allocates E" "once (file_attacher f) = Some fd"
    and "raw_kind v = VecU8" "raw_len v < length (raw_mem v)"
    and "length (content (env_into E fd) w) < 2 ^ 64"
  shows "\<exists>v' w'. file_read_to_end_at E f v pos w =
      Some (Some ((Ok (length (content (env_into E fd) w) - unat pos), Raw v'), f, w')) \<and>
    as_slice (Raw v') = Some (take (raw_len v) (raw_mem v) @ drop (unat pos) (content (env_into E fd) w))"
  using file_read_to_end_at_appended [OF assms(1) [unfolded reads_file_def] assms(2-6) TrueI] by blast

text \<open>
  \<open>read_to_end_at\<close> on a vector whose capacity is used up, such as \<open>Vec::new()\<close>, answers 0 and
  reads nothing, whatever the file holds: the vector grows only after a read that transferred
  something.
\<close>

theorem read_to_end_at_full_vector_reads_nothing:
  assumes "reads_file E content" "once (file_attacher f) = Some fd"
    and "raw_kind v = VecU8" "raw_len v = length (raw_mem v)"
  shows "\<exists>b' w'. file_read_to_end_at E f v pos w = Some (Some ((Ok 0, b'), f, w')) \<and>
    as_slice b' = Some (raw_mem v)"
proof -
  have g: "wf_buf (Raw v)" "mut_buf (Raw v)" "geometry (Raw v) (raw_ptr v) (raw_len v) (length (raw_mem v))"
    using assms(3,4) by (auto simp: wf_raw_def mut_buf_def geometry_def raw_capacity_def)
  obtain m b' w' where s: "file_read_at E f (Raw v) pos w = Some ((Ok (of_nat m), b'), f, w')"
      "m \<le> length (raw_mem v) - raw_len v"
      "as_slice b' = Some (take (raw_len v) (raw_mem v) @ take m (drop (unat pos) (content (env_into E fd) w)))"
    by (rule file_read_at_step [OF assms(1) [unfolded reads_file_def] assms(2) TrueI TrueI g as_slice_Raw,
          where pos = pos and w = w], rule that)
  have "checked_add (unat pos) 0 = Some (unat pos)"
    using unat_less_usize [of pos] by (simp add: checked_add_def)
  moreover have "m = 0" using s(2) assms(4) by simp
  ultimately have "read_to_end_loop E pos 0 v f w = Some (Some ((Ok 0, b'), f, w'))"
    using s(1) by (subst read_to_end_loop.simps) simp
  then show ?thesis
    using s(3) assms(4) \<open>m = 0\<close> unfolding file_read_to_end_at_def by (intro exI [of _ b'] exI [of _ w']) simp
qed

subsection \<open>Writes of a whole buffer\<close>

lemma as_slice_buf_len:
  assumes "wf_buf b" "as_slice b = Some ds"
  shows "buf_len b = Some (length ds)"
proof -
  obtain p n c where g: "geometry b p n c" using wf_buf_geometry [OF assms(1)] by blast
  then have "length (bytes_at (root b) p n) = n" by (auto simp: bytes_at_def geometry_def)
  then show ?thesis using geometry_as_slice [OF g] assms(2) g by (simp add: geometry_def)
qed

lemma slice_tail:
  assumes "wf_buf b" "as_slice b = Some ds" "t < length ds"
  obtains c where "slice b (Included t) Unbounded = Some (Slice b t c)"
    "as_slice (Slice b t c) = Some (drop t ds)" "wf_buf (Slice b t c)"
proof -
  obtain p n c where g: "geometry b p n c" using wf_buf_geometry [OF assms(1)] by blast
  then have ds: "ds = bytes_at (root b) p n" using geometry_as_slice [OF g] assms(2) by simp
  have n: "n \<le> c" "raw_ptr (root b) \<le> p" "length ds \<le> n"
    using g by (simp_all add: geometry_def ds bytes_at_def)
  have sl: "slice b (Included t) Unbounded = Some (Slice b t c)"
    using g n assms(3) by (simp add: slice_def range_begin_def range_end_def geometry_def)
  have "as_slice (Slice b t c) = Some (bytes_at (root b) (p + t) (min c n - t))"
    using geometry_as_slice [OF geometry_Slice [OF g]] n assms(3) by simp
  also have "bytes_at (root b) (p + t) (min c n - t) = drop t ds"
    using bytes_at_sub [OF n(2), of t c n] n by (simp add: ds)
  finally show thesis using that sl assms(1,3) g n by (simp add: geometry_def)
qed

lemma file_write_at_step:
  assumes "writes_file_on I R E content" "once (file_attacher f) = Some fd" "wf_buf b" "as_slice b = Some ds" "ds \<noteq> []"
    and "R (length ds)" "I w"
  obtains m w' where "file_write_at E f b pos w = ((Ok (of_nat m), b), f, w')"
    "0 < m" "m \<le> length ds" "m < 2 ^ 64"
    "content (env_into E fd) w' = splice (unat pos) 0 (take m ds) (content (env_into E fd) w)" "I w'"
proof -
  let ?op = "write_at_new (env_into E) fd pos b"
  have "wf_buf (write_at_buffer ?op)" "as_slice (write_at_buffer ?op) = Some ds"
    using assms(3,4) by (simp_all add: write_at_new_def)
  from assms(1) [unfolded writes_file_on_def, rule_format, OF this assms(5-7)]
  obtain m w' where "await_write_at E ?op w = ((Ok (of_nat m), ?op), w')"
      "0 < m" "m \<le> length ds" "m < 2 ^ 64"
      "content (env_into E fd) w' = splice (unat pos) 0 (take m ds) (content (env_into E fd) w)" "I w'"
    by (auto simp: write_at_new_def)
  then show thesis
    by (intro that [of m w'])
      (simp_all add: file_write_at_def attached_file [OF assms(2)] buf_result_into_inner_def
        write_at_into_inner_def write_at_new_def)
qed

lemma write_all_loop_writes:
  assumes "writes_file_on I R E content" "once (file_attacher f) = Some fd" "wf_buf b" "as_slice b = Some ds"
    and "unat pos + length ds < 2 ^ 64" "\<forall>k \<le> length ds. R k"
    and "content (env_into E fd) w = splice (unat pos) 0 (take t ds) C" "t \<le> length ds" "I w"
  shows "\<exists>w'. write_all_loop E pos (length ds) t b f w = Some (Some ((Ok (length ds), b), f, w')) \<and>
    content (env_into E fd) w' = splice (unat pos) 0 ds C \<and> I w'"
  using assms(7-9)
proof (induction "length ds - t" arbitrary: t w rule: less_induct)
  case less
  show ?case
  proof (cases "t < length ds")
    case False
    then have "t = length ds" using less.prems(2) by simp
    moreover have "write_all_loop E pos (length ds) (length ds) b f w = Some (Some ((Ok (length ds), b), f, w))"
      by (subst write_all_loop.simps) simp
    ultimately show ?thesis using less.prems(1,3) by simp
  next
    case True
    define at where "at = unat pos + t"
    have at: "checked_add (unat pos) t = Some at" "at < 2 ^ 64"
      using assms(5) True by (simp_all add: checked_add_def at_def)
    obtain c where c: "slice b (Included t) Unbounded = Some (Slice b t c)"
        "as_slice (Slice b t c) = Some (drop t ds)" "wf_buf (Slice b t c)"
      by (rule slice_tail [OF assms(3,4) True], rule that)
    have ne: "drop t ds \<noteq> []" "R (length (drop t ds))" using True assms(6) by simp_all
    obtain m w' where m: "file_write_at E f (Slice b t c) (of_nat at) w = ((Ok (of_nat m), Slice b t c), f, w')"
        "0 < m" "m \<le> length (drop t ds)" "m < 2 ^ 64"
        "content (env_into E fd) w' = splice at 0 (take m (drop t ds)) (splice (unat pos) 0 (take t ds) C)" "I w'"
      by (rule file_write_at_step [OF assms(1,2) c(3,2) ne less.prems(3), where pos = "of_nat at",
            unfolded less.prems(1) unat_of_nat_usize [OF at(2)]], rule that)
    have cu: "checked_add t m \<noteq> None" "unat (of_nat m :: usize) = m"
      using m(3,4) assms(5) True by (simp_all add: checked_add_def)
    have "write_all_loop E pos (length ds) t b f w = write_all_loop E pos (length ds) (t + m) b f w'"
      using True c(1) at(1) m(1) cu by (subst write_all_loop.simps) auto
    moreover have "content (env_into E fd) w' = splice (unat pos) 0 (take (t + m) ds) C"
      using splice_splice [of t "take (t + m) ds" "unat pos" 0 C] m(3,5) True
      by (simp add: at_def drop_take min_def)
    ultimately show ?thesis using less.hyps [of "t + m" w'] m(2,3,6) True by simp
  qed
qed

lemma file_write_all_at_written:
  assumes "writes_file_on I R E content" "once (file_attacher f) = Some fd" "wf_buf b" "as_slice b = Some ds"
    and "unat pos + length ds < 2 ^ 64" "\<forall>k \<le> length ds. R k" "I w"
  shows "\<exists>w'. file_write_all_at E f b pos w = Some (Some ((Ok (length ds), b), f, w')) \<and>
    content (env_into E fd) w' = splice (unat pos) 0 ds (content (env_into E fd) w) \<and> I w'"
proof -
  have "content (env_into E fd) w = splice (unat pos) 0 (take 0 ds) (content (env_into E fd) w)"
    by (simp add: splice_def)
  then have "\<exists>w'. write_all_loop E pos (length ds) 0 b f w = Some (Some ((Ok (length ds), b), f, w')) \<and>
      content (env_into E fd) w' = splice (unat pos) 0 ds (content (env_into E fd) w) \<and> I w'"
    by (rule write_all_loop_writes [OF assms(1-6)]) (simp_all add: assms(7))
  then show ?thesis using as_slice_buf_len [OF assms(3,4)] by (simp add: file_write_all_at_def)
qed

text \<open>
  \<open>write_all_at\<close> ends when every write transfers something: the whole buffer is in the file at
  the position, the rest of the file is as before, and the buffer comes back unchanged.
\<close>

theorem write_all_at_writes:
  assumes "writes_file E content" "once (file_attacher f) = Some fd"
    and "wf_buf b" "as_slice b = Some ds" "unat pos + length ds < 2 ^ 64"
  shows "\<exists>w'. file_write_all_at E f b pos w = Some (Some ((Ok (length ds), b), f, w')) \<and>
    content (env_into E fd) w' = splice (unat pos) 0 ds (content (env_into E fd) w)"
  using file_write_all_at_written [OF assms(1) [unfolded writes_file_def] assms(2-5)] by blast

text \<open>A write that transfers nothing leaves the loop where it was.\<close>

definition writes_nothing :: "('raw, 'f, 'fd, 'w) file_env \<Rightarrow> bool" where
  "writes_nothing E \<longleftrightarrow> (\<forall>op w. \<exists>w'. await_write_at E op w = ((Ok 0, op), w'))"

lemma write_nothing_step:
  assumes "writes_nothing E" "once (file_attacher f) = Some fd"
  obtains w' where "file_write_at E f b pos w = ((Ok 0, b), f, w')"
proof -
  obtain w' where "await_write_at E (write_at_new (env_into E) fd pos b) w =
      ((Ok 0, write_at_new (env_into E) fd pos b), w')"
    using assms(1) unfolding writes_nothing_def by blast
  then show thesis
    by (intro that [of w'])
      (simp add: file_write_at_def attached_file [OF assms(2)] buf_result_into_inner_def
        write_at_into_inner_def write_at_new_def)
qed

lemma write_all_loop_stuck:
  fixes E :: "('raw, 'f, 'fd, 'w) file_env" and f :: "('raw, 'f) fs_file"
  assumes "write_all_loop E pos len t b f w = Some r"
  shows "writes_nothing E \<longrightarrow> once (file_attacher f) = Some fd \<longrightarrow> t < len \<longrightarrow> unat pos + t < 2 ^ 64 \<longrightarrow>
    t < 2 ^ 64 \<longrightarrow> slice b (Included t) Unbounded = Some (Slice b t c) \<longrightarrow> False"
proof (rule write_all_loop.raw_induct [OF _ assms], intro impI)
  fix self len t b and pos :: usize and w :: 'w and r :: "(nat, 'raw, 'f, 'w) file_result"
    and E :: "('raw, 'f, 'fd, 'w) file_env" and f :: "('raw, 'f) fs_file"
  assume ih: "\<And>(E :: ('raw, 'f, 'fd, 'w) file_env) (pos :: usize) len t b (f :: ('raw, 'f) fs_file) (w :: 'w)
        (r :: (nat, 'raw, 'f, 'w) file_result). self E pos len t b f w = Some r \<Longrightarrow>
      writes_nothing E \<longrightarrow> once (file_attacher f) = Some fd \<longrightarrow> t < len \<longrightarrow> unat pos + t < 2 ^ 64 \<longrightarrow>
      t < 2 ^ 64 \<longrightarrow> slice b (Included t) Unbounded = Some (Slice b t c) \<longrightarrow> False"
    and pre: "writes_nothing E" "once (file_attacher f) = Some fd" "t < len" "unat pos + t < 2 ^ 64"
      "t < 2 ^ 64" "slice b (Included t) Unbounded = Some (Slice b t c)"
  assume body: "(if t < len then
        (case slice b (Included t) Unbounded of
           None \<Rightarrow> Some None
         | Some part \<Rightarrow>
             (case checked_add (unat pos) t of
                None \<Rightarrow> Some None
              | Some at \<Rightarrow>
                  (case file_write_at E f part (of_nat at) w of
                     ((Err e, part'), f', w') \<Rightarrow> Some (Some ((Err e, slice_into_inner part'), f', w'))
                   | ((Ok written, part'), f', w') \<Rightarrow>
                       if checked_add t (unat written) = None then Some None
                       else self E pos len (t + unat written) (slice_into_inner part') f' w')))
      else Some (Some ((Ok t, b), f, w))) = Some r"
  obtain w' where w': "file_write_at E f (Slice b t c) (of_nat (unat pos + t)) w = ((Ok 0, Slice b t c), f, w')"
    by (rule write_nothing_step [OF pre(1,2)])
  have "self E pos len t b f w' = Some r"
    using body pre w' by (simp add: checked_add_def)
  then show False using ih pre by blast
qed

text \<open>
  \<open>write_all_at\<close> never returns when the writes transfer nothing, which \<open>write_at\<close> documents as
  what happens on a file that is no longer able to accept bytes.
\<close>

theorem write_all_at_stuck:
  assumes "writes_nothing E" "once (file_attacher f) = Some fd"
    and "wf_buf b" "as_slice b = Some ds" "ds \<noteq> []"
  shows "file_write_all_at E f b pos w = None"
proof -
  obtain c where "slice b (Included 0) Unbounded = Some (Slice b 0 c)"
    using slice_tail [OF assms(3,4), of 0] assms(5) by blast
  then have "write_all_loop E pos (length ds) 0 b f w \<noteq> Some r" for r
    using write_all_loop_stuck [of E pos "length ds" 0 b f w r fd c] assms(1,2,5) unat_less_usize [of pos]
    by auto
  then have "write_all_loop E pos (length ds) 0 b f w = None"
    by (meson not_None_eq)
  then show ?thesis
    using as_slice_buf_len [OF assms(3,4)] by (simp add: file_write_all_at_def)
qed

subsection \<open>Buffers stay well formed\<close>

lemma vec_reserve_wf:
  "raw_kind v = VecU8 \<Longrightarrow> wf_raw v \<Longrightarrow> wf_raw (vec_reserve grow n v)"
  by (auto simp: wf_raw_def vec_reserve_def split: prod.splits)


subsection \<open>A disk that transfers a few bytes at a time\<close>

definition sample_disk :: "nat \<Rightarrow> (nat, nat, nat, u8 list) file_env" where
  "sample_disk chunk =
     \<lparr>env_open = (\<lambda>path options w. (Ok 3, w)),
      env_dup = (\<lambda>raw w. (Ok (Suc raw), w)),
      env_attach = (\<lambda>raw w. (Ok raw, w)),
      env_into = (\<lambda>fd. fd),
      env_grow = (\<lambda>v additional. (raw_ptr v + 4096, replicate (2 * additional) 0)),
      await_read_at = (\<lambda>op w.
        case as_uninit_slice (read_at_buffer op) of
          None \<Rightarrow> ((Ok 0, op), w)
        | Some (a, k) \<Rightarrow>
            (let ds = take (min chunk k) (drop (unat (read_at_offset op)) w)
             in ((Ok (of_nat (length ds)), op\<lparr>read_at_buffer := store_bytes a ds (read_at_buffer op)\<rparr>), w))),
      await_write_at = (\<lambda>op w.
        case as_slice (write_at_buffer op) of
          None \<Rightarrow> ((Ok 0, op), w)
        | Some ds \<Rightarrow>
            ((Ok (of_nat (min chunk (length ds))), op), splice (unat (write_at_offset op)) 0 (take chunk ds) w)),
      await_sync = (\<lambda>op w. ((Ok 0, op), w))\<rparr>"

lemma sample_disk_reads: "0 < chunk \<Longrightarrow> chunk < 2 ^ 64 \<Longrightarrow> reads_file (sample_disk chunk) (\<lambda>fd w. w)"
  unfolding reads_file_def reads_file_on_def Let_def
proof (intro allI impI)
  fix op :: "nat read_at_op" and w :: "u8 list" and a k
  assume *: "0 < chunk" "chunk < 2 ^ 64" "as_uninit_slice (read_at_buffer op) = Some (a, k)"
  let ?rest = "drop (unat (read_at_offset op)) w"
  let ?m = "min (min chunk k) (length ?rest)"
  have "take ?m ?rest = take (min chunk k) ?rest" by (simp add: min_def)
  moreover have "length (take (min chunk k) ?rest) = ?m" by simp
  moreover have "?m < 2 ^ 64" "?m \<le> k" using *(2) by simp_all
  moreover have "?m = 0 \<longrightarrow> k = 0 \<or> ?rest = []" using *(1) by (auto simp: min_def split: if_splits)
  ultimately show "\<exists>m w'. await_read_at (sample_disk chunk) op w =
        ((Ok (of_nat m), op\<lparr>read_at_buffer := store_bytes a (take m ?rest) (read_at_buffer op)\<rparr>), w') \<and>
      m \<le> k \<and> m \<le> length ?rest \<and> m < 2 ^ 64 \<and> (m = 0 \<longrightarrow> k = 0 \<or> ?rest = []) \<and> w' = w \<and> True"
    using *(3) by (intro exI [of _ ?m] exI [of _ w]) (simp add: sample_disk_def Let_def)
qed

lemma sample_disk_writes: "0 < chunk \<Longrightarrow> chunk < 2 ^ 64 \<Longrightarrow> writes_file (sample_disk chunk) (\<lambda>fd w. w)"
  unfolding writes_file_def writes_file_on_def
proof (intro allI impI)
  fix op :: "nat write_at_op" and w ds
  assume *: "0 < chunk" "chunk < 2 ^ 64" "as_slice (write_at_buffer op) = Some ds" "ds \<noteq> []"
  have "take (min chunk (length ds)) ds = take chunk ds" by (simp add: min_def)
  then show "\<exists>m w'. await_write_at (sample_disk chunk) op w = ((Ok (of_nat m), op), w') \<and>
      0 < m \<and> m \<le> length ds \<and> m < 2 ^ 64 \<and> w' = splice (unat (write_at_offset op)) 0 (take m ds) w \<and> True"
    using * by (intro exI [of _ "min chunk (length ds)"]) (simp add: sample_disk_def)
qed

lemma sample_disk_allocates: "allocates (sample_disk chunk)"
  by (simp add: allocates_def sample_disk_def)

lemma sample_disk_full: "writes_nothing (sample_disk 0)"
  unfolding writes_nothing_def by (auto simp: sample_disk_def split: option.split)

definition sample_file :: "(nat, nat) fs_file" where
  "sample_file = \<lparr>file_inner = 3, file_attacher = \<lparr>once = Some 3\<rparr>\<rparr>"

definition sample_vec :: "nat \<Rightarrow> raw_buf" where
  "sample_vec spare = \<lparr>raw_kind = VecU8, raw_ptr = 4096, raw_mem = 7 # replicate spare 0, raw_len = 1\<rparr>"

theorem read_exact_at_fills_witness:
  "\<exists>b' w'. file_read_exact_at (sample_disk 2) sample_file (Raw (sample_vec 3)) 1 [10, 11, 12, 13, 14] =
      Some ((Ok 3, b'), sample_file, w') \<and> wf_buf b' \<and> as_slice b' = Some [7, 11, 12, 13]"
proof -
  have "\<exists>b' w'. file_read_exact_at (sample_disk 2) sample_file (Raw (sample_vec 3)) 1 [10, 11, 12, 13, 14] =
      Some ((if 3 \<le> length ([10, 11, 12, 13, 14] :: u8 list) - unat (1 :: usize) then Ok 3 else Err unexpected_eof, b'),
            sample_file, w') \<and>
    wf_buf b' \<and> as_slice b' = Some ([7] @ take 3 (drop (unat (1 :: usize)) [10, 11, 12, 13, 14]))"
    by (rule read_exact_at_fills [OF sample_disk_reads, where fd = 3 and a = 4097])
      (simp_all add: sample_file_def sample_vec_def wf_raw_def mut_buf_def as_slice_Raw as_uninit_slice_def
        raw_capacity_def)
  then show ?thesis by simp
qed

theorem read_to_end_at_appends_witness:
  "\<exists>v' w'. file_read_to_end_at (sample_disk 2) sample_file (sample_vec 1) 1 [10, 11, 12, 13, 14] =
      Some (Some ((Ok 4, Raw v'), sample_file, w')) \<and> as_slice (Raw v') = Some [7, 11, 12, 13, 14]"
proof -
  have "\<exists>v' w'. file_read_to_end_at (sample_disk 2) sample_file (sample_vec 1) 1 [10, 11, 12, 13, 14] =
      Some (Some ((Ok (length ([10, 11, 12, 13, 14] :: u8 list) - unat (1 :: usize)), Raw v'), sample_file, w')) \<and>
    as_slice (Raw v') = Some (take (raw_len (sample_vec 1)) (raw_mem (sample_vec 1)) @
      drop (unat (1 :: usize)) [10, 11, 12, 13, 14])"
    by (rule read_to_end_at_appends [OF sample_disk_reads sample_disk_allocates, where fd = 3])
      (simp_all add: sample_file_def sample_vec_def)
  then show ?thesis by (simp add: sample_vec_def eval_nat_numeral)
qed

theorem read_to_end_at_full_vector_reads_nothing_witness:
  "\<exists>b' w'. file_read_to_end_at (sample_disk 2) sample_file (sample_vec 0) 1 [10, 11, 12, 13, 14] =
      Some (Some ((Ok 0, b'), sample_file, w')) \<and> as_slice b' = Some [7]"
proof -
  have "\<exists>b' w'. file_read_to_end_at (sample_disk 2) sample_file (sample_vec 0) 1 [10, 11, 12, 13, 14] =
      Some (Some ((Ok 0, b'), sample_file, w')) \<and> as_slice b' = Some (raw_mem (sample_vec 0))"
    by (rule read_to_end_at_full_vector_reads_nothing [OF sample_disk_reads, where fd = 3])
      (simp_all add: sample_file_def sample_vec_def)
  then show ?thesis by (simp add: sample_vec_def)
qed

theorem write_all_at_writes_witness:
  "\<exists>w'. file_write_all_at (sample_disk 2) sample_file
        (Raw \<lparr>raw_kind = VecU8, raw_ptr = 4096, raw_mem = [1, 2, 3], raw_len = 3\<rparr>) 1 [10, 11, 12, 13, 14] =
      Some (Some ((Ok 3, Raw \<lparr>raw_kind = VecU8, raw_ptr = 4096, raw_mem = [1, 2, 3], raw_len = 3\<rparr>), sample_file, w')) \<and>
    w' = [10, 1, 2, 3, 14]"
proof -
  let ?b = "Raw \<lparr>raw_kind = VecU8, raw_ptr = 4096, raw_mem = [1, 2, 3], raw_len = 3\<rparr>"
  have "\<exists>w'. file_write_all_at (sample_disk 2) sample_file ?b 1 [10, 11, 12, 13, 14] =
      Some (Some ((Ok (length ([1, 2, 3] :: u8 list)), ?b), sample_file, w')) \<and>
    w' = splice (unat (1 :: usize)) 0 [1, 2, 3] [10, 11, 12, 13, 14]"
    by (rule write_all_at_writes [OF sample_disk_writes, where fd = 3])
      (simp_all add: sample_file_def wf_raw_def as_slice_Raw)
  then show ?thesis by (simp add: splice_def eval_nat_numeral)
qed

theorem write_all_at_stuck_witness:
  "file_write_all_at (sample_disk 0) sample_file (Raw (sample_vec 0)) 1 [10, 11] = None"
  by (rule write_all_at_stuck [OF sample_disk_full, where fd = 3 and ds = "[7]"])
    (simp_all add: sample_file_def sample_vec_def wf_raw_def as_slice_Raw)


end
