(* ===== verification/Await.thy ===== *)
theory Await
  imports Runtime_Spec Fs_File
begin

text \<open>
  Awaiting an operation on the runtime: the task of the operation, the loop of \<open>block_on\<close> and the
  driver together. What the runtime relies on is a driver that completes the one operation it holds
  in one \<open>submit\<close>, the locale \<open>prompt_driver\<close>; the kqueue driver and the io_uring driver are
  instances, in \<open>File_Kqueue\<close> and \<open>File_Iour\<close>.
\<close>

subsection \<open>Awaiting an operation\<close>

text \<open>
  A task that awaits an operation: the operation is submitted with a task of its own, and the loop of
  \<open>block_on\<close> runs until that task has the result. The outer \<open>None\<close> is not returning, the inner one
  a panic.
\<close>

definition run_op ::
  "('s, registered_op) slab \<Rightarrow> nat \<Rightarrow> 'op op_future \<Rightarrow> nat \<Rightarrow> ('d, 's, 'op, 'w) runtime \<Rightarrow>
   ((usize io_result \<times> 'op) option \<times> ('d, 's, 'op, 'w) runtime) option" where
  "run_op S task f t rt =
     (if t = task then
        (case op_future_poll S t f rt of
           None \<Rightarrow> None
         | Some (TaskPending, _, rt') \<Rightarrow> Some (None, rt')
         | Some (TaskReady r, _, rt') \<Rightarrow> Some (Some r, rt'))
      else Some (None, rt))"

definition await_op ::
  "('d, 'op, 'w, 'raw, 'fd) driver_ops \<Rightarrow> ('s, registered_op) slab \<Rightarrow> 'op \<Rightarrow> ('d, 's, 'op, 'w) runtime \<Rightarrow>
   ((usize io_result \<times> 'op) \<times> ('d, 's, 'op, 'w) runtime) option option" where
  "await_op D S op rt =
     (case runtime_submit D S op rt of
        None \<Rightarrow> Some None
      | Some ((task, f), rt1) \<Rightarrow> block_on_loop D S (run_op S task f) rt1)"

subsection \<open>An idle runtime\<close>

text \<open>
  No task and no operation is waiting, and no operation is boxed. A slab without entries has room for one, its slots are reused,
  and its keys are indices of a vector, so none of them is the greatest \<open>usize\<close>.
\<close>

definition slab_reuses :: "('s, 'a) slab \<Rightarrow> bool" where
  "slab_reuses S \<longleftrightarrow>
     (\<forall>a s. (\<forall>k. slab_get S k s = None) \<longrightarrow> (\<exists>k s'. slab_insert S a s = Some (k, s') \<and> k \<noteq> -1))"

definition idle :: "('d \<Rightarrow> bool) \<Rightarrow> ('s, registered_op) slab \<Rightarrow> ('d, 's, 'op, 'w) runtime \<Rightarrow> bool" where
  "idle idle_drv S rt \<longleftrightarrow> idle_drv (rt_driver rt) \<and> unqueued_operations rt = [] \<and> unqueued_cancels rt = [] \<and>
     runnables rt = [] \<and> (\<forall>k. slab_get S k (ops (rt_ops rt)) = None) \<and> boxes (rt_heap rt) = Map.empty"

text \<open>
  The steps of the task: its first run finds no result and leaves its waker, the poll of the runtime
  records the result and wakes it, its second run takes the operation out.
\<close>

lemma run_op_pending:
  assumes "slab_get S k (ops (rt_ops rt)) = Some r" "reg_result r = None"
  shows "run_op S task (op_future_new (Key k)) task rt =
    Some (None, rt\<lparr>rt_ops := (rt_ops rt)\<lparr>ops := slab_put S k (r\<lparr>reg_waker := Some task\<rparr>) (ops (rt_ops rt))\<rparr>\<rparr>)"
  using assms by (simp add: run_op_def op_future_poll_def op_future_new_def poll_task_def op_has_result_def op_update_waker_def)

lemma run_op_ready:
  assumes "slab_spec S" "slab_get S k (ops (rt_ops rt)) = Some r" "reg_result r = Some res" "reg_op r = Some a"
    and "boxes (rt_heap rt) a = Some op"
  shows "\<exists>s. run_op S task (op_future_new (Key k)) task rt =
      Some (Some (res, op), rt\<lparr>rt_ops := (rt_ops rt)\<lparr>ops := s\<rparr>, rt_heap := (rt_heap rt)\<lparr>boxes := (boxes (rt_heap rt))(a := None)\<rparr>\<rparr>) \<and>
    (\<forall>j. slab_get S j s = (if j = k then None else slab_get S j (ops (rt_ops rt))))"
proof -
  obtain s where r: "slab_remove S k (ops (rt_ops rt)) = Some (r, s)"
    using slab_remove_None [OF assms(1)] slab_removed [OF assms(1)] assms(2)
    by (metis (no_types, opaque_lifting) option.distinct(1) option.exhaust option.inject surj_pair)
  show ?thesis
    by (rule exI [of _ s])
      (use r assms slab_get_remove [OF assms(1) r] in
        \<open>simp add: run_op_def op_future_poll_def op_future_new_def poll_task_def op_has_result_def op_remove_def box_from_raw_def\<close>)
qed

lemma run_one_task:
  assumes "runnables rt = [task]" "run task (rt\<lparr>runnables := []\<rparr>) = Some (out, rt')" "runnables rt' = []"
  shows "run_tasks run None rt = Some (Some (out, rt'))"
  using assms by (cases out) (simp_all add: run_tasks.simps [of run _ rt] run_tasks.simps [of run _ rt'])

subsection \<open>Drivers that complete an operation at once\<close>

text \<open>
  \<open>view\<close> is the part of the driver and of the world that operations act on, \<open>prompt\<close> says which
  operations are done without waiting and \<open>outcome\<close> what they answer and leave behind. An idle driver
  takes such an operation, by either way of pushing, and is then \<open>queued\<close> with it; the next \<open>submit\<close>
  reports it and leaves the driver idle.
\<close>

locale prompt_driver =
  fixes D :: "('d, 'op, 'w, 'raw, 'fd) driver_ops"
    and idle_drv :: "'d \<Rightarrow> bool"
    and view :: "'d \<Rightarrow> 'w \<Rightarrow> 'v"
    and prompt :: "'op \<Rightarrow> 'v \<Rightarrow> bool"
    and outcome :: "'op \<Rightarrow> 'v \<Rightarrow> usize io_result \<Rightarrow> 'op \<Rightarrow> 'v \<Rightarrow> bool"
    and queued :: "nat \<Rightarrow> usize \<Rightarrow> 'op \<Rightarrow> 'v \<Rightarrow> 'd \<Rightarrow> 'op op_heap \<Rightarrow> 'w \<Rightarrow> bool"
  assumes pushed: "\<lbrakk>idle_drv d; prompt op (view d w); boxes h = [a \<mapsto> op]; a < next_box h; k \<noteq> -1\<rbrakk> \<Longrightarrow>
      \<exists>d' h'. drv_try_push_dyn D (op_object_new a k) d (h, w) = Some (Ok (), d', h', w) \<and> queued a k op (view d w) d' h' w"
    and push_queue_one: "\<lbrakk>idle_drv d; prompt op (view d w); boxes h = [a \<mapsto> op]; a < next_box h; k \<noteq> -1\<rbrakk> \<Longrightarrow>
      \<exists>d' h'. drv_push_queue D [op_object_new a k] d (h, w) = Some ([], d', h', w) \<and> queued a k op (view d w) d' h' w"
    and push_queue_none: "drv_push_queue D [] d hw = Some ([], d, hw)"
    and submit_one: "queued a k op v d h w \<Longrightarrow>
      \<exists>res op' d' h' w'. drv_submit D None d (h, w) = Some ((Ok (), [entry_new k res]), d', h', w') \<and>
        boxes h' = [a \<mapsto> op'] \<and> idle_drv d' \<and> outcome op v res op' (view d' w')"
begin

text \<open>After the submission the driver has the operation, the table its entry.\<close>

definition submitted ::
  "('s, registered_op) slab \<Rightarrow> nat \<Rightarrow> 'op \<Rightarrow> 'v \<Rightarrow> usize \<Rightarrow> registered_op \<Rightarrow> ('d, 's, 'op, 'w) runtime \<Rightarrow> bool" where
  "submitted S a op v k r rt \<longleftrightarrow>
     queued a k op v (rt_driver rt) (rt_heap rt) (rt_world rt) \<and> unqueued_operations rt = [] \<and> unqueued_cancels rt = [] \<and>
     (\<forall>j. slab_get S j (ops (rt_ops rt)) = (if j = k then Some r else None))"

lemma idle_runtime_submit:
  assumes "slab_spec S" "slab_reuses S" "idle idle_drv S rt" "prompt op (view (rt_driver rt) (rt_world rt))"
  obtains k rt1 where "runtime_submit D S op rt = Some ((next_task rt, op_future_new (Key k)), rt1)"
    "submitted S (next_box (rt_heap rt)) op (view (rt_driver rt) (rt_world rt)) k
      (registered_op_new (Some (next_box (rt_heap rt)))) rt1" "runnables rt1 = [next_task rt]"
proof -
  let ?h = "rt_heap rt" and ?task = "next_task rt"
  let ?a = "next_box ?h"
  let ?r = "registered_op_new (Some ?a)" and ?h1 = "?h\<lparr>boxes := (boxes ?h)(?a \<mapsto> op), next_box := Suc ?a\<rparr>"
  have i: "idle_drv (rt_driver rt)" "unqueued_operations rt = []" "unqueued_cancels rt = []" "runnables rt = []"
      "\<forall>k. slab_get S k (ops (rt_ops rt)) = None" "boxes ?h = Map.empty" using assms(3) by (simp_all add: idle_def)
  obtain k s1 where ins: "slab_insert S ?r (ops (rt_ops rt)) = Some (k, s1)" "k \<noteq> -1"
    using assms(2) i(5) unfolding slab_reuses_def by blast
  have get: "slab_get S j s1 = (if j = k then Some ?r else None)" for j
    using slab_get_insert [OF assms(1) ins(1), of j] i(5) by simp
  have "boxes ?h1 = [?a \<mapsto> op]" "?a < next_box ?h1" using i(6) by simp_all
  from pushed [OF i(1) assms(4) this ins(2)] obtain d' h' where
    p: "drv_try_push_dyn D (op_object_new ?a k) (rt_driver rt) (?h1, rt_world rt) = Some (Ok (), d', h', rt_world rt)"
      "queued ?a k op (view (rt_driver rt) (rt_world rt)) d' h' (rt_world rt)" by blast
  let ?rt1 = "rt\<lparr>rt_ops := (rt_ops rt)\<lparr>ops := s1\<rparr>, rt_heap := h', rt_driver := d', runnables := [?task],
    next_task := Suc ?task\<rparr>"
  show thesis
  proof (rule that [of k ?rt1])
    show "runtime_submit D S op rt = Some ((?task, op_future_new (Key k)), ?rt1)"
      using i(4) ins p(1) by (simp add: runtime_submit_def op_insert_def box_leak_def spawn_def)
  qed (use i get p in \<open>simp_all add: submitted_def\<close>)
qed

lemma submitted_poll:
  assumes "slab_spec S" "submitted S a op v k r rt" "reg_waker r = Some task" "\<not> reg_cancelled r"
  obtains res op' d' h' w' s where "runtime_poll D S rt =
      Some (rt\<lparr>rt_driver := d', rt_heap := h', rt_world := w', rt_ops := (rt_ops rt)\<lparr>ops := s\<rparr>,
        runnables := runnables rt @ [task]\<rparr>)"
    "boxes h' = [a \<mapsto> op']" "idle_drv d'" "outcome op v res op' (view d' w')"
    "\<forall>j. slab_get S j s = (if j = k then Some (r\<lparr>reg_waker := None, reg_result := Some res\<rparr>) else None)"
proof -
  have q: "queued a k op v (rt_driver rt) (rt_heap rt) (rt_world rt)" "unqueued_operations rt = []" "unqueued_cancels rt = []"
    "\<forall>j. slab_get S j (ops (rt_ops rt)) = (if j = k then Some r else None)" using assms(2) by (simp_all add: submitted_def)
  obtain res op' d' h' w' where sub: "drv_submit D None (rt_driver rt) (rt_heap rt, rt_world rt) =
      Some ((Ok (), [entry_new k res]), d', h', w')" "boxes h' = [a \<mapsto> op']" "idle_drv d'" "outcome op v res op' (view d' w')"
    using submit_one [OF q(1)] by blast
  let ?s = "slab_put S k (r\<lparr>reg_waker := None, reg_result := Some res\<rparr>) (ops (rt_ops rt))"
  have ext: "op_extend S [entry_new k res] (rt_ops rt) = Some ([task], (rt_ops rt)\<lparr>ops := ?s\<rparr>)"
    using assms(3,4) q(4) by (simp add: op_update_result_def entry_new_def)
  have get: "\<forall>j. slab_get S j ?s = (if j = k then Some (r\<lparr>reg_waker := None, reg_result := Some res\<rparr>) else None)"
    using slab_get_put [OF assms(1)] q(4) by auto
  have "runtime_poll D S rt =
      Some (rt\<lparr>rt_driver := d', rt_heap := h', rt_world := w', rt_ops := (rt_ops rt)\<lparr>ops := ?s\<rparr>,
        runnables := runnables rt @ [task]\<rparr>)"
    using sub(1) q(2,3) ext push_queue_none by (cases rt) (simp add: runtime_poll_def del: op_extend.simps)
  then show thesis by (rule that [OF _ sub(2-4) get])
qed

text \<open>Once the task has left its waker, a poll and a second run of the task finish the operation.\<close>

lemma waiting_task_finishes:
  assumes "slab_spec S" "submitted S a op v k r rt2" "runnables rt2 = []"
    and "r = (registered_op_new (Some a))\<lparr>reg_waker := Some task\<rparr>"
  obtains rt3 rt4 res op' where "runtime_poll D S rt2 = Some rt3"
    "run_tasks (run_op S task (op_future_new (Key k))) None rt3 = Some (Some (Some (res, op'), rt4))"
    "idle idle_drv S rt4" "outcome op v res op' (view (rt_driver rt4) (rt_world rt4))"
proof -
  let ?run = "run_op S task (op_future_new (Key k))"
  obtain res op' d' h' w' s3 where p: "runtime_poll D S rt2 =
      Some (rt2\<lparr>rt_driver := d', rt_heap := h', rt_world := w', rt_ops := (rt_ops rt2)\<lparr>ops := s3\<rparr>,
        runnables := runnables rt2 @ [task]\<rparr>)" (is "_ = Some ?rt3")
    "boxes h' = [a \<mapsto> op']" "idle_drv d'" "outcome op v res op' (view d' w')"
    "\<forall>j. slab_get S j s3 = (if j = k then Some (r\<lparr>reg_waker := None, reg_result := Some res\<rparr>) else None)"
    by (rule submitted_poll [OF assms(1,2), of task]) (use assms(4) in \<open>simp_all add: registered_op_new_def\<close>)
  let ?r = "r\<lparr>reg_waker := None, reg_result := Some res\<rparr>"
  have "slab_get S k (ops (rt_ops (?rt3\<lparr>runnables := []\<rparr>))) = Some ?r" "reg_result ?r = Some res" "reg_op ?r = Some a"
    "boxes (rt_heap (?rt3\<lparr>runnables := []\<rparr>)) a = Some op'"
    using p(2,5) assms(4) by (simp_all add: registered_op_new_def)
  from run_op_ready [OF assms(1) this, of task] obtain s4 where
    r4: "?run task (?rt3\<lparr>runnables := []\<rparr>) = Some (Some (res, op'), ?rt3\<lparr>runnables := [], rt_ops := (rt_ops rt2)\<lparr>ops := s4\<rparr>,
        rt_heap := h'\<lparr>boxes := (boxes h')(a := None)\<rparr>\<rparr>)" (is "_ = Some (_, ?rt4)")
      "\<forall>j. slab_get S j s4 = (if j = k then None else slab_get S j s3)" by auto
  have run2: "run_tasks ?run None ?rt3 = Some (Some (Some (res, op'), ?rt4))"
    by (rule run_one_task [where run = ?run and task = task]) (use r4(1) assms(3) in simp_all)
  have "idle idle_drv S ?rt4" using p(2,3,5) r4(2) assms(2) by (simp add: idle_def submitted_def)
  then show thesis by (rule that [OF p(1) run2]) (use p(4) in simp)
qed

lemma idle_await:
  assumes "slab_spec S" "slab_reuses S" "idle idle_drv S rt" "prompt op (view (rt_driver rt) (rt_world rt))"
  shows "\<exists>res op' rt'. await_op D S op rt = Some (Some ((res, op'), rt')) \<and> idle idle_drv S rt' \<and>
    outcome op (view (rt_driver rt) (rt_world rt)) res op' (view (rt_driver rt') (rt_world rt'))"
proof -
  let ?a = "next_box (rt_heap rt)" and ?task = "next_task rt" and ?v = "view (rt_driver rt) (rt_world rt)"
  let ?r = "registered_op_new (Some ?a)"
  obtain k rt1 where 1: "runtime_submit D S op rt = Some ((?task, op_future_new (Key k)), rt1)"
    "submitted S ?a op ?v k ?r rt1" "runnables rt1 = [?task]" by (rule idle_runtime_submit [OF assms])
  let ?run = "run_op S ?task (op_future_new (Key k))" and ?r2 = "?r\<lparr>reg_waker := Some ?task\<rparr>"
  let ?rt2 = "rt1\<lparr>runnables := [], rt_ops := (rt_ops rt1)\<lparr>ops := slab_put S k ?r2 (ops (rt_ops rt1))\<rparr>\<rparr>"
  have run1: "run_tasks ?run None rt1 = Some (Some (None, ?rt2))"
    by (rule run_one_task [where run = ?run and task = ?task])
      (use run_op_pending [of S k "rt1\<lparr>runnables := []\<rparr>" ?r ?task] 1(2,3) in \<open>simp_all add: submitted_def registered_op_new_def\<close>)
  have sub: "submitted S ?a op ?v k ?r2 ?rt2" using 1(2) slab_get_put [OF assms(1)] by (simp add: submitted_def)
  obtain rt3 rt4 res op' where "runtime_poll D S ?rt2 = Some rt3"
    "run_tasks ?run None rt3 = Some (Some (Some (res, op'), rt4))" "idle idle_drv S rt4"
    "outcome op ?v res op' (view (rt_driver rt4) (rt_world rt4))"
    by (rule waiting_task_finishes [OF assms(1) sub _ refl]) simp_all
  then show ?thesis using 1(1) run1
    by (simp add: await_op_def block_on_loop.simps [of D S ?run rt1] block_on_loop.simps [of D S ?run rt3])
qed

end

subsection \<open>The value of a future\<close>

text \<open>
  What \<open>Fs_File\<close> awaits is the future of the boxed operation. A future that panics or is never ready
  has no value: \<open>no_value\<close> stands for it, and is told apart from every result.
\<close>

definition no_value :: io_error where
  "no_value = Custom OtherKind ''no value''"

definition await_as ::
  "('o \<Rightarrow> 'op) \<Rightarrow> ('op \<Rightarrow> 'o option) \<Rightarrow> ('d, 'op, 'w, 'raw, 'fd) driver_ops \<Rightarrow> ('s, registered_op) slab \<Rightarrow> 'o \<Rightarrow>
   ('d, 's, 'op, 'w) runtime \<Rightarrow> (usize io_result \<times> 'o) \<times> ('d, 's, 'op, 'w) runtime" where
  "await_as dyn downcast D S op rt =
     (case await_op D S (dyn op) rt of
        Some (Some ((res, x), rt')) \<Rightarrow>
          (case downcast x of Some op' \<Rightarrow> ((res, op'), rt') | None \<Rightarrow> ((Err no_value, op), rt'))
      | _ \<Rightarrow> ((Err no_value, op), rt))"

text \<open>
  The environment of files on a runtime. The parameters that concern the standard library and the
  allocator stay those of \<open>base\<close>; \<open>as_read_at\<close>, \<open>as_write_at\<close> and \<open>as_sync\<close> are the operations of the
  platform with the tests that recognise them.
\<close>

definition runtime_file_env ::
  "('d, 'op, 'w, 'raw, 'f) driver_ops \<Rightarrow> ('s, registered_op) slab \<Rightarrow> ('f \<Rightarrow> 'fd) \<Rightarrow>
   ('fd read_at_op \<Rightarrow> 'op) \<times> ('op \<Rightarrow> 'fd read_at_op option) \<Rightarrow> ('fd write_at_op \<Rightarrow> 'op) \<times> ('op \<Rightarrow> 'fd write_at_op option) \<Rightarrow>
   ('fd sync_op \<Rightarrow> 'op) \<times> ('op \<Rightarrow> 'fd sync_op option) \<Rightarrow>
   ('raw, 'f, 'fd, ('d, 's, 'op, 'w) runtime) file_env \<Rightarrow> ('raw, 'f, 'fd, ('d, 's, 'op, 'w) runtime) file_env" where
  "runtime_file_env D S into as_read_at as_write_at as_sync base =
     base\<lparr>env_attach := (\<lambda>fd rt. case runtime_attach D fd rt of Some r \<Rightarrow> r | None \<Rightarrow> (Err no_value, rt)),
          env_into := into,
          await_read_at := await_as (fst as_read_at) (snd as_read_at) D S,
          await_write_at := await_as (fst as_write_at) (snd as_write_at) D S,
          await_sync := await_as (fst as_sync) (snd as_sync) D S\<rparr>"

lemma await_as_value:
  assumes "await_op D S (dyn op) rt = Some (Some ((res, x), rt'))" "downcast x = Some op'"
  shows "await_as dyn downcast D S op rt = ((res, op'), rt')"
  using assms by (simp add: await_as_def)

text \<open>A slab with one slot.\<close>

definition cell_slab :: "('a option, 'a) slab" where
  "cell_slab =
     \<lparr>slab_new = None,
      slab_insert = (\<lambda>a s. case s of None \<Rightarrow> Some (0, Some a) | Some _ \<Rightarrow> None),
      slab_get = (\<lambda>k s. if k = 0 then s else None),
      slab_put = (\<lambda>k a s. if k = 0 \<and> s \<noteq> None then Some a else s),
      slab_remove = (\<lambda>k s. if k = 0 then map_option (\<lambda>a. (a, None)) s else None)\<rparr>"

lemma cell_slab_spec: "slab_spec cell_slab" "slab_reuses cell_slab"
  by (auto simp: slab_spec_def slab_reuses_def cell_slab_def split: option.splits if_splits)

end
