(* ===== verification/File_Kqueue.thy ===== *)
theory File_Kqueue
  imports Runtime_Kqueue Kqueue_Total Await
begin

text \<open>
  Files over the runtime over kqueue: the futures that \<open>Fs_File\<close> awaits are those of \<open>Runtime\<close>, and
  the operations behind them those of \<open>Kqueue_Op\<close>. What is left to rely on is the slab and the system
  calls.
\<close>

subsection \<open>An idle driver\<close>

definition idle_kq :: "'op kq_driver \<Rightarrow> bool" where
  "idle_kq d \<longleftrightarrow> squeue d = [] \<and> io_pending d = [] \<and> timers d = [] \<and> squeue_drained_till d = squeue_cap d \<and> 0 < squeue_cap d"

lemma kq_runtime_new_idle:
  assumes "slab_spec S" "runtime_new (kq_driver_ops K V timed_out) S w = (Ok rt, w')" "\<forall>h. fst (snd (kqueue K (h, w))) = h"
  shows "idle idle_kq S rt" "rt_world rt = w'"
  using assms(1,2) assms(3) [rule_format, of "\<lparr>boxes = Map.empty, next_box = 0\<rparr>"] slab_get_new [OF assms(1)]
  by (auto simp: runtime_new_def kq_driver_ops_def kq_new_def kq_with_def idle_def idle_kq_def wheel_with_capacity_def
      split: prod.splits sum.splits)

lemma expire_nothing: "expire_timers now [] = ([], [])"
  by (simp add: expire_timers_def)

text \<open>The driver tries the one operation it was given and reports its result.\<close>

lemma idle_kq_submit:
  assumes "idle_kq d" "boxes h a = Some op" "attempt op w = Some (Some res, op', w')" "res \<noteq> Ok TIMER_PENDING"
  shows "\<exists>d'. kq_submit K (boxed attempt event delay) t (d\<lparr>squeue := [op_object_new a k]\<rparr>) (h, w) =
      Some ((Ok (), [entry_new k res]), d', h\<lparr>boxes := (boxes h)(a \<mapsto> op')\<rparr>, w') \<and> idle_kq d'"
  using assms
  by (simp add: kq_submit_def operate_squeue_def boxed_def op_object_new_def idle_kq_def expire_nothing)

text \<open>
  An operation is prompt when its first attempt gives a result; that is what it answers. The driver
  that has it queued is otherwise idle.
\<close>

definition kq_prompt :: "('op \<Rightarrow> 'w \<Rightarrow> (usize io_result option \<times> 'op \<times> 'w) option) \<Rightarrow> 'op \<Rightarrow> 'w \<Rightarrow> bool" where
  "kq_prompt attempt op w \<longleftrightarrow>
     (case attempt op w of Some (Some res, _) \<Rightarrow> res \<noteq> Ok TIMER_PENDING | _ \<Rightarrow> False)"

definition kq_outcome ::
  "('op \<Rightarrow> 'w \<Rightarrow> (usize io_result option \<times> 'op \<times> 'w) option) \<Rightarrow> 'op \<Rightarrow> 'w \<Rightarrow> usize io_result \<Rightarrow> 'op \<Rightarrow> 'w \<Rightarrow> bool" where
  "kq_outcome attempt op w res op' w' \<longleftrightarrow> attempt op w = Some (Some res, op', w')"

definition kq_queued ::
  "('op \<Rightarrow> 'w \<Rightarrow> (usize io_result option \<times> 'op \<times> 'w) option) \<Rightarrow> nat \<Rightarrow> usize \<Rightarrow> 'op \<Rightarrow> 'w \<Rightarrow>
   nat kq_driver \<Rightarrow> 'op op_heap \<Rightarrow> 'w \<Rightarrow> bool" where
  "kq_queued attempt a k op v d h w \<longleftrightarrow>
     (\<exists>d0. idle_kq d0 \<and> d = d0\<lparr>squeue := [op_object_new a k]\<rparr>) \<and> boxes h = [a \<mapsto> op] \<and> w = v \<and> kq_prompt attempt op v"

interpretation kqp: prompt_driver "kq_driver_ops K (boxed attempt event delay) timed_out" idle_kq "\<lambda>d w. w"
  "kq_prompt attempt" "kq_outcome attempt" "kq_queued attempt"
  for K timed_out event delay and attempt :: "'op \<Rightarrow> 'w \<Rightarrow> (usize io_result option \<times> 'op \<times> 'w) option"
proof unfold_locales
  fix d :: "nat kq_driver" and op :: 'op and w :: 'w and h :: "'op op_heap" and a :: nat and k :: usize
  let ?D = "kq_driver_ops K (boxed attempt event delay) timed_out" and ?d = "d\<lparr>squeue := [op_object_new a k]\<rparr>"
  assume i: "idle_kq d" and "kq_prompt attempt op w" "boxes h = [a \<mapsto> op]"
  then have q: "kq_queued attempt a k op w ?d h w" by (auto simp: kq_queued_def)
  show "\<exists>d' h'. drv_try_push_dyn ?D (op_object_new a k) d (h, w) = Some (Ok (), d', h', w) \<and> kq_queued attempt a k op w d' h' w"
    by (rule exI [of _ ?d], rule exI [of _ h])
      (use i q in \<open>simp add: kq_driver_ops_def kq_try_push_dyn_def kq_capacity_left_def idle_kq_def\<close>)
  show "\<exists>d' h'. drv_push_queue ?D [op_object_new a k] d (h, w) = Some ([], d', h', w) \<and> kq_queued attempt a k op w d' h' w"
    by (rule exI [of _ ?d], rule exI [of _ h])
      (use i q in \<open>simp add: kq_driver_ops_def kq_push_queue_def kq_capacity_left_def idle_kq_def\<close>)
next
  fix d :: "nat kq_driver" and hw :: "'op op_heap \<times> 'w"
  show "drv_push_queue (kq_driver_ops K (boxed attempt event delay) timed_out) [] d hw = Some ([], d, hw)"
    by (simp add: kq_driver_ops_def kq_push_queue_def)
next
  fix a :: nat and k :: usize and op :: 'op and v w :: 'w and d :: "nat kq_driver" and h :: "'op op_heap"
  let ?D = "kq_driver_ops K (boxed attempt event delay) timed_out"
  assume "kq_queued attempt a k op v d h w"
  then obtain d0 res op' w' where q: "idle_kq d0" "d = d0\<lparr>squeue := [op_object_new a k]\<rparr>" "boxes h = [a \<mapsto> op]" "w = v"
    "attempt op w = Some (Some res, op', w')" "res \<noteq> Ok TIMER_PENDING"
    by (auto simp: kq_queued_def kq_prompt_def split: option.splits prod.splits)
  from idle_kq_submit [where attempt = attempt, OF q(1) _ q(5,6), where K = K and event = event and delay = delay and t = None and k = k and h = h and a = a]
  obtain d' where "drv_submit ?D None d (h, w) = Some ((Ok (), [entry_new k res]), d', h\<lparr>boxes := (boxes h)(a \<mapsto> op')\<rparr>, w')"
    "idle_kq d'" using q(2,3) by (auto simp: kq_driver_ops_def)
  then show "\<exists>res op' d' h' w'. drv_submit ?D None d (h, w) = Some ((Ok (), [entry_new k res]), d', h', w') \<and>
      boxes h' = [a \<mapsto> op'] \<and> idle_kq d' \<and> kq_outcome attempt op v res op' w'"
    using q(3-5) by (auto simp: kq_outcome_def)
qed

subsection \<open>The environment of files\<close>

definition kq_file_env ::
  "(nat kq_driver, kq_op, 'w, i32, kq_fd) driver_ops \<Rightarrow> ('s, registered_op) slab \<Rightarrow>
   (i32, kq_fd, kq_fd, (nat kq_driver, 's, kq_op, 'w) runtime) file_env \<Rightarrow>
   (i32, kq_fd, kq_fd, (nat kq_driver, 's, kq_op, 'w) runtime) file_env" where
  "kq_file_env D S base =
     runtime_file_env D S (\<lambda>fd. fd)
       (KqReadAt, \<lambda>x. case x of KqReadAt op \<Rightarrow> Some op | _ \<Rightarrow> None)
       (KqWriteAt, \<lambda>x. case x of KqWriteAt op \<Rightarrow> Some op | _ \<Rightarrow> None)
       (KqSync, \<lambda>x. case x of KqSync op \<Rightarrow> Some op | _ \<Rightarrow> None) base"

text \<open>
  What is relied on of the system: \<open>pread\<close> of a regular file stores bytes of the file from the offset
  on and returns their number, none only when there is no room or no byte left.
\<close>

definition preads_file :: "'w kq_libc \<Rightarrow> (i32 \<Rightarrow> 'w \<Rightarrow> u8 list) \<Rightarrow> bool" where
  "preads_file L content \<longleftrightarrow>
     (\<forall>fd p n offset w. \<exists>m rp w'. let rest = drop (unat offset) (content fd w) in
        libc_call L (CPread fd p n offset) w = (rp, w') \<and> rp_ret rp = int m \<and> rp_bytes rp = take m rest \<and>
        m \<le> n \<and> m \<le> length rest \<and> m < 2 ^ 63 \<and> (m = 0 \<longrightarrow> n = 0 \<or> rest = []) \<and> content fd w' = content fd w)"

lemma kq_read_at_outcome:
  assumes "preads_file L content" "as_uninit_slice (read_at_buffer op) = Some (a, k)"
  obtains m w' where "kq_operate L (KqReadAt op) w = Some (Some (Ok (of_nat m)), KqReadAt (op\<lparr>read_at_buffer :=
      store_bytes a (take m (drop (unat (read_at_offset op)) (content (kq_raw (read_at_fd op)) w))) (read_at_buffer op)\<rparr>), w')"
    "m \<le> k" "m \<le> length (drop (unat (read_at_offset op)) (content (kq_raw (read_at_fd op)) w))" "m < 2 ^ 63"
    "m = 0 \<longrightarrow> k = 0 \<or> drop (unat (read_at_offset op)) (content (kq_raw (read_at_fd op)) w) = []"
    "content (kq_raw (read_at_fd op)) w' = content (kq_raw (read_at_fd op)) w" "kq_prompt (kq_operate L) (KqReadAt op) w"
proof -
  let ?rest = "drop (unat (read_at_offset op)) (content (kq_raw (read_at_fd op)) w)"
  obtain m rp w' where c: "libc_call L (CPread (kq_raw (read_at_fd op)) a k (read_at_offset op)) w = (rp, w')"
    "rp_ret rp = int m" "rp_bytes rp = take m ?rest" "m \<le> k" "m \<le> length ?rest" "m < 2 ^ 63" "m = 0 \<longrightarrow> k = 0 \<or> ?rest = []"
    "content (kq_raw (read_at_fd op)) w' = content (kq_raw (read_at_fd op)) w"
    using assms(1) [unfolded preads_file_def Let_def, rule_format, of "kq_raw (read_at_fd op)" a k "read_at_offset op" w]
    by blast
  have at: "kq_operate L (KqReadAt op) w = Some (Some (Ok (of_nat m)),
      KqReadAt (op\<lparr>read_at_buffer := store_bytes a (take m ?rest) (read_at_buffer op)\<rparr>), w')"
    using assms(2) c(1-3) by (simp add: read_at_operate_def lift_attempt_def maybe_block_def syscall_def)
  moreover have "kq_prompt (kq_operate L) (KqReadAt op) w"
    using at ret_not_timer [of "int m"] c(6) by (simp add: kq_prompt_def)
  ultimately show thesis by (rule that [OF _ c(4-8)])
qed

lemma kq_env_reads_file:
  assumes "slab_spec S" "slab_reuses S" "preads_file L content"
  shows "reads_file_on (idle idle_kq S) (\<lambda>k. True)
    (kq_file_env (kq_driver_ops K (boxed (kq_operate L) event delay) timed_out) S base)
    (\<lambda>fd rt. content (kq_raw fd) (rt_world rt))"
  unfolding reads_file_on_def
proof (intro allI impI)
  fix op :: "kq_fd read_at_op" and rt :: "(nat kq_driver, 'a, kq_op, 'b) runtime" and a k
  assume u: "as_uninit_slice (read_at_buffer op) = Some (a, k)" and idle: "idle idle_kq S rt"
  let ?D = "kq_driver_ops K (boxed (kq_operate L) event delay) timed_out"
  let ?rest = "drop (unat (read_at_offset op)) (content (kq_raw (read_at_fd op)) (rt_world rt))"
  obtain m w' where c: "kq_operate L (KqReadAt op) (rt_world rt) = Some (Some (Ok (of_nat m)),
      KqReadAt (op\<lparr>read_at_buffer := store_bytes a (take m ?rest) (read_at_buffer op)\<rparr>), w')"
    "m \<le> k" "m \<le> length ?rest" "m < 2 ^ 63" "m = 0 \<longrightarrow> k = 0 \<or> ?rest = []"
    "content (kq_raw (read_at_fd op)) w' = content (kq_raw (read_at_fd op)) (rt_world rt)"
    "kq_prompt (kq_operate L) (KqReadAt op) (rt_world rt)"
    by (rule kq_read_at_outcome [OF assms(3) u])
  from kqp.idle_await [OF assms(1,2) idle c(7), where K = K and event = event and delay = delay and timed_out = timed_out] c(1)
  obtain rt' where "await_op ?D S (KqReadAt op) rt = Some (Some ((Ok (of_nat m),
      KqReadAt (op\<lparr>read_at_buffer := store_bytes a (take m ?rest) (read_at_buffer op)\<rparr>)), rt'))" "idle idle_kq S rt'" "rt_world rt' = w'"
    by (auto simp: kq_outcome_def)
  then show "\<exists>m w'. let rest = drop (unat (read_at_offset op)) (content (kq_raw (read_at_fd op)) (rt_world rt)) in
      await_read_at (kq_file_env ?D S base) op rt =
        ((Ok (of_nat m), op\<lparr>read_at_buffer := store_bytes a (take m rest) (read_at_buffer op)\<rparr>), w') \<and>
      m \<le> k \<and> m \<le> length rest \<and> m < 2 ^ 64 \<and> (m = 0 \<longrightarrow> k = 0 \<or> rest = []) \<and>
      content (kq_raw (read_at_fd op)) (rt_world w') = content (kq_raw (read_at_fd op)) (rt_world rt) \<and> idle idle_kq S w'"
    unfolding Let_def using c(2-6)
    by (intro exI [of _ m] exI [of _ rt']) (simp add: kq_file_env_def runtime_file_env_def await_as_def)
qed

text \<open>
  C3. From \<open>File::read_exact_at\<close> down to \<open>pread\<close>: on an idle runtime over the kqueue driver an exact
  read ends. Every round boxes a read, submits it, blocks until its future is ready and takes it out
  again; in the end the buffer has the bytes of the file from the position on, or what the file has of
  them with \<open>UnexpectedEof\<close>, and the runtime is idle again.
\<close>

theorem kq_file_read_exact:
  assumes "slab_spec S" "slab_reuses S" "preads_file L content" "idle idle_kq S rt"
    and "once (file_attacher f) = Some (KqFd fd)"
    and "wf_buf b" "mut_buf b" "as_slice b = Some old" "as_uninit_slice b = Some (a, need)" "unat pos + need < 2 ^ 64"
  shows "\<exists>b' rt'. file_read_exact_at (kq_file_env (kq_driver_ops K (boxed (kq_operate L) event delay) timed_out) S base) f b pos rt =
      Some ((if need \<le> length (content fd (rt_world rt)) - unat pos then Ok need else Err unexpected_eof, b'), f, rt') \<and>
    wf_buf b' \<and> as_slice b' = Some (old @ take need (drop (unat pos) (content fd (rt_world rt)))) \<and> idle idle_kq S rt'"
  using file_read_exact_at_filled [OF kq_env_reads_file [OF assms(1-3)] assms(5) _ assms(6-10,4)]
  by (simp add: kq_file_env_def runtime_file_env_def)

text \<open>A system whose world is a file that \<open>pread\<close> reads two bytes at a time.\<close>

definition pread_libc :: "u8 list kq_libc" where
  "pread_libc =
     \<lparr>libc_call = (\<lambda>c w. (case c of
          CPread fd p n offset \<Rightarrow>
            (let ds = take (min 2 n) (drop (unat offset) w)
             in \<lparr>rp_ret = int (length ds), rp_errno = 0, rp_bytes = ds, rp_addr = [], rp_addrlen = 0, rp_so_error = 0\<rparr>)
        | _ \<Rightarrow> \<lparr>rp_ret = - 1, rp_errno = 78, rp_bytes = [], rp_addr = [], rp_addrlen = 0, rp_so_error = 0\<rparr>, w)),
      KQ_EAGAIN = 35, KQ_EWOULDBLOCK = 35, KQ_EINPROGRESS = 36\<rparr>"

lemma pread_libc_reads: "preads_file pread_libc (\<lambda>fd w. w)"
  unfolding preads_file_def Let_def
proof (intro allI)
  fix fd :: i32 and p n :: nat and offset :: usize and w :: "u8 list"
  let ?rest = "drop (unat offset) w"
  let ?m = "min (min 2 n) (length ?rest)"
  have "take ?m ?rest = take (min 2 n) ?rest" by (simp add: min_def)
  moreover have "?m = 0 \<longrightarrow> n = 0 \<or> ?rest = []" by (auto simp: min_def split: if_splits)
  moreover have "?m \<le> n" "?m < 2 ^ 63" by simp_all
  ultimately show "\<exists>m rp w'. libc_call pread_libc (CPread fd p n offset) w = (rp, w') \<and> rp_ret rp = int m \<and>
      rp_bytes rp = take m ?rest \<and> m \<le> n \<and> m \<le> length ?rest \<and> m < 2 ^ 63 \<and> (m = 0 \<longrightarrow> n = 0 \<or> ?rest = []) \<and> w' = w"
    by (intro exI [of _ ?m]) (simp add: pread_libc_def min.commute)
qed

definition quiet_kq :: "(kq_op op_heap \<times> u8 list) kq_sys" where
  "quiet_kq = \<lparr>kqueue = (\<lambda>w. (Ok (), w)), kevent = (\<lambda>changes n t w. (Ok [], w)), clock = (\<lambda>w. 0)\<rparr>"

definition pread_driver :: "(nat kq_driver, kq_op, u8 list, i32, kq_fd) driver_ops" where
  "pread_driver = kq_driver_ops quiet_kq (boxed (kq_operate pread_libc) (\<lambda>a i. None) (\<lambda>a. None)) (\<lambda>e. False)"

definition sample_std :: "(i32, kq_fd, kq_fd, (nat kq_driver, registered_op option, kq_op, u8 list) runtime) file_env" where
  "sample_std =
     \<lparr>env_open = (\<lambda>path options rt. (Ok 3, rt)), env_dup = (\<lambda>fd rt. (Err (Os 24), rt)),
      env_attach = (\<lambda>fd rt. (Ok (KqFd fd), rt)), env_into = (\<lambda>fd. fd),
      env_grow = (\<lambda>v additional. (raw_ptr v, replicate additional 0)),
      await_read_at = (\<lambda>op rt. ((Err no_value, op), rt)), await_write_at = (\<lambda>op rt. ((Err no_value, op), rt)),
      await_sync = (\<lambda>op rt. ((Err no_value, op), rt))\<rparr>"

definition attached_kq_file :: "(i32, kq_fd) fs_file" where
  "attached_kq_file = \<lparr>file_inner = 3, file_attacher = \<lparr>once = Some (KqFd 3)\<rparr>\<rparr>"

theorem kq_file_read_exact_witness:
  "\<exists>rt b' rt'. runtime_new pread_driver cell_slab [10, 11, 12, 13, 14] = (Ok rt, [10, 11, 12, 13, 14]) \<and>
    file_read_exact_at (kq_file_env pread_driver cell_slab sample_std) attached_kq_file (Raw (sample_vec 3)) 1 rt =
      Some ((Ok 3, b'), attached_kq_file, rt') \<and> as_slice b' = Some [7, 11, 12, 13]"
proof -
  obtain rt where rt: "runtime_new pread_driver cell_slab [10, 11, 12, 13, 14] = (Ok rt, [10, 11, 12, 13, 14])"
    "rt_world rt = [10, 11, 12, 13, 14]"
    by (simp add: pread_driver_def runtime_new_def kq_driver_ops_def kq_new_def kq_with_def quiet_kq_def)
  have "idle idle_kq cell_slab rt" by (rule kq_runtime_new_idle(1) [OF cell_slab_spec(1) rt(1) [unfolded pread_driver_def]]) (simp add: quiet_kq_def)
  from kq_file_read_exact [OF cell_slab_spec pread_libc_reads this,
      of attached_kq_file 3 "Raw (sample_vec 3)" "[7]" 4097 3 1
        quiet_kq "\<lambda>a i. None" "\<lambda>a. None" "\<lambda>e. False" sample_std] rt
  show ?thesis
    by (auto simp: pread_driver_def [symmetric] attached_kq_file_def sample_vec_def wf_raw_def mut_buf_def as_slice_Raw
        as_uninit_slice_def raw_capacity_def)
qed

end
