(* ===== verification/File_Iour.thy ===== *)
theory File_Iour
  imports Runtime_Iour Iour_Op Await
begin

text \<open>
  Files over the runtime over io_uring. The kernel works on the memory of the process while a request
  is with it: it reads the bytes a write points at when the ring is submitted, and stores the bytes of a
  read before its completion is seen. With that memory the futures \<open>Fs_File\<close> awaits are those of
  \<open>Runtime\<close> on the io_uring driver, and the operations those of \<open>Iour_Op\<close>.
\<close>

subsection \<open>The memory behind the boxes\<close>

fun iour_buffers :: "iour_op \<Rightarrow> iobuf list" where
  "iour_buffers (IoRead x) = [read_buffer x]"
| "iour_buffers (IoReadAt x) = [read_at_buffer x]"
| "iour_buffers (IoWrite x) = [write_buffer x]"
| "iour_buffers (IoWriteAt x) = [write_at_buffer x]"
| "iour_buffers (IoRecv x) = [recv_buffer x]"
| "iour_buffers (IoRecvVectored x) = wrapper_into_inner (recvv_buffer x)"
| "iour_buffers (IoSend x) = [send_buffer x]"
| "iour_buffers (IoSendVectored x) = wrapper_into_inner (sendv_buffer x)"
| "iour_buffers (IoRecvFrom x) = wrapper_into_inner (recvm_buffer (rf_inner x))"
| "iour_buffers (IoRecvMsg x) = wrapper_into_inner (recvm_buffer x)"
| "iour_buffers (IoSendTo x) = wrapper_into_inner (sendm_buffer (st_inner x))"
| "iour_buffers (IoSendMsg x) = wrapper_into_inner (sendm_buffer x)"
| "iour_buffers op = []"

definition owns :: "nat \<Rightarrow> nat \<Rightarrow> iobuf \<Rightarrow> bool" where
  "owns p n b \<longleftrightarrow> raw_ptr (root b) \<le> p \<and> p + n \<le> raw_ptr (root b) + length (raw_mem (root b))"

text \<open>The bytes at an address are those of the first boxed buffer whose allocation has the region.\<close>

definition heap_bytes :: "iour_op op_heap \<Rightarrow> nat \<Rightarrow> nat \<Rightarrow> u8 list" where
  "heap_bytes h p n =
     (case find (owns p n) (concat (map (\<lambda>a. case boxes h a of None \<Rightarrow> [] | Some op \<Rightarrow> iour_buffers op) [0..<next_box h])) of
        None \<Rightarrow> []
      | Some b \<Rightarrow> bytes_at (root b) p n)"

text \<open>A store of the kernel reaches the buffers an operation receives into.\<close>

definition store_owned :: "nat \<times> u8 list \<Rightarrow> iobuf \<Rightarrow> iobuf" where
  "store_owned s b = (if owns (fst s) (length (snd s)) b then store_bytes (fst s) (snd s) b else b)"

fun slices_store :: "nat \<times> u8 list \<Rightarrow> slices_buf \<Rightarrow> slices_buf" where
  "slices_store s (Wrapped w) = Wrapped w"
| "slices_store s (WrappedMut w) = WrappedMut (w\<lparr>bwm_buffer := store_owned s (bwm_buffer w)\<rparr>)"
| "slices_store s (Vectored w) = Vectored (w\<lparr>vb_buffers := map (store_owned s) (vb_buffers w)\<rparr>)"

fun iour_store :: "nat \<times> u8 list \<Rightarrow> iour_op \<Rightarrow> iour_op" where
  "iour_store s (IoRead x) = IoRead (x\<lparr>read_buffer := store_owned s (read_buffer x)\<rparr>)"
| "iour_store s (IoReadAt x) = IoReadAt (x\<lparr>read_at_buffer := store_owned s (read_at_buffer x)\<rparr>)"
| "iour_store s (IoRecv x) = IoRecv (x\<lparr>recv_buffer := store_owned s (recv_buffer x)\<rparr>)"
| "iour_store s (IoRecvVectored x) = IoRecvVectored (x\<lparr>recvv_buffer := slices_store s (recvv_buffer x)\<rparr>)"
| "iour_store s (IoRecvFrom x) =
     IoRecvFrom (x\<lparr>rf_inner := (rf_inner x)\<lparr>recvm_buffer := slices_store s (recvm_buffer (rf_inner x))\<rparr>\<rparr>)"
| "iour_store s (IoRecvMsg x) = IoRecvMsg (x\<lparr>recvm_buffer := slices_store s (recvm_buffer x)\<rparr>)"
| "iour_store s op = op"

text \<open>
  The kernel's access to the memory: \<open>km_load\<close> gives a ring the memory as it is when the ring is
  submitted, \<open>km_stores\<close> are the stores made once it has been. The driver is the one of
  \<open>Runtime_Iour\<close>, whose \<open>submit\<close> now has these effects on the boxes.
\<close>

record 'r kernel_memory =
  km_load :: "(nat \<Rightarrow> nat \<Rightarrow> u8 list) \<Rightarrow> 'r \<Rightarrow> 'r"
  km_stores :: "'r \<Rightarrow> (nat \<times> u8 list) list"

definition iour_memory_ops ::
  "'r io_uring \<Rightarrow> 'r kernel_memory \<Rightarrow> errnos \<Rightarrow> timeout_flags \<Rightarrow> (io_error \<Rightarrow> bool) \<Rightarrow>
   ('r iour_driver, iour_op, 'w, i32, fd) driver_ops" where
  "iour_memory_ops U M no F timed_out =
     (iour_driver_ops U no (iour_create_entry F) timed_out)
       \<lparr>drv_submit := (\<lambda>t d (h, w).
          let d0 = d\<lparr>inner := km_load M (heap_bytes h) (inner d)\<rparr>;
              (r, d') = iour_submit U no t d0;
              stores = km_stores M (submitted_ring U t d0)
          in Some (r, d', h\<lparr>boxes := (\<lambda>a. map_option (fold iour_store stores) (boxes h a))\<rparr>, w))\<rparr>"

subsection \<open>What is relied on\<close>

text \<open>
  The ring holds one request and nothing is with the kernel. A read of a regular file then completes
  with the number of bytes it stored at the address, bytes of the file from the offset on, none only
  when none was asked for or the file ends there; a write completes with the number of bytes of the
  memory that it put into the file, at least one of those given. Neither pushing a request nor handing
  over the memory changes a file.
\<close>

definition one_request :: "('r \<Rightarrow> sqe list) \<Rightarrow> ('r \<Rightarrow> u64 multiset) \<Rightarrow> sqe_op \<Rightarrow> u64 \<Rightarrow> 'r \<Rightarrow> bool" where
  "one_request sq fl e k r \<longleftrightarrow> sq r = [\<lparr>sqe_op = e, sqe_user_data = k\<rparr>] \<and> fl r = {#}"

definition submits ::
  "'r io_uring \<Rightarrow> 'r kernel_memory \<Rightarrow> (nat \<Rightarrow> nat \<Rightarrow> u8 list) \<Rightarrow> u64 \<Rightarrow> 'r \<Rightarrow> nat \<Rightarrow> (nat \<times> u8 list) list \<Rightarrow> 'r \<Rightarrow> bool" where
  "submits U M mem k r m stores r' \<longleftrightarrow>
     (\<exists>j r2. ring_submit U SubmitAndWait1 (sq_sync U (km_load M mem r)) = (Ok j, r2) \<and> km_stores M r2 = stores \<and>
        ring_completion U r2 = ([\<lparr>cqe_user_data = k, cqe_result = of_nat m\<rparr>], r') \<and> m < 2 ^ 31)"

definition ring_files ::
  "'r io_uring \<Rightarrow> 'r kernel_memory \<Rightarrow> ('r \<Rightarrow> sqe list) \<Rightarrow> ('r \<Rightarrow> u64 multiset) \<Rightarrow> (io_target \<Rightarrow> 'r \<Rightarrow> u8 list) \<Rightarrow> bool" where
  "ring_files U M sq fl content \<longleftrightarrow>
     (\<forall>e r r' t. sq_push U e r = Some r' \<longrightarrow> content t r' = content t r) \<and>
     (\<forall>es r r' t. sq_push_multiple U es r = Some r' \<longrightarrow> content t r' = content t r) \<and>
     (\<forall>r t p n off k mem. one_request sq fl (OpRead t p n (Some off)) k r \<longrightarrow>
        (\<exists>m r'. let rest = drop (unat off) (content t r) in
           submits U M mem k r m [(p, take m rest)] r' \<and> m \<le> unat n \<and> m \<le> length rest \<and>
           (m = 0 \<longrightarrow> n = 0 \<or> rest = []) \<and> content t r' = content t r \<and>
           sq r' = [] \<and> fl r' = {#} \<and> sq_capacity U r' = sq_capacity U r)) \<and>
     (\<forall>r t p n off k mem. one_request sq fl (OpWrite t p n (Some off)) k r \<longrightarrow> length (mem p (unat n)) = unat n \<longrightarrow> 0 < n \<longrightarrow>
        (\<exists>m r'. submits U M mem k r m [] r' \<and> 0 < m \<and> m \<le> unat n \<and>
           content t r' = splice (unat off) 0 (take m (mem p (unat n))) (content t r) \<and>
           sq r' = [] \<and> fl r' = {#} \<and> sq_capacity U r' = sq_capacity U r))"

definition errnos_ok :: "errnos \<Rightarrow> bool" where
  "errnos_ok no \<longleftrightarrow> 0 < sint (ETIME no) \<and> 0 < sint (ENOENT no) \<and> 0 < sint (EALREADY no)"

subsection \<open>One request\<close>

lemma i32_of_nat:
  assumes "m < 2 ^ 31"
  shows "sint (of_nat m :: i32) = int m" "i32_as_usize (of_nat m) = of_nat m"
proof -
  have "signed_take_bit 31 (int m) = int m" using assms by (intro signed_take_bit_int_eq_self) auto
  moreover have "m mod 4294967296 = m" using assms by simp
  ultimately show s: "sint (of_nat m :: i32) = int m" by (simp add: sint_uint uint_nat unat_of_nat)
  then have "\<not> is_negative (of_nat m)" by (simp add: is_negative_def)
  then have "int (unat (i32_as_usize (of_nat m))) = int m" using unat_i32_as_usize [of "of_nat m"] unfolding s by blast
  then have "unat (i32_as_usize (of_nat m)) = unat (of_nat m :: usize)" using assms by (simp only: of_nat_eq_iff) simp
  then show "i32_as_usize (of_nat m) = of_nat m" by (rule unsigned_word_eqI)
qed

lemma iour_submit_one:
  assumes "submits U M mem k r m stores r'" "r = inner d" "k \<noteq> FILES_UPDATE_KEY" "errnos_ok no"
  defines "d0 \<equiv> d\<lparr>inner := km_load M mem (inner d)\<rparr>"
  shows "\<exists>d'. iour_submit U no None d0 = ((Ok (), [entry_new k (Ok (of_nat m))]), d') \<and> inner d' = r'"
    "km_stores M (submitted_ring U None d0) = stores"
proof -
  obtain j r2 where s: "ring_submit U SubmitAndWait1 (sq_sync U (km_load M mem (inner d))) = (Ok j, r2)" "km_stores M r2 = stores"
    "ring_completion U r2 = ([\<lparr>cqe_user_data = k, cqe_result = of_nat m\<rparr>], r')" "m < 2 ^ 31"
    using assms(1,2) by (auto simp: submits_def)
  have "of_nat m \<noteq> - e" if "0 < sint e" for e :: i32
    using that is_negative_uminus [OF that] i32_of_nat(1) [OF s(4)] by (auto simp: is_negative_def)
  then show "\<exists>d'. iour_submit U no None d0 = ((Ok (), [entry_new k (Ok (of_nat m))]), d') \<and> inner d' = r'"
    using s assms(3,4) i32_of_nat [OF s(4)]
    by (simp add: d0_def iour_submit_def submit_impl_def complete_entries_def complete_cqe_def create_entry_def
        errnos_ok_def is_negative_def Let_def)
  show "km_stores M (submitted_ring U None d0) = stores"
    using s(1,2) by (simp add: d0_def submitted_ring_def)
qed

subsection \<open>Operations that complete at once\<close>

text \<open>
  The positional reads and writes of regular files. The length of a request has 32 bits: what is said of
  them is said of buffers below that size.
\<close>

definition target_of :: "fd_or_fixed \<Rightarrow> io_target" where
  "target_of fd = apply_to_fd_or_fixed (\<lambda>t. t) fd"

fun iour_prompt :: "iour_op \<Rightarrow> 'r \<Rightarrow> bool" where
  "iour_prompt (IoReadAt x) r \<longleftrightarrow> wf_buf (read_at_buffer x) \<and>
     (case as_uninit_slice (read_at_buffer x) of Some (a, n) \<Rightarrow> n < 2 ^ 32 | None \<Rightarrow> False)"
| "iour_prompt (IoWriteAt x) r \<longleftrightarrow> wf_buf (write_at_buffer x) \<and>
     (case as_slice (write_at_buffer x) of Some ds \<Rightarrow> ds \<noteq> [] \<and> length ds < 2 ^ 32 | None \<Rightarrow> False)"
| "iour_prompt op r \<longleftrightarrow> False"

fun iour_outcome ::
  "(io_target \<Rightarrow> 'r \<Rightarrow> u8 list) \<Rightarrow> iour_op \<Rightarrow> 'r \<Rightarrow> usize io_result \<Rightarrow> iour_op \<Rightarrow> 'r \<Rightarrow> bool" where
  "iour_outcome content (IoReadAt x) r res op' r' \<longleftrightarrow>
     (\<exists>a n m. let rest = drop (unat (read_at_offset x)) (content (target_of (read_at_fd x)) r) in
        as_uninit_slice (read_at_buffer x) = Some (a, n) \<and> res = Ok (of_nat m) \<and>
        op' = IoReadAt (x\<lparr>read_at_buffer := store_bytes a (take m rest) (read_at_buffer x)\<rparr>) \<and>
        m \<le> n \<and> m \<le> length rest \<and> m < 2 ^ 31 \<and> (m = 0 \<longrightarrow> n = 0 \<or> rest = []) \<and>
        content (target_of (read_at_fd x)) r' = content (target_of (read_at_fd x)) r)"
| "iour_outcome content (IoWriteAt x) r res op' r' \<longleftrightarrow>
     (\<exists>ds m. as_slice (write_at_buffer x) = Some ds \<and> res = Ok (of_nat m) \<and> op' = IoWriteAt x \<and>
        0 < m \<and> m \<le> length ds \<and> m < 2 ^ 31 \<and>
        content (target_of (write_at_fd x)) r' =
          splice (unat (write_at_offset x)) 0 (take m ds) (content (target_of (write_at_fd x)) r))"
| "iour_outcome content op r res op' r' \<longleftrightarrow> False"

definition ring_idle :: "'r io_uring \<Rightarrow> ('r \<Rightarrow> sqe list) \<Rightarrow> ('r \<Rightarrow> u64 multiset) \<Rightarrow> 'r iour_driver \<Rightarrow> bool" where
  "ring_idle U sq fl d \<longleftrightarrow> sq (inner d) = [] \<and> fl (inner d) = {#} \<and> 0 < sq_capacity U (inner d)"

definition ring_laws ::
  "'r io_uring \<Rightarrow> 'r kernel_memory \<Rightarrow> errnos \<Rightarrow> ('r \<Rightarrow> sqe list) \<Rightarrow> ('r \<Rightarrow> u64 multiset) \<Rightarrow> (io_target \<Rightarrow> 'r \<Rightarrow> u8 list) \<Rightarrow> bool" where
  "ring_laws U M no sq fl content \<longleftrightarrow>
     ring_spec U sq \<and> ring_flow U sq fl \<and> ring_files U M sq fl content \<and> errnos_ok no"

definition iour_loaded ::
  "'r io_uring \<Rightarrow> ('r \<Rightarrow> sqe list) \<Rightarrow> ('r \<Rightarrow> u64 multiset) \<Rightarrow> (io_target \<Rightarrow> 'r \<Rightarrow> u8 list) \<Rightarrow> timeout_flags \<Rightarrow>
   nat \<Rightarrow> usize \<Rightarrow> iour_op \<Rightarrow> 'r \<Rightarrow> 'r iour_driver \<Rightarrow> iour_op op_heap \<Rightarrow> bool" where
  "iour_loaded U sq fl content F a k op r d h \<longleftrightarrow>
     (\<exists>e. iour_create_entry F op = Some (e, op) \<and> one_request sq fl e k (inner d)) \<and> 0 < sq_capacity U (inner d) \<and>
     (\<forall>t. content t (inner d) = content t r) \<and> boxes h = [a \<mapsto> op] \<and> a < next_box h \<and> k \<noteq> -1 \<and> iour_prompt op r"

lemma prompt_entry:
  assumes "iour_prompt op r"
  obtains (read_at) x a n where "op = IoReadAt x" "as_uninit_slice (read_at_buffer x) = Some (a, n)" "n < 2 ^ 32"
      "wf_buf (read_at_buffer x)" "owns a n (read_at_buffer x)"
      "iour_create_entry F op = Some (OpRead (target_of (read_at_fd x)) a (of_nat n) (Some (read_at_offset x)), op)"
    | (write_at) x p ds where "op = IoWriteAt x" "as_slice (write_at_buffer x) = Some ds" "ds \<noteq> []" "length ds < 2 ^ 32"
      "owns p (length ds) (write_at_buffer x)" "bytes_at (root (write_at_buffer x)) p (length ds) = ds"
      "iour_create_entry F op = Some (OpWrite (target_of (write_at_fd x)) p (of_nat (length ds)) (Some (write_at_offset x)), op)"
proof (cases op)
  case (IoReadAt x)
  then obtain a n where u: "as_uninit_slice (read_at_buffer x) = Some (a, n)" "n < 2 ^ 32" "wf_buf (read_at_buffer x)"
    using assms by (auto split: option.splits)
  obtain p l c where g: "geometry (read_at_buffer x) p l c" using wf_buf_geometry [OF u(3)] by blast
  then have "owns a n (read_at_buffer x)" using geometry_uninit [OF g] u(1) by (auto simp: geometry_def owns_def)
  then show thesis using read_at [OF IoReadAt u] IoReadAt u(1)
    by (cases "read_at_fd x") (simp_all add: read_at_create_entry_def target_of_def)
next
  case (IoWriteAt x)
  then obtain ds where s: "as_slice (write_at_buffer x) = Some ds" "ds \<noteq> []" "length ds < 2 ^ 32" "wf_buf (write_at_buffer x)"
    using assms by (auto split: option.splits)
  obtain p l c where g: "geometry (write_at_buffer x) p l c" using wf_buf_geometry [OF s(4)] by blast
  then have b: "bytes_at (root (write_at_buffer x)) p l = ds" using geometry_as_slice [OF g] s(1) by simp
  have l: "length ds = l" using g by (auto simp: b [symmetric] bytes_at_def geometry_def)
  have "owns p l (write_at_buffer x)" using g by (auto simp: geometry_def owns_def)
  then show thesis using write_at [OF IoWriteAt s(1-3), of p] IoWriteAt s(1) b l g
    by (cases "write_at_fd x") (simp_all add: write_at_create_entry_def init_region_def target_of_def geometry_def)
qed (use assms in simp_all)

lemma ring_laws_push:
  assumes "ring_laws U M no sq fl content"
  shows "sq_push U e r = Some r' \<Longrightarrow> content t r' = content t r"
    "sq_push_multiple U es r = Some r' \<Longrightarrow> content t r' = content t r"
  using assms unfolding ring_laws_def ring_files_def by (elim conjE, simp)+

lemma ring_laws_read:
  assumes "ring_laws U M no sq fl content" "one_request sq fl (OpRead t p n (Some off)) k r"
  obtains m r' where "submits U M mem k r m [(p, take m (drop (unat off) (content t r)))] r'" "m \<le> unat n"
    "m \<le> length (drop (unat off) (content t r))" "m = 0 \<longrightarrow> n = 0 \<or> drop (unat off) (content t r) = []"
    "content t r' = content t r" "sq r' = []" "fl r' = {#}" "sq_capacity U r' = sq_capacity U r"
proof -
  have "\<forall>r t p n off k mem. one_request sq fl (OpRead t p n (Some off)) k r \<longrightarrow>
        (\<exists>m r'. let rest = drop (unat off) (content t r) in
           submits U M mem k r m [(p, take m rest)] r' \<and> m \<le> unat n \<and> m \<le> length rest \<and>
           (m = 0 \<longrightarrow> n = 0 \<or> rest = []) \<and> content t r' = content t r \<and>
           sq r' = [] \<and> fl r' = {#} \<and> sq_capacity U r' = sq_capacity U r)"
    using assms(1) unfolding ring_laws_def ring_files_def by (elim conjE)
  from this [rule_format, OF assms(2), of mem, unfolded Let_def] show thesis by (elim exE conjE) (rule that)
qed

lemma ring_laws_write:
  assumes "ring_laws U M no sq fl content" "one_request sq fl (OpWrite t p n (Some off)) k r"
    "length (mem p (unat n)) = unat n" "0 < n"
  obtains m r' where "submits U M mem k r m [] r'" "0 < m" "m \<le> unat n"
    "content t r' = splice (unat off) 0 (take m (mem p (unat n))) (content t r)"
    "sq r' = []" "fl r' = {#}" "sq_capacity U r' = sq_capacity U r"
proof -
  have "\<forall>r t p n off k mem. one_request sq fl (OpWrite t p n (Some off)) k r \<longrightarrow> length (mem p (unat n)) = unat n \<longrightarrow> 0 < n \<longrightarrow>
        (\<exists>m r'. submits U M mem k r m [] r' \<and> 0 < m \<and> m \<le> unat n \<and>
           content t r' = splice (unat off) 0 (take m (mem p (unat n))) (content t r) \<and>
           sq r' = [] \<and> fl r' = {#} \<and> sq_capacity U r' = sq_capacity U r)"
    using assms(1) unfolding ring_laws_def ring_files_def by (elim conjE)
  from this [rule_format, where mem = mem, OF assms(2-4)] show thesis by (elim exE conjE) (rule that)
qed

lemma heap_bytes_one:
  assumes "boxes h = [a \<mapsto> op]" "a < next_box h" "iour_buffers op = [b]" "owns p n b"
  shows "heap_bytes h p n = bytes_at (root b) p n"
proof -
  have none: "concat (map (\<lambda>i. case [a \<mapsto> op] i of None \<Rightarrow> [] | Some op \<Rightarrow> iour_buffers op) is) = []" if "a \<notin> set is" for "is"
    using that by (induction "is") auto
  have "[0..<next_box h] = [0..<a] @ a # [Suc a..<next_box h]"
    using assms(2) upt_conv_Cons [of a "next_box h"] upt_add_eq_append [of 0 a "next_box h - a"] by simp
  then show ?thesis using assms by (simp add: heap_bytes_def none del: fun_upd_apply) (simp add: none)
qed

lemma iour_read_submit:
  assumes "ring_laws U M no sq fl content" "iour_loaded U sq fl content F b k (IoReadAt x) r d h"
  shows "\<exists>res op' d' h' w'. drv_submit (iour_memory_ops U M no F timed_out) None d (h, w) =
      Some ((Ok (), [entry_new k res]), d', h', w') \<and>
    boxes h' = [b \<mapsto> op'] \<and> ring_idle U sq fl d' \<and> iour_outcome content (IoReadAt x) r res op' (inner d')"
proof -
  let ?t = "target_of (read_at_fd x)" and ?off = "read_at_offset x"
  let ?rest = "drop (unat ?off) (content ?t r)"
  have l: "iour_prompt (IoReadAt x) r" "k \<noteq> FILES_UPDATE_KEY" "boxes h = [b \<mapsto> IoReadAt x]" "content ?t (inner d) = content ?t r"
      "0 < sq_capacity U (inner d)"
    using assms(2) by (simp_all add: iour_loaded_def FILES_UPDATE_KEY_def)
  obtain a n where u: "as_uninit_slice (read_at_buffer x) = Some (a, n)" "n < 2 ^ 32" "owns a n (read_at_buffer x)"
      "iour_create_entry F (IoReadAt x) = Some (OpRead ?t a (of_nat n) (Some ?off), IoReadAt x)"
    using l(1) by (cases rule: prompt_entry [where F = F]) auto
  have "one_request sq fl (OpRead ?t a (of_nat n) (Some ?off)) k (inner d)" using assms(2) u(4) by (auto simp: iour_loaded_def)
  from ring_laws_read [OF assms(1) this, of "heap_bytes h"] l(4)
  obtain m r' where m: "submits U M (heap_bytes h) k (inner d) m [(a, take m ?rest)] r'" "m \<le> unat (of_nat n :: u32)"
      "m \<le> length ?rest" "m = 0 \<longrightarrow> (of_nat n :: u32) = 0 \<or> ?rest = []" "content ?t r' = content ?t r"
      "sq r' = []" "fl r' = {#}" "sq_capacity U r' = sq_capacity U (inner d)" by (simp only:) blast
  have n: "unat (of_nat n :: u32) = n" using u(2) by (simp add: unat_of_nat)
  then have z: "(of_nat n :: u32) = 0 \<longleftrightarrow> n = 0" by (metis unat_0 unat_eq_zero)
  have e: "errnos_ok no" using assms(1) by (simp add: ring_laws_def)
  obtain d' where d': "iour_submit U no None (d\<lparr>inner := km_load M (heap_bytes h) (inner d)\<rparr>) =
      ((Ok (), [entry_new k (Ok (of_nat m))]), d')" "inner d' = r'" using iour_submit_one(1) [OF m(1) refl l(2) e] by blast
  have "owns a (length (take m ?rest)) (read_at_buffer x)" using u(3) m(2,3) n by (simp add: owns_def)
  then have "drv_submit (iour_memory_ops U M no F timed_out) None d (h, w) = Some ((Ok (), [entry_new k (Ok (of_nat m))]), d',
      h\<lparr>boxes := [b \<mapsto> IoReadAt (x\<lparr>read_at_buffer := store_bytes a (take m ?rest) (read_at_buffer x)\<rparr>)]\<rparr>, w)"
    using d'(1) iour_submit_one(2) [OF m(1) refl l(2) e] l(3) by (auto simp: iour_memory_ops_def store_owned_def fun_eq_iff)
  moreover have "m < 2 ^ 31" using m(1) by (auto simp: submits_def)
  ultimately show ?thesis using u(1) m n z d'(2) l(5) by (auto simp: ring_idle_def Let_def)
qed

lemma iour_write_submit:
  assumes "ring_laws U M no sq fl content" "iour_loaded U sq fl content F b k (IoWriteAt x) r d h"
  shows "\<exists>res op' d' h' w'. drv_submit (iour_memory_ops U M no F timed_out) None d (h, w) =
      Some ((Ok (), [entry_new k res]), d', h', w') \<and>
    boxes h' = [b \<mapsto> op'] \<and> ring_idle U sq fl d' \<and> iour_outcome content (IoWriteAt x) r res op' (inner d')"
proof -
  let ?t = "target_of (write_at_fd x)" and ?off = "write_at_offset x"
  have l: "iour_prompt (IoWriteAt x) r" "k \<noteq> FILES_UPDATE_KEY" "boxes h = [b \<mapsto> IoWriteAt x]" "content ?t (inner d) = content ?t r"
      "0 < sq_capacity U (inner d)" "b < next_box h"
    using assms(2) by (simp_all add: iour_loaded_def FILES_UPDATE_KEY_def)
  obtain p ds where u: "as_slice (write_at_buffer x) = Some ds" "ds \<noteq> []" "length ds < 2 ^ 32"
      "owns p (length ds) (write_at_buffer x)" "bytes_at (root (write_at_buffer x)) p (length ds) = ds"
      "iour_create_entry F (IoWriteAt x) = Some (OpWrite ?t p (of_nat (length ds)) (Some ?off), IoWriteAt x)"
    using l(1) by (cases rule: prompt_entry [where F = F]) auto
  have n: "unat (of_nat (length ds) :: u32) = length ds" using u(3) by (simp add: unat_of_nat)
  then have pos: "0 < (of_nat (length ds) :: u32)" using u(2) by (simp add: word_less_nat_alt)
  have mem: "heap_bytes h p (length ds) = ds" using heap_bytes_one [OF l(3,6) _ u(4)] u(5) by simp
  have one: "one_request sq fl (OpWrite ?t p (of_nat (length ds)) (Some ?off)) k (inner d)"
    using assms(2) u(6) by (auto simp: iour_loaded_def)
  have "length (heap_bytes h p (unat (of_nat (length ds) :: u32))) = unat (of_nat (length ds) :: u32)" by (simp only: n mem)
  from ring_laws_write [where mem = "heap_bytes h", OF assms(1) one this pos, unfolded n mem l(4)]
  obtain m r' where m: "submits U M (heap_bytes h) k (inner d) m [] r'" "0 < m" "m \<le> length ds"
      "content ?t r' = splice (unat ?off) 0 (take m ds) (content ?t r)"
      "sq r' = []" "fl r' = {#}" "sq_capacity U r' = sq_capacity U (inner d)" by blast
  have e: "errnos_ok no" using assms(1) by (simp add: ring_laws_def)
  obtain d' where d': "iour_submit U no None (d\<lparr>inner := km_load M (heap_bytes h) (inner d)\<rparr>) =
      ((Ok (), [entry_new k (Ok (of_nat m))]), d')" "inner d' = r'" using iour_submit_one(1) [OF m(1) refl l(2) e] by blast
  have "drv_submit (iour_memory_ops U M no F timed_out) None d (h, w) =
      Some ((Ok (), [entry_new k (Ok (of_nat m))]), d', h\<lparr>boxes := [b \<mapsto> IoWriteAt x]\<rparr>, w)"
    using d'(1) iour_submit_one(2) [OF m(1) refl l(2) e] l(3) by (auto simp: iour_memory_ops_def fun_eq_iff)
  moreover have "m < 2 ^ 31" using m(1) by (auto simp: submits_def)
  ultimately show ?thesis using u(1) m d'(2) l(5) by (auto simp: ring_idle_def)
qed

lemma iour_submit_prompt:
  assumes "ring_laws U M no sq fl content" "iour_loaded U sq fl content F b k op r d h"
  shows "\<exists>res op' d' h' w'. drv_submit (iour_memory_ops U M no F timed_out) None d (h, w) =
      Some ((Ok (), [entry_new k res]), d', h', w') \<and>
    boxes h' = [b \<mapsto> op'] \<and> ring_idle U sq fl d' \<and> iour_outcome content op r res op' (inner d')"
proof -
  have "iour_prompt op r" using assms(2) by (simp add: iour_loaded_def)
  then show ?thesis
  proof (cases rule: prompt_entry [where F = F])
    case (read_at x a n)
    show ?thesis using iour_read_submit [OF assms(1) assms(2) [unfolded read_at(1)]] unfolding read_at(1) .
  next
    case (write_at x p ds)
    show ?thesis using iour_write_submit [OF assms(1) assms(2) [unfolded write_at(1)]] unfolding write_at(1) .
  qed
qed

lemma prompt_has_entry:
  assumes "iour_prompt op r"
  obtains e where "iour_create_entry F op = Some (e, op)"
  using assms by (cases rule: prompt_entry [where F = F]) auto

text \<open>The two ways of pushing give the ring the entry of the operation and leave the box as it is.\<close>

lemma iour_push_prompt:
  assumes "ring_laws U M no sq fl content" "ring_idle U sq fl d" "iour_prompt op (inner d)" "boxes h = [a \<mapsto> op]"
    and "a < next_box h" "k \<noteq> -1"
  shows "\<exists>d' h'. drv_try_push_dyn (iour_memory_ops U M no F timed_out) (op_object_new a k) d (h, w) = Some (Ok (), d', h', w) \<and>
      iour_loaded U sq fl content F a k op (inner d) d' h'"
    "\<exists>d' h'. drv_push_queue (iour_memory_ops U M no F timed_out) [op_object_new a k] d (h, w) = Some ([], d', h', w) \<and>
      iour_loaded U sq fl content F a k op (inner d) d' h'"
proof -
  obtain e where e: "iour_create_entry F op = Some (e, op)" by (rule prompt_has_entry [OF assms(3)])
  let ?e = "\<lparr>sqe_op = e, sqe_user_data = k\<rparr>"
  have h: "h\<lparr>boxes := (boxes h)(a \<mapsto> op)\<rparr> = h" using assms(4) by (cases h) simp
  have ring: "ring_spec U sq" "ring_flow U sq fl" using assms(1) by (simp_all add: ring_laws_def)
  have i: "sq (inner d) = []" "fl (inner d) = {#}" "0 < sq_capacity U (inner d)" using assms(2) by (simp_all add: ring_idle_def)
  have room: "length (sq (inner d)) < sq_capacity U (inner d)" "length (sq (inner d)) + length [?e] \<le> sq_capacity U (inner d)"
    using i by simp_all
  have ent: "boxed_entries (iour_create_entry F) [op_object_new a k] h = Some ([op_object_new e k], h)"
    using e assms(4) h by (simp add: op_object_new_def)
  have load: "iour_loaded U sq fl content F a k op (inner d) d' h"
    if "sq (inner d') = sq (inner d) @ [?e]" "fl (inner d') = fl (inner d)" "sq_capacity U (inner d') = sq_capacity U (inner d)"
      "\<forall>t. content t (inner d') = content t (inner d)" for d'
    using that assms(3-6) e i by (simp add: iour_loaded_def one_request_def)
  obtain r where r: "sq_push U ?e (inner d) = Some r" "sq r = sq (inner d) @ [?e]" "sq_capacity U r = sq_capacity U (inner d)"
    by (rule ring_push_room [OF ring(1) room(1)])
  have "fl r = fl (inner d)" using ring(2) r(1) unfolding ring_flow_def by blast
  moreover have "\<forall>t. content t r = content t (inner d)" by (simp add: ring_laws_push(1) [OF assms(1) r(1)])
  ultimately have "iour_loaded U sq fl content F a k op (inner d) (d\<lparr>inner := r\<rparr>) h" using r by (intro load) simp_all
  then show "\<exists>d' h'. drv_try_push_dyn (iour_memory_ops U M no F timed_out) (op_object_new a k) d (h, w) = Some (Ok (), d', h', w) \<and>
      iour_loaded U sq fl content F a k op (inner d) d' h'"
    using ent r(1) by (intro exI [of _ "d\<lparr>inner := r\<rparr>"] exI [of _ h])
      (simp add: iour_memory_ops_def iour_driver_ops_def boxed_try_push_def iour_try_push_dyn_def op_object_new_def
        del: boxed_entries.simps)
  obtain q where q: "sq_push_multiple U [?e] (inner d) = Some q" "sq q = sq (inner d) @ [?e]" "sq_capacity U q = sq_capacity U (inner d)"
    by (rule ring_push_multiple_room [OF ring(1) room(2)])
  have "fl q = fl (inner d)" using ring(2) q(1) unfolding ring_flow_def by blast
  moreover have "\<forall>t. content t q = content t (inner d)" by (simp add: ring_laws_push(2) [OF assms(1) q(1)])
  ultimately have l: "iour_loaded U sq fl content F a k op (inner d) (d\<lparr>inner := q, squeue_buffer := [?e]\<rparr>) h"
    using q by (intro load) simp_all
  have "min (iour_capacity_left U d) (Suc 0) = Suc 0" using i capacity_left_ring [OF ring(1), of d] by simp
  then show "\<exists>d' h'. drv_push_queue (iour_memory_ops U M no F timed_out) [op_object_new a k] d (h, w) = Some ([], d', h', w) \<and>
      iour_loaded U sq fl content F a k op (inner d) d' h'"
    using ent q(1) l by (intro exI [of _ "d\<lparr>inner := q, squeue_buffer := [?e]\<rparr>"] exI [of _ h])
      (simp add: iour_memory_ops_def iour_driver_ops_def boxed_push_queue_def iour_push_queue_def entry_of_def op_object_new_def
        del: boxed_entries.simps)
qed

interpretation iourp: prompt_driver "iour_memory_ops U M no F timed_out" "\<lambda>d. ring_laws U M no sq fl content \<and> ring_idle U sq fl d"
  "\<lambda>d w. inner d" iour_prompt "iour_outcome content"
  "\<lambda>a k op r d h w. ring_laws U M no sq fl content \<and> iour_loaded U sq fl content F a k op r d h"
  for U :: "'r io_uring" and M no F timed_out sq fl content
proof unfold_locales
  fix d :: "'r iour_driver" and hw :: "iour_op op_heap \<times> 'a"
  show "drv_push_queue (iour_memory_ops U M no F timed_out) [] d hw = Some ([], d, hw)"
    by (cases hw) (simp add: iour_memory_ops_def iour_driver_ops_def boxed_push_queue_def iour_push_queue_def)
next
  fix a k op r h and d :: "'r iour_driver" and w :: 'a
  assume "ring_laws U M no sq fl content \<and> iour_loaded U sq fl content F a k op r d h"
  then show "\<exists>res op' d' h' w'. drv_submit (iour_memory_ops U M no F timed_out) None d (h, w) =
        Some ((Ok (), [entry_new k res]), d', h', w') \<and>
      boxes h' = [a \<mapsto> op'] \<and> (ring_laws U M no sq fl content \<and> ring_idle U sq fl d') \<and> iour_outcome content op r res op' (inner d')"
    using iour_submit_prompt [of U M no sq fl content F a k op r d h timed_out w] by blast
next
  fix d :: "'r iour_driver" and op and h :: "iour_op op_heap" and a :: nat and k :: usize and w :: 'a
  let ?D = "iour_memory_ops U M no F timed_out" and ?laws = "ring_laws U M no sq fl content"
  assume "?laws \<and> ring_idle U sq fl d" "iour_prompt op (inner d)" "boxes h = [a \<mapsto> op]" "a < next_box h" "k \<noteq> - 1"
  then have p: "?laws" "ring_idle U sq fl d" "iour_prompt op (inner d)" "boxes h = [a \<mapsto> op]" "a < next_box h" "k \<noteq> - 1"
    by blast+
  show "\<exists>d' h'. drv_try_push_dyn ?D (op_object_new a k) d (h, w) = Some (Ok (), d', h', w) \<and>
      ?laws \<and> iour_loaded U sq fl content F a k op (inner d) d' h'"
    using iour_push_prompt(1) [OF p] p(1) by simp
  show "\<exists>d' h'. drv_push_queue ?D [op_object_new a k] d (h, w) = Some ([], d', h', w) \<and>
      ?laws \<and> iour_loaded U sq fl content F a k op (inner d) d' h'"
    using iour_push_prompt(2) [OF p] p(1) by simp
qed

text \<open>A new ring is empty, so a new runtime is idle.\<close>

definition new_rings_idle :: "'r io_uring \<Rightarrow> ('r \<Rightarrow> sqe list) \<Rightarrow> ('r \<Rightarrow> u64 multiset) \<Rightarrow> bool" where
  "new_rings_idle U sq fl \<longleftrightarrow>
     (\<forall>n r. ring_new U n = Ok r \<longrightarrow> 0 < n \<longrightarrow> sq r = [] \<and> fl r = {#} \<and> 0 < sq_capacity U r)"

lemma iour_runtime_new_idle:
  assumes "slab_spec S" "new_rings_idle U sq fl" "runtime_new (iour_memory_ops U M no F timed_out) S w = (Ok rt, w')"
  shows "idle (ring_idle U sq fl) S rt" "rt_world rt = w" "ring_new U 1024 = Ok (inner (rt_driver rt))"
  using assms slab_get_new [OF assms(1)]
  by (auto simp: runtime_new_def iour_memory_ops_def iour_driver_ops_def iour_new_def iour_with_def idle_def ring_idle_def
      new_rings_idle_def Let_def split: sum.splits)

subsection \<open>The environment of files\<close>

definition iour_file_env ::
  "('r iour_driver, iour_op, 'w, i32, fd) driver_ops \<Rightarrow> ('s, registered_op) slab \<Rightarrow>
   (i32, fd, fd_or_fixed, ('r iour_driver, 's, iour_op, 'w) runtime) file_env \<Rightarrow>
   (i32, fd, fd_or_fixed, ('r iour_driver, 's, iour_op, 'w) runtime) file_env" where
  "iour_file_env D S base =
     runtime_file_env D S OfFd
       (IoReadAt, \<lambda>x. case x of IoReadAt op \<Rightarrow> Some op | _ \<Rightarrow> None)
       (IoWriteAt, \<lambda>x. case x of IoWriteAt op \<Rightarrow> Some op | _ \<Rightarrow> None)
       (IoSync, \<lambda>x. case x of IoSync op \<Rightarrow> Some op | _ \<Rightarrow> None) base"

abbreviation iour_content :: "(io_target \<Rightarrow> 'r \<Rightarrow> u8 list) \<Rightarrow> fd_or_fixed \<Rightarrow> ('r iour_driver, 's, iour_op, 'w) runtime \<Rightarrow> u8 list" where
  "iour_content content fd rt \<equiv> content (target_of fd) (inner (rt_driver rt))"

lemma idle_conj: "idle (\<lambda>d. P \<and> Q d) S rt \<longleftrightarrow> P \<and> idle Q S rt"
  by (auto simp: idle_def)

lemma iour_env_reads_file:
  assumes "slab_spec S" "slab_reuses S" "ring_laws U M no sq fl content"
  shows "reads_file_on (idle (ring_idle U sq fl) S) (\<lambda>k. k < 2 ^ 32)
    (iour_file_env (iour_memory_ops U M no F timed_out) S base) (iour_content content)"
  unfolding reads_file_on_def
proof (intro allI impI)
  fix op :: "fd_or_fixed read_at_op" and rt :: "('b iour_driver, 'a, iour_op, 'c) runtime" and a k
  assume op: "wf_buf (read_at_buffer op)" "as_uninit_slice (read_at_buffer op) = Some (a, k)" "k < 2 ^ 32"
    and idle: "idle (ring_idle U sq fl) S rt"
  let ?D = "iour_memory_ops U M no F timed_out" and ?rest = "drop (unat (read_at_offset op)) (iour_content content (read_at_fd op) rt)"
  have "idle (\<lambda>d. ring_laws U M no sq fl content \<and> ring_idle U sq fl d) S rt" "iour_prompt (IoReadAt op) (inner (rt_driver rt))"
    using idle assms(3) op by (simp_all add: idle_conj)
  from iourp.idle_await [OF assms(1,2) this, of F timed_out] obtain res op' rt' where
    w: "await_op ?D S (IoReadAt op) rt = Some (Some ((res, op'), rt'))" "idle (ring_idle U sq fl) S rt'"
      "iour_outcome content (IoReadAt op) (inner (rt_driver rt)) res op' (inner (rt_driver rt'))" unfolding idle_conj by blast
  from w(3) [unfolded iour_outcome.simps Let_def op(2) option.inject prod.inject] obtain m where m: "res = Ok (of_nat m)"
      "op' = IoReadAt (op\<lparr>read_at_buffer := store_bytes a (take m ?rest) (read_at_buffer op)\<rparr>)"
      "m \<le> k" "m \<le> length ?rest" "m < 2 ^ 31" "m = 0 \<longrightarrow> k = 0 \<or> ?rest = []"
      "iour_content content (read_at_fd op) rt' = iour_content content (read_at_fd op) rt" by blast
  then show "\<exists>m w'. let rest = drop (unat (read_at_offset op)) (iour_content content (read_at_fd op) rt) in
      await_read_at (iour_file_env ?D S base) op rt =
        ((Ok (of_nat m), op\<lparr>read_at_buffer := store_bytes a (take m rest) (read_at_buffer op)\<rparr>), w') \<and>
      m \<le> k \<and> m \<le> length rest \<and> m < 2 ^ 64 \<and> (m = 0 \<longrightarrow> k = 0 \<or> rest = []) \<and>
      iour_content content (read_at_fd op) w' = iour_content content (read_at_fd op) rt \<and> idle (ring_idle U sq fl) S w'"
    unfolding Let_def using w(1,2)
    by (intro exI [of _ m] exI [of _ rt']) (simp add: iour_file_env_def runtime_file_env_def await_as_def)
qed

lemma iour_env_writes_file:
  assumes "slab_spec S" "slab_reuses S" "ring_laws U M no sq fl content"
  shows "writes_file_on (idle (ring_idle U sq fl) S) (\<lambda>k. k < 2 ^ 32)
    (iour_file_env (iour_memory_ops U M no F timed_out) S base) (iour_content content)"
  unfolding writes_file_on_def
proof (intro allI impI)
  fix op :: "fd_or_fixed write_at_op" and rt :: "('b iour_driver, 'a, iour_op, 'c) runtime" and ds
  assume op: "wf_buf (write_at_buffer op)" "as_slice (write_at_buffer op) = Some ds" "ds \<noteq> []" "length ds < 2 ^ 32"
    and idle: "idle (ring_idle U sq fl) S rt"
  let ?D = "iour_memory_ops U M no F timed_out"
  have "idle (\<lambda>d. ring_laws U M no sq fl content \<and> ring_idle U sq fl d) S rt" "iour_prompt (IoWriteAt op) (inner (rt_driver rt))"
    using idle assms(3) op by (simp_all add: idle_conj)
  from iourp.idle_await [OF assms(1,2) this, of F timed_out] obtain res op' rt' where
    w: "await_op ?D S (IoWriteAt op) rt = Some (Some ((res, op'), rt'))" "idle (ring_idle U sq fl) S rt'"
      "iour_outcome content (IoWriteAt op) (inner (rt_driver rt)) res op' (inner (rt_driver rt'))" unfolding idle_conj by blast
  from w(3) [unfolded iour_outcome.simps Let_def op(2) option.inject prod.inject] obtain m where m: "res = Ok (of_nat m)" "op' = IoWriteAt op" "0 < m" "m \<le> length ds" "m < 2 ^ 31"
      "iour_content content (write_at_fd op) rt' =
        splice (unat (write_at_offset op)) 0 (take m ds) (iour_content content (write_at_fd op) rt)" by blast
  then show "\<exists>m w'. await_write_at (iour_file_env ?D S base) op rt = ((Ok (of_nat m), op), w') \<and>
      0 < m \<and> m \<le> length ds \<and> m < 2 ^ 64 \<and>
      iour_content content (write_at_fd op) w' =
        splice (unat (write_at_offset op)) 0 (take m ds) (iour_content content (write_at_fd op) rt) \<and> idle (ring_idle U sq fl) S w'"
    using w(1,2) by (intro exI [of _ m] exI [of _ rt']) (simp add: iour_file_env_def runtime_file_env_def await_as_def)
qed

lemma splice_read_back:
  "take (length ds) (drop at (splice at z ds xs)) = ds" "length ds \<le> length (splice at z ds xs) - at"
  by (auto simp: splice_def)

text \<open>
  C4. From \<open>File::write_all_at\<close> and \<open>File::read_exact_at\<close> down to the ring: on an idle runtime over
  the io_uring driver both end. The write puts the whole buffer into the file at the position, however
  the kernel splits it; an exact read from that position then fills a buffer of that size with the same
  bytes, and the runtime is idle again. The buffers are below the 4 GiB a request can describe.
\<close>

theorem iour_file_write_read:
  assumes "slab_spec S" "slab_reuses S" "ring_laws U M no sq fl content" "idle (ring_idle U sq fl) S rt"
    and "once (file_attacher f) = Some fd" "wf_buf b" "as_slice b = Some ds" "length ds < 2 ^ 32" "unat pos + length ds < 2 ^ 64"
    and "wf_buf b2" "mut_buf b2" "as_slice b2 = Some old" "as_uninit_slice b2 = Some (a, length ds)"
  shows "\<exists>rt1 b' rt2.
    file_write_all_at (iour_file_env (iour_memory_ops U M no F timed_out) S base) f b pos rt = Some (Some ((Ok (length ds), b), f, rt1)) \<and>
    iour_content content (OfFd fd) rt1 = splice (unat pos) 0 ds (iour_content content (OfFd fd) rt) \<and>
    file_read_exact_at (iour_file_env (iour_memory_ops U M no F timed_out) S base) f b2 pos rt1 = Some ((Ok (length ds), b'), f, rt2) \<and>
    as_slice b' = Some (old @ ds) \<and> idle (ring_idle U sq fl) S rt2"
proof -
  let ?E = "iour_file_env (iour_memory_ops U M no F timed_out) S base"
  have into: "env_into ?E fd = OfFd fd" by (simp add: iour_file_env_def runtime_file_env_def)
  have R: "\<forall>k \<le> length ds. k < 2 ^ 32" using assms(8) by auto
  obtain rt1 where 1: "file_write_all_at ?E f b pos rt = Some (Some ((Ok (length ds), b), f, rt1))"
      "iour_content content (OfFd fd) rt1 = splice (unat pos) 0 ds (iour_content content (OfFd fd) rt)" "idle (ring_idle U sq fl) S rt1"
    using file_write_all_at_written [OF iour_env_writes_file [OF assms(1-3), where F = F and timed_out = timed_out and base = base] assms(5-7,9) R assms(4)] unfolding into by blast
  have "length ds \<le> length (iour_content content (OfFd fd) rt1) - unat pos"
    "take (length ds) (drop (unat pos) (iour_content content (OfFd fd) rt1)) = ds"
    unfolding 1(2) by (rule splice_read_back)+
  then obtain b' rt2 where "file_read_exact_at ?E f b2 pos rt1 = Some ((Ok (length ds), b'), f, rt2)"
      "as_slice b' = Some (old @ ds)" "idle (ring_idle U sq fl) S rt2"
    using file_read_exact_at_filled [OF iour_env_reads_file [OF assms(1-3), where F = F and timed_out = timed_out and base = base] assms(5) R assms(10-13,9) 1(3)] unfolding into
    by (simp only: if_True) blast
  then show ?thesis using 1(1,2) by blast
qed

subsection \<open>An instance\<close>

text \<open>
  A ring of two places before one file. Submitting performs the requests in order, two bytes of each at
  most.
\<close>

record file_ring =
  fr_sq :: "sqe list"
  fr_done :: "cqe list"
  fr_file :: "u8 list"
  fr_mem :: "nat \<Rightarrow> nat \<Rightarrow> u8 list"
  fr_stores :: "(nat \<times> u8 list) list"

definition fr_result :: "sqe \<Rightarrow> file_ring \<Rightarrow> u8 list" where
  "fr_result e r =
     (case sqe_op e of
        OpRead t p n (Some off) \<Rightarrow> take (min 2 (unat n)) (drop (unat off) (fr_file r))
      | OpWrite t p n (Some off) \<Rightarrow> take 2 (fr_mem r p (unat n))
      | _ \<Rightarrow> [])"

definition fr_perform :: "sqe \<Rightarrow> file_ring \<Rightarrow> file_ring" where
  "fr_perform e r =
     (let ds = fr_result e r;
          r' = r\<lparr>fr_done := fr_done r @ [\<lparr>cqe_user_data = sqe_user_data e, cqe_result = of_nat (length ds)\<rparr>]\<rparr>
      in case sqe_op e of
           OpRead t p n (Some off) \<Rightarrow> r'\<lparr>fr_stores := fr_stores r @ [(p, ds)]\<rparr>
         | OpWrite t p n (Some off) \<Rightarrow> r'\<lparr>fr_file := splice (unat off) 0 ds (fr_file r)\<rparr>
         | _ \<Rightarrow> r')"

definition fr_push :: "sqe list \<Rightarrow> file_ring \<Rightarrow> file_ring option" where
  "fr_push es r = (if length (fr_sq r) + length es \<le> 2 then Some (r\<lparr>fr_sq := fr_sq r @ es\<rparr>) else None)"

definition file_io_uring :: "file_ring io_uring" where
  "file_io_uring =
     \<lparr>ring_new = (\<lambda>n. Ok \<lparr>fr_sq = [], fr_done = [], fr_file = [10, 11, 12, 13, 14], fr_mem = (\<lambda>p n. []), fr_stores = []\<rparr>),
      sq_capacity = (\<lambda>r. max 2 (length (fr_sq r))), sq_len = (\<lambda>r. length (fr_sq r)),
      sq_is_full = (\<lambda>r. 2 \<le> length (fr_sq r)), sq_push = (\<lambda>e. fr_push [e]),
      sq_push_multiple = (\<lambda>es r. if es = [] then Some r else fr_push es r), sq_sync = (\<lambda>r. r),
      ring_submit = (\<lambda>m r. (Ok (length (fr_sq r)), fold fr_perform (fr_sq r) (r\<lparr>fr_sq := [], fr_stores := []\<rparr>))),
      ring_completion = (\<lambda>r. (fr_done r, r\<lparr>fr_done := []\<rparr>)),
      probe_socket = (\<lambda>r. (Ok True, r)), ring_register_files_sparse = (\<lambda>n r. (Ok (), r)),
      ring_register_files = (\<lambda>fs r. (Ok (), r)), ring_files_update = (\<lambda>i fs r. (Ok (length fs), r)),
      SKIP_FILE = -2\<rparr>"

definition file_memory :: "file_ring kernel_memory" where
  "file_memory = \<lparr>km_load = (\<lambda>mem r. r\<lparr>fr_mem := mem\<rparr>), km_stores = fr_stores\<rparr>"

abbreviation fr_flight :: "file_ring \<Rightarrow> u64 multiset" where
  "fr_flight r \<equiv> mset (map cqe_user_data (fr_done r))"

lemma fr_perform_frame [simp]:
  "fr_sq (fr_perform e r) = fr_sq r"
  "map cqe_user_data (fr_done (fr_perform e r)) = map cqe_user_data (fr_done r) @ [sqe_user_data e]"
  by (simp_all add: fr_perform_def Let_def split: sqe_op.splits option.splits)

lemma fold_fr_perform:
  "fr_sq (fold fr_perform es r) = fr_sq r \<and>
   map cqe_user_data (fr_done (fold fr_perform es r)) = map cqe_user_data (fr_done r) @ map sqe_user_data es"
  by (induction es arbitrary: r) simp_all

lemma file_ring_spec: "ring_spec file_io_uring fr_sq"
  by (auto simp: ring_spec_def file_io_uring_def fr_push_def)

lemma file_ring_flow: "ring_flow file_io_uring fr_sq fr_flight"
  using fold_fr_perform
  by (auto simp: ring_flow_def file_io_uring_def fr_push_def simp del: mset_map split: if_splits)

lemma file_ring_files: "ring_files file_io_uring file_memory fr_sq fr_flight (\<lambda>t. fr_file)"
  unfolding ring_files_def
proof (intro conjI allI impI)
  fix r :: file_ring and t p n off k and mem :: "nat \<Rightarrow> nat \<Rightarrow> u8 list"
  assume one: "one_request fr_sq fr_flight (OpRead t p n (Some off)) k r"
  let ?rest = "drop (unat off) (fr_file r)"
  let ?m = "min (min 2 (unat n)) (length ?rest)"
  have "take ?m ?rest = take (min 2 (unat n)) ?rest" by (simp add: min_def)
  moreover have "?m = 0 \<longrightarrow> n = 0 \<or> ?rest = []" by (auto simp: min_def unat_eq_zero split: if_splits)
  moreover have "?m \<le> unat n" by linarith
  moreover have "?m < 2147483648" by linarith
  ultimately show "\<exists>m r'. let rest = drop (unat off) (fr_file r) in
      submits file_io_uring file_memory mem k r m [(p, take m rest)] r' \<and> m \<le> unat n \<and> m \<le> length rest \<and>
      (m = 0 \<longrightarrow> n = 0 \<or> rest = []) \<and> fr_file r' = fr_file r \<and> fr_sq r' = [] \<and> fr_flight r' = {#} \<and>
      sq_capacity file_io_uring r' = sq_capacity file_io_uring r"
    using one unfolding Let_def
    by (intro exI [of _ ?m]) (simp add: submits_def file_io_uring_def file_memory_def one_request_def fr_perform_def fr_result_def min.commute)
next
  fix r :: file_ring and t p n off k and mem :: "nat \<Rightarrow> nat \<Rightarrow> u8 list"
  assume one: "one_request fr_sq fr_flight (OpWrite t p n (Some off)) k r" "length (mem p (unat n)) = unat n" "0 < n"
  have "0 < unat n" using one(3) by (simp add: word_less_nat_alt)
  moreover have "take (min (unat n) 2) (mem p (unat n)) = take 2 (mem p (unat n))" using one(2) by (simp add: min_def)
  moreover have "min (unat n) 2 < 2147483648" by linarith
  ultimately show "\<exists>m r'. submits file_io_uring file_memory mem k r m [] r' \<and> 0 < m \<and> m \<le> unat n \<and>
      fr_file r' = splice (unat off) 0 (take m (mem p (unat n))) (fr_file r) \<and> fr_sq r' = [] \<and> fr_flight r' = {#} \<and>
      sq_capacity file_io_uring r' = sq_capacity file_io_uring r"
    using one(1,2) by (intro exI [of _ "min (unat n) 2"])
      (simp add: submits_def file_io_uring_def file_memory_def one_request_def fr_perform_def fr_result_def)
qed (auto simp: file_io_uring_def fr_push_def split: if_splits)

lemma file_ring_laws: "ring_laws file_io_uring file_memory linux_errnos fr_sq fr_flight (\<lambda>t. fr_file)"
  using file_ring_spec file_ring_flow file_ring_files by (simp add: ring_laws_def errnos_ok_def linux_errnos_def)

lemma file_rings_idle: "new_rings_idle file_io_uring fr_sq fr_flight"
  by (simp add: new_rings_idle_def file_io_uring_def)

definition file_driver :: "(file_ring iour_driver, iour_op, unit, i32, fd) driver_ops" where
  "file_driver = iour_memory_ops file_io_uring file_memory linux_errnos \<lparr>BOOTTIME = 4, ETIME_SUCCESS = 64\<rparr> (\<lambda>e. False)"

definition sample_iour_std ::
  "(i32, fd, fd_or_fixed, (file_ring iour_driver, registered_op option, iour_op, unit) runtime) file_env" where
  "sample_iour_std =
     \<lparr>env_open = (\<lambda>path options rt. (Ok 3, rt)), env_dup = (\<lambda>fd rt. (Err (Os 24), rt)),
      env_attach = (\<lambda>fd rt. (Ok (Fd fd), rt)), env_into = OfFd,
      env_grow = (\<lambda>v additional. (raw_ptr v, replicate additional 0)),
      await_read_at = (\<lambda>op rt. ((Err no_value, op), rt)), await_write_at = (\<lambda>op rt. ((Err no_value, op), rt)),
      await_sync = (\<lambda>op rt. ((Err no_value, op), rt))\<rparr>"

definition attached_ring_file :: "(i32, fd) fs_file" where
  "attached_ring_file = \<lparr>file_inner = 3, file_attacher = \<lparr>once = Some (Fd 3)\<rparr>\<rparr>"

definition sample_data :: raw_buf where
  "sample_data = \<lparr>raw_kind = VecU8, raw_ptr = 8192, raw_mem = [1, 2, 3], raw_len = 3\<rparr>"

theorem iour_file_write_read_witness:
  "\<exists>rt rt1 b' rt2. runtime_new file_driver cell_slab () = (Ok rt, ()) \<and>
    file_write_all_at (iour_file_env file_driver cell_slab sample_iour_std) attached_ring_file (Raw sample_data) 1 rt =
      Some (Some ((Ok 3, Raw sample_data), attached_ring_file, rt1)) \<and>
    file_read_exact_at (iour_file_env file_driver cell_slab sample_iour_std) attached_ring_file (Raw (sample_vec 3)) 1 rt1 =
      Some ((Ok 3, b'), attached_ring_file, rt2) \<and> as_slice b' = Some [7, 1, 2, 3]"
proof -
  obtain rt where rt: "runtime_new file_driver cell_slab () = (Ok rt, ())"
    by (simp add: file_driver_def runtime_new_def iour_memory_ops_def iour_driver_ops_def iour_new_def iour_with_def
        file_io_uring_def Let_def)
  have "idle (ring_idle file_io_uring fr_sq fr_flight) cell_slab rt"
    by (rule iour_runtime_new_idle(1) [OF cell_slab_spec(1) file_rings_idle rt [unfolded file_driver_def]])
  from iour_file_write_read [OF cell_slab_spec file_ring_laws this,
      of attached_ring_file "Fd 3" "Raw sample_data" "[1, 2, 3]" 1 "Raw (sample_vec 3)" "[7]" 4097
        "\<lparr>BOOTTIME = 4, ETIME_SUCCESS = 64\<rparr>" "\<lambda>e. False" sample_iour_std] rt
  show ?thesis
    by (auto simp: file_driver_def [symmetric] attached_ring_file_def sample_data_def sample_vec_def wf_raw_def mut_buf_def
        as_slice_Raw as_uninit_slice_def raw_capacity_def)
qed

end
