(* ===== verification/Net_Socket.thy ===== *)
theory Net_Socket
  imports Fs_File
begin

text \<open>
  Sockets, \<open>src/net\<close>: the common \<open>Socket\<close>, the resolution helpers and the TCP, UDP and Unix domain
  wrappers, over the operations of the unix drivers.

  The system calls of the socket library and submitting an operation and awaiting its future are
  parameters, as for files. \<open>RecvFrom\<close> and \<open>SendTo\<close> are different structs on io_uring and kqueue;
  their parameter takes the arguments of \<open>new\<close> and gives what \<open>into_inner\<close> returns.
  \<open>TcpStream\<close>, \<open>TcpListener\<close>, \<open>UdpSocket\<close>, \<open>UnixStream\<close> and \<open>UnixListener\<close> have a socket as their only
  field and are identified with it.
\<close>

subsection \<open>Sockets\<close>

datatype sock_type = STREAM | DGRAM

datatype protocol = TCP | UDP

datatype shutdown_how = ShutRead | ShutWrite | ShutBoth

record ('raw, 'f, 'fd, 'w) socket_env =
  net_new :: "nat \<Rightarrow> sock_type \<Rightarrow> protocol option \<Rightarrow> 'w \<Rightarrow> 'raw io_result \<times> 'w"
  net_set_nonblocking :: "('raw \<Rightarrow> 'w \<Rightarrow> unit io_result \<times> 'w) option"
  net_bind :: "'raw \<Rightarrow> sock_addr \<Rightarrow> 'w \<Rightarrow> unit io_result \<times> 'w"
  net_listen :: "'raw \<Rightarrow> i32 \<Rightarrow> 'w \<Rightarrow> unit io_result \<times> 'w"
  net_connect :: "'raw \<Rightarrow> sock_addr \<Rightarrow> 'w \<Rightarrow> unit io_result \<times> 'w"
  net_shutdown :: "'raw \<Rightarrow> shutdown_how \<Rightarrow> 'w \<Rightarrow> unit io_result \<times> 'w"
  net_peer_addr :: "'raw \<Rightarrow> 'w \<Rightarrow> sock_addr io_result \<times> 'w"
  net_local_addr :: "'raw \<Rightarrow> 'w \<Rightarrow> sock_addr io_result \<times> 'w"
  net_dup :: "'raw \<Rightarrow> 'w \<Rightarrow> 'raw io_result \<times> 'w"
  net_from_fd :: "i32 \<Rightarrow> 'raw"
  net_domain :: "sock_addr \<Rightarrow> nat"
  net_unix :: nat
  net_storage :: u32
  net_attach :: "'raw \<Rightarrow> 'w \<Rightarrow> 'f io_result \<times> 'w"
  net_into :: "'f \<Rightarrow> 'fd"
  await_connect :: "'fd connect_op \<Rightarrow> 'w \<Rightarrow> (usize io_result \<times> 'fd connect_op) \<times> 'w"
  await_accept :: "'fd accept_op \<Rightarrow> 'w \<Rightarrow> (usize io_result \<times> 'fd accept_op) \<times> 'w"
  accept_nonblocking :: "(i32 \<Rightarrow> unit io_result) option"
  await_recv :: "'fd recv_op \<Rightarrow> 'w \<Rightarrow> (usize io_result \<times> 'fd recv_op) \<times> 'w"
  await_recv_vectored :: "'fd recv_vectored_op \<Rightarrow> 'w \<Rightarrow> (usize io_result \<times> 'fd recv_vectored_op) \<times> 'w"
  await_send :: "'fd send_op \<Rightarrow> 'w \<Rightarrow> (usize io_result \<times> 'fd send_op) \<times> 'w"
  await_send_vectored :: "'fd send_vectored_op \<Rightarrow> 'w \<Rightarrow> (usize io_result \<times> 'fd send_vectored_op) \<times> 'w"
  await_recv_from :: "'fd \<Rightarrow> iobuf \<Rightarrow> 'w \<Rightarrow> (usize io_result \<times> (iobuf \<times> sock_addr)) \<times> 'w"
  await_recv_msg :: "'fd recv_msg_op \<Rightarrow> 'w \<Rightarrow> (usize io_result \<times> 'fd recv_msg_op) \<times> 'w"
  await_send_to :: "'fd \<Rightarrow> iobuf \<Rightarrow> sock_addr \<Rightarrow> 'w \<Rightarrow> (usize io_result \<times> iobuf) \<times> 'w"
  await_send_msg :: "'fd send_msg_op \<Rightarrow> 'w \<Rightarrow> (usize io_result \<times> 'fd send_msg_op) \<times> 'w"

record ('raw, 'f) socket =
  sock_raw :: 'raw
  sock_attacher :: "'f attacher"

definition from_socket2 :: "'raw \<Rightarrow> ('raw, 'f) socket" where
  "from_socket2 raw = \<lparr>sock_raw = raw, sock_attacher = attacher_new\<rparr>"

definition sock_attach ::
  "('raw, 'f, 'fd, 'w) socket_env \<Rightarrow> ('raw, 'f) socket \<Rightarrow> 'w \<Rightarrow> 'f io_result \<times> ('raw, 'f) socket \<times> 'w" where
  "sock_attach E s w =
     (let (r, at, w') = attacher_attach (net_attach E) (sock_raw s) (sock_attacher s) w
      in (r, s\<lparr>sock_attacher := at\<rparr>, w'))"

definition sock_try_clone ::
  "('raw, 'f, 'fd, 'w) socket_env \<Rightarrow> ('raw, 'f) socket \<Rightarrow> 'w \<Rightarrow> ('raw, 'f) socket io_result \<times> 'w" where
  "sock_try_clone E s w =
     (case net_dup E (sock_raw s) w of
        (Err e, w') \<Rightarrow> (Err e, w')
      | (Ok raw, w') \<Rightarrow> (Ok \<lparr>sock_raw = raw, sock_attacher = sock_attacher s\<rparr>, w'))"

definition sock_peer_addr ::
  "('raw, 'f, 'fd, 'w) socket_env \<Rightarrow> ('raw, 'f) socket \<Rightarrow> 'w \<Rightarrow> sock_addr io_result \<times> 'w" where
  "sock_peer_addr E s w = net_peer_addr E (sock_raw s) w"

definition sock_local_addr ::
  "('raw, 'f, 'fd, 'w) socket_env \<Rightarrow> ('raw, 'f) socket \<Rightarrow> 'w \<Rightarrow> sock_addr io_result \<times> 'w" where
  "sock_local_addr E s w = net_local_addr E (sock_raw s) w"

definition sock_new ::
  "('raw, 'f, 'fd, 'w) socket_env \<Rightarrow> nat \<Rightarrow> sock_type \<Rightarrow> protocol option \<Rightarrow> 'w \<Rightarrow> ('raw, 'f) socket io_result \<times> 'w" where
  "sock_new E domain ty proto w =
     (case net_new E domain ty proto w of
        (Err e, w') \<Rightarrow> (Err e, w')
      | (Ok raw, w1) \<Rightarrow>
          (case (case net_set_nonblocking E of None \<Rightarrow> (Ok (), w1) | Some set_nb \<Rightarrow> set_nb raw w1) of
             (Err e, w') \<Rightarrow> (Err e, w')
           | (Ok _, w') \<Rightarrow> (Ok (from_socket2 raw), w')))"

definition sock_bind ::
  "('raw, 'f, 'fd, 'w) socket_env \<Rightarrow> sock_addr \<Rightarrow> sock_type \<Rightarrow> protocol option \<Rightarrow> 'w \<Rightarrow> ('raw, 'f) socket io_result \<times> 'w" where
  "sock_bind E addr ty proto w =
     (case sock_new E (net_domain E addr) ty proto w of
        (Err e, w') \<Rightarrow> (Err e, w')
      | (Ok s, w1) \<Rightarrow>
          (case net_bind E (sock_raw s) addr w1 of
             (Err e, w') \<Rightarrow> (Err e, w')
           | (Ok _, w') \<Rightarrow> (Ok s, w')))"

definition sock_listen ::
  "('raw, 'f, 'fd, 'w) socket_env \<Rightarrow> ('raw, 'f) socket \<Rightarrow> i32 \<Rightarrow> 'w \<Rightarrow> unit io_result \<times> 'w" where
  "sock_listen E s backlog w = net_listen E (sock_raw s) backlog w"

definition sock_shutdown ::
  "('raw, 'f, 'fd, 'w) socket_env \<Rightarrow> ('raw, 'f) socket \<Rightarrow> shutdown_how \<Rightarrow> 'w \<Rightarrow> unit io_result \<times> 'w" where
  "sock_shutdown E s how w = net_shutdown E (sock_raw s) how w"

definition sock_connect ::
  "('raw, 'f, 'fd, 'w) socket_env \<Rightarrow> ('raw, 'f) socket \<Rightarrow> sock_addr \<Rightarrow> 'w \<Rightarrow> unit io_result \<times> 'w" where
  "sock_connect E s addr w = net_connect E (sock_raw s) addr w"

definition sock_connect_async ::
  "('raw, 'f, 'fd, 'w) socket_env \<Rightarrow> ('raw, 'f) socket \<Rightarrow> sock_addr \<Rightarrow> 'w \<Rightarrow> unit io_result \<times> ('raw, 'f) socket \<times> 'w" where
  "sock_connect_async E s addr w =
     (case sock_attach E s w of
        (Err e, s', w') \<Rightarrow> (Err e, s', w')
      | (Ok fd, s', w1) \<Rightarrow>
          (let ((res, op), w') = await_connect E (connect_new (net_into E) fd addr) w1
           in (connect_on_connect op res, s', w')))"

definition sock_accept ::
  "('raw, 'f, 'fd, 'w) socket_env \<Rightarrow> ('raw, 'f) socket \<Rightarrow> 'w \<Rightarrow>
   (('raw, 'f) socket \<times> sock_addr) io_result \<times> ('raw, 'f) socket \<times> 'w" where
  "sock_accept E s w =
     (case sock_attach E s w of
        (Err e, s', w') \<Rightarrow> (Err e, s', w')
      | (Ok fd, s', w1) \<Rightarrow>
          (let ((res, op), w') = await_accept E (accept_new (net_storage E) (net_into E) fd) w1
           in case fst (accept_on_accept (accept_nonblocking E) res op) of
                Err e \<Rightarrow> (Err e, s', w')
              | Ok (accept_sock, addr) \<Rightarrow> (Ok (from_socket2 (net_from_fd E accept_sock), addr), s', w')))"

subsection \<open>Receiving and sending\<close>

type_synonym ('r, 'b, 'raw, 'f, 'w) sock_result =
  "(('r io_result \<times> 'b) \<times> ('raw, 'f) socket \<times> 'w) option"

definition sock_recv ::
  "('raw, 'f, 'fd, 'w) socket_env \<Rightarrow> ('raw, 'f) socket \<Rightarrow> iobuf \<Rightarrow> 'w \<Rightarrow> (usize, iobuf, 'raw, 'f, 'w) sock_result" where
  "sock_recv E s buffer w =
     (case sock_attach E s w of
        (Err e, s', w') \<Rightarrow> Some ((Err e, buffer), s', w')
      | (Ok fd, s', w1) \<Rightarrow>
          (let (res, w') = await_recv E (recv_new (net_into E) fd buffer) w1
           in map_option (\<lambda>r. (r, s', w'))
                (update_buffer_len set_buf_init (buf_result_into_inner recv_into_inner res))))"

partial_function (option) recv_exact_loop ::
  "('raw, 'f, 'fd, 'w) socket_env \<Rightarrow> nat \<Rightarrow> nat \<Rightarrow> iobuf \<Rightarrow> ('raw, 'f) socket \<Rightarrow> 'w \<Rightarrow>
   (nat, iobuf, 'raw, 'f, 'w) sock_result option" where
  "recv_exact_loop E need total_read buffer s w =
     (if total_read < need then
        (case sock_recv E s buffer w of
           None \<Rightarrow> Some None
         | Some ((Err e, buffer'), s', w') \<Rightarrow> Some (Some ((Err e, buffer'), s', w'))
         | Some ((Ok read, buffer'), s', w') \<Rightarrow>
             if checked_add total_read (unat read) = None then Some None
             else recv_exact_loop E need (total_read + unat read) buffer' s' w')
      else Some (Some ((Ok total_read, buffer), s, w)))"

definition sock_recv_exact ::
  "('raw, 'f, 'fd, 'w) socket_env \<Rightarrow> ('raw, 'f) socket \<Rightarrow> iobuf \<Rightarrow> 'w \<Rightarrow> (nat, iobuf, 'raw, 'f, 'w) sock_result option" where
  "sock_recv_exact E s buffer w =
     (case as_uninit_slice buffer of
        None \<Rightarrow> Some None
      | Some (_, need) \<Rightarrow>
          map_option (map_option (\<lambda>((res, buffer'), s', w').
              (((case res of
                   Err e \<Rightarrow> Err e
                 | Ok total_read \<Rightarrow> if total_read < need then Err unexpected_eof else Ok total_read),
                buffer'), s', w')))
            (recv_exact_loop E need 0 buffer s w))"

definition sock_recv_vectored ::
  "('raw, 'f, 'fd, 'w) socket_env \<Rightarrow> ('raw, 'f) socket \<Rightarrow> vectored_buf_wrapper \<Rightarrow> 'w \<Rightarrow>
   (usize, slices_buf, 'raw, 'f, 'w) sock_result" where
  "sock_recv_vectored E s buffer w =
     (case sock_attach E s w of
        (Err e, s', w') \<Rightarrow> Some ((Err e, Vectored buffer), s', w')
      | (Ok fd, s', w1) \<Rightarrow>
          (let (res, w') = await_recv_vectored E (recv_vectored_new (net_into E) fd (Vectored buffer)) w1
           in map_option (\<lambda>r. (r, s', w'))
                (update_buffer_len slices_set_init (buf_result_into_inner recv_vectored_into_inner res))))"

definition sock_send ::
  "('raw, 'f, 'fd, 'w) socket_env \<Rightarrow> ('raw, 'f) socket \<Rightarrow> iobuf \<Rightarrow> 'w \<Rightarrow>
   (usize io_result \<times> iobuf) \<times> ('raw, 'f) socket \<times> 'w" where
  "sock_send E s buffer w =
     (case sock_attach E s w of
        (Err e, s', w') \<Rightarrow> ((Err e, buffer), s', w')
      | (Ok fd, s', w1) \<Rightarrow>
          (let (res, w') = await_send E (send_new (net_into E) fd buffer) w1
           in (buf_result_into_inner send_into_inner res, s', w')))"

partial_function (option) send_all_loop ::
  "('raw, 'f, 'fd, 'w) socket_env \<Rightarrow> nat \<Rightarrow> nat \<Rightarrow> iobuf \<Rightarrow> ('raw, 'f) socket \<Rightarrow> 'w \<Rightarrow>
   (nat, iobuf, 'raw, 'f, 'w) sock_result option" where
  "send_all_loop E len total_written buffer s w =
     (if total_written < len then
        (case slice buffer (Included total_written) Unbounded of
           None \<Rightarrow> Some None
         | Some part \<Rightarrow>
             (case sock_send E s part w of
                ((Err e, part'), s', w') \<Rightarrow> Some (Some ((Err e, slice_into_inner part'), s', w'))
              | ((Ok written, part'), s', w') \<Rightarrow>
                  if checked_add total_written (unat written) = None then Some None
                  else send_all_loop E len (total_written + unat written) (slice_into_inner part') s' w'))
      else Some (Some ((Ok total_written, buffer), s, w)))"

definition sock_send_all ::
  "('raw, 'f, 'fd, 'w) socket_env \<Rightarrow> ('raw, 'f) socket \<Rightarrow> iobuf \<Rightarrow> 'w \<Rightarrow> (nat, iobuf, 'raw, 'f, 'w) sock_result option" where
  "sock_send_all E s buffer w =
     (case buf_len buffer of
        None \<Rightarrow> Some None
      | Some len \<Rightarrow> send_all_loop E len 0 buffer s w)"

definition sock_send_vectored ::
  "('raw, 'f, 'fd, 'w) socket_env \<Rightarrow> ('raw, 'f) socket \<Rightarrow> vectored_buf_wrapper \<Rightarrow> 'w \<Rightarrow>
   (usize io_result \<times> slices_buf) \<times> ('raw, 'f) socket \<times> 'w" where
  "sock_send_vectored E s buffer w =
     (case sock_attach E s w of
        (Err e, s', w') \<Rightarrow> ((Err e, Vectored buffer), s', w')
      | (Ok fd, s', w1) \<Rightarrow>
          (let (res, w') = await_send_vectored E (send_vectored_new (net_into E) fd (Vectored buffer)) w1
           in (buf_result_into_inner send_vectored_into_inner res, s', w')))"

definition sock_recv_from ::
  "('raw, 'f, 'fd, 'w) socket_env \<Rightarrow> ('raw, 'f) socket \<Rightarrow> iobuf \<Rightarrow> 'w \<Rightarrow>
   (usize \<times> sock_addr, iobuf, 'raw, 'f, 'w) sock_result" where
  "sock_recv_from E s buffer w =
     (case sock_attach E s w of
        (Err e, s', w') \<Rightarrow> Some ((Err e, buffer), s', w')
      | (Ok fd, s', w1) \<Rightarrow>
          (let (res, w') = await_recv_from E (net_into E fd) buffer w1
           in map_option (\<lambda>r. (r, s', w')) (update_buffer_len_addr set_buf_init (map_addr res))))"

definition sock_recv_from_vectored ::
  "('raw, 'f, 'fd, 'w) socket_env \<Rightarrow> ('raw, 'f) socket \<Rightarrow> vectored_buf_wrapper \<Rightarrow> 'w \<Rightarrow>
   (usize \<times> sock_addr, slices_buf, 'raw, 'f, 'w) sock_result" where
  "sock_recv_from_vectored E s buffer w =
     (case sock_attach E s w of
        (Err e, s', w') \<Rightarrow> Some ((Err e, Vectored buffer), s', w')
      | (Ok fd, s', w1) \<Rightarrow>
          (let (res, w') = await_recv_msg E (recv_msg_new (net_storage E) (net_into E) fd (Vectored buffer)) w1
           in map_option (\<lambda>r. (r, s', w'))
                (update_buffer_len_addr slices_set_init (map_addr (buf_result_into_inner recv_msg_into_inner res)))))"

definition sock_send_to ::
  "('raw, 'f, 'fd, 'w) socket_env \<Rightarrow> ('raw, 'f) socket \<Rightarrow> iobuf \<Rightarrow> sock_addr \<Rightarrow> 'w \<Rightarrow>
   (usize io_result \<times> iobuf) \<times> ('raw, 'f) socket \<times> 'w" where
  "sock_send_to E s buffer addr w =
     (case sock_attach E s w of
        (Err e, s', w') \<Rightarrow> ((Err e, buffer), s', w')
      | (Ok fd, s', w1) \<Rightarrow> (let (res, w') = await_send_to E (net_into E fd) buffer addr w1 in (res, s', w')))"

text \<open>The buffer, a \<open>VectoredBufWrapper\<close>, goes from one attempt to the next and is kept as \<open>Vectored\<close>.\<close>

definition sock_send_to_vectored ::
  "('raw, 'f, 'fd, 'w) socket_env \<Rightarrow> ('raw, 'f) socket \<Rightarrow> slices_buf \<Rightarrow> sock_addr \<Rightarrow> 'w \<Rightarrow>
   (usize io_result \<times> slices_buf) \<times> ('raw, 'f) socket \<times> 'w" where
  "sock_send_to_vectored E s buffer addr w =
     (case sock_attach E s w of
        (Err e, s', w') \<Rightarrow> ((Err e, buffer), s', w')
      | (Ok fd, s', w1) \<Rightarrow>
          (let (res, w') = await_send_msg E (send_msg_new (net_into E) fd buffer addr) w1
           in (buf_result_into_inner send_msg_into_inner res, s', w')))"

subsection \<open>Trying the resolved addresses\<close>

text \<open>
  \<open>to_sock_addrs\<close> resolves through the standard library; its result is an argument. The callback
  of \<open>each_addr_async\<close> is awaited before the next one is called, so that both functions are the
  same loop.
\<close>

definition could_not_resolve :: io_error where
  "could_not_resolve = Custom InvalidInput ''could not resolve to any addresses''"

fun each_addr_loop ::
  "('addr \<Rightarrow> 'w \<Rightarrow> 't io_result \<times> 'w) \<Rightarrow> io_error option \<Rightarrow> 'addr list \<Rightarrow> 'w \<Rightarrow> 't io_result \<times> 'w" where
  "each_addr_loop f last_err [] w = (Err (case last_err of Some e \<Rightarrow> e | None \<Rightarrow> could_not_resolve), w)"
| "each_addr_loop f last_err (addr # addrs) w =
     (case f addr w of
        (Ok l, w') \<Rightarrow> (Ok l, w')
      | (Err e, w') \<Rightarrow> each_addr_loop f (Some e) addrs w')"

definition each_addr ::
  "'addr list io_result \<Rightarrow> ('addr \<Rightarrow> 'w \<Rightarrow> 't io_result \<times> 'w) \<Rightarrow> 'w \<Rightarrow> 't io_result \<times> 'w" where
  "each_addr addr f w =
     (case addr of Err e \<Rightarrow> (Err e, w) | Ok addrs \<Rightarrow> each_addr_loop f None addrs w)"

definition each_addr_async ::
  "'addr list io_result \<Rightarrow> ('addr \<Rightarrow> 'w \<Rightarrow> 't io_result \<times> 'w) \<Rightarrow> 'w \<Rightarrow> 't io_result \<times> 'w" where
  "each_addr_async addr f w =
     (case addr of Err e \<Rightarrow> (Err e, w) | Ok addrs \<Rightarrow> each_addr_loop f None addrs w)"

fun each_addr_buf_loop ::
  "('addr \<Rightarrow> 'b \<Rightarrow> 'w \<Rightarrow> ('t io_result \<times> 'b) \<times> 'w) \<Rightarrow> io_error option \<Rightarrow> 'addr list \<Rightarrow> 'b \<Rightarrow> 'w \<Rightarrow> ('t io_result \<times> 'b) \<times> 'w" where
  "each_addr_buf_loop f last_err [] buffer w =
     ((Err (case last_err of Some e \<Rightarrow> e | None \<Rightarrow> could_not_resolve), buffer), w)"
| "each_addr_buf_loop f last_err (addr # addrs) buffer w =
     (case f addr buffer w of
        ((Ok l, buffer'), w') \<Rightarrow> ((Ok l, buffer'), w')
      | ((Err e, buffer'), w') \<Rightarrow> each_addr_buf_loop f (Some e) addrs buffer' w')"

definition each_addr_async_buf ::
  "'addr list io_result \<Rightarrow> 'b \<Rightarrow> ('addr \<Rightarrow> 'b \<Rightarrow> 'w \<Rightarrow> ('t io_result \<times> 'b) \<times> 'w) \<Rightarrow> 'w \<Rightarrow> ('t io_result \<times> 'b) \<times> 'w" where
  "each_addr_async_buf addr buffer f w =
     (case addr of
        Ok addrs \<Rightarrow> each_addr_buf_loop f None addrs buffer w
      | Err e \<Rightarrow> ((Err e, buffer), w))"

subsection \<open>TCP, UDP and Unix domain sockets\<close>

definition bind_and_listen ::
  "('raw, 'f, 'fd, 'w) socket_env \<Rightarrow> protocol option \<Rightarrow> i32 \<Rightarrow> sock_addr \<Rightarrow> 'w \<Rightarrow> ('raw, 'f) socket io_result \<times> 'w" where
  "bind_and_listen E proto backlog addr w =
     (case sock_bind E addr STREAM proto w of
        (Err e, w') \<Rightarrow> (Err e, w')
      | (Ok s, w1) \<Rightarrow>
          (case sock_listen E s backlog w1 of
             (Err e, w') \<Rightarrow> (Err e, w')
           | (Ok _, w') \<Rightarrow> (Ok s, w')))"

definition tcp_listener_bind ::
  "('raw, 'f, 'fd, 'w) socket_env \<Rightarrow> sock_addr list io_result \<Rightarrow> 'w \<Rightarrow> ('raw, 'f) socket io_result \<times> 'w" where
  "tcp_listener_bind E addr w = each_addr addr (bind_and_listen E (Some TCP) 128) w"

definition unix_listener_bind_addr ::
  "('raw, 'f, 'fd, 'w) socket_env \<Rightarrow> sock_addr list io_result \<Rightarrow> 'w \<Rightarrow> ('raw, 'f) socket io_result \<times> 'w" where
  "unix_listener_bind_addr E addr w = each_addr addr (bind_and_listen E None 1024) w"

text \<open>\<open>TcpStream::connect\<close> on the unix platforms, where the socket is not bound first.\<close>

definition tcp_stream_connect ::
  "('raw, 'f, 'fd, 'w) socket_env \<Rightarrow> sock_addr list io_result \<Rightarrow> 'w \<Rightarrow> ('raw, 'f) socket io_result \<times> 'w" where
  "tcp_stream_connect E addr w =
     each_addr_async addr (\<lambda>addr w.
       case sock_new E (net_domain E addr) STREAM (Some TCP) w of
         (Err e, w') \<Rightarrow> (Err e, w')
       | (Ok s, w1) \<Rightarrow>
           (case sock_connect_async E s addr w1 of
              (Err e, s', w') \<Rightarrow> (Err e, w')
            | (Ok _, s', w') \<Rightarrow> (Ok s', w'))) w"

definition unix_stream_connect_addr ::
  "('raw, 'f, 'fd, 'w) socket_env \<Rightarrow> sock_addr list io_result \<Rightarrow> 'w \<Rightarrow> ('raw, 'f) socket io_result \<times> 'w" where
  "unix_stream_connect_addr E addr w =
     each_addr addr (\<lambda>addr w.
       case sock_new E (net_unix E) STREAM None w of
         (Err e, w') \<Rightarrow> (Err e, w')
       | (Ok s, w1) \<Rightarrow>
           (case sock_connect E s addr w1 of
              (Err e, w') \<Rightarrow> (Err e, w')
            | (Ok _, w') \<Rightarrow> (Ok s, w'))) w"

definition udp_bind ::
  "('raw, 'f, 'fd, 'w) socket_env \<Rightarrow> sock_addr list io_result \<Rightarrow> 'w \<Rightarrow> ('raw, 'f) socket io_result \<times> 'w" where
  "udp_bind E addr w = each_addr addr (\<lambda>addr. sock_bind E addr DGRAM (Some UDP)) w"

definition udp_connect ::
  "('raw, 'f, 'fd, 'w) socket_env \<Rightarrow> ('raw, 'f) socket \<Rightarrow> sock_addr list io_result \<Rightarrow> 'w \<Rightarrow> unit io_result \<times> 'w" where
  "udp_connect E s addr w = each_addr addr (sock_connect E s) w"

text \<open>The socket is shared by the calls: its attacher is part of the threaded state.\<close>

definition udp_send_to ::
  "('raw, 'f, 'fd, 'w) socket_env \<Rightarrow> ('raw, 'f) socket \<Rightarrow> iobuf \<Rightarrow> sock_addr list io_result \<Rightarrow> 'w \<Rightarrow>
   (usize io_result \<times> iobuf) \<times> ('raw, 'f) socket \<times> 'w" where
  "udp_send_to E s buffer addr w =
     each_addr_async_buf addr buffer (\<lambda>addr buffer (s, w). sock_send_to E s buffer addr w) (s, w)"

subsection \<open>The loops on a stream\<close>

text \<open>
  A stream socket: \<open>incoming\<close> are the bytes that the peer sends before it closes its side. A
  receive takes some of them, none only without room or after the last byte; a send of at least
  one byte appends at least one to what was \<open>sent\<close>.
\<close>

definition receives_stream :: "('raw, 'f, 'fd, 'w) socket_env \<Rightarrow> ('fd \<Rightarrow> 'w \<Rightarrow> u8 list) \<Rightarrow> bool" where
  "receives_stream E incoming \<longleftrightarrow>
     (\<forall>op w a k. as_uninit_slice (recv_buffer op) = Some (a, k) \<longrightarrow>
        (\<exists>m w'. let rest = incoming (recv_fd op) w in
           await_recv E op w =
             ((Ok (of_nat m), op\<lparr>recv_buffer := store_bytes a (take m rest) (recv_buffer op)\<rparr>), w') \<and>
           m \<le> k \<and> m \<le> length rest \<and> m < 2 ^ 64 \<and> (m = 0 \<longrightarrow> k = 0 \<or> rest = []) \<and>
           incoming (recv_fd op) w' = drop m rest))"

definition sends_stream :: "('raw, 'f, 'fd, 'w) socket_env \<Rightarrow> ('fd \<Rightarrow> 'w \<Rightarrow> u8 list) \<Rightarrow> bool" where
  "sends_stream E sent \<longleftrightarrow>
     (\<forall>op w ds. as_slice (send_buffer op) = Some ds \<longrightarrow> ds \<noteq> [] \<longrightarrow>
        (\<exists>m w'. await_send E op w = ((Ok (of_nat m), op), w') \<and>
           0 < m \<and> m \<le> length ds \<and> m < 2 ^ 64 \<and>
           sent (send_fd op) w' = sent (send_fd op) w @ take m ds))"

lemma attached_sock:
  "once (sock_attacher s) = Some fd \<Longrightarrow> sock_attach E s w = (Ok fd, s, w)"
  by (simp add: sock_attach_def attacher_attach_def)

lemma receives_streamD:
  assumes "receives_stream E incoming" "as_uninit_slice (recv_buffer op) = Some (a, k)"
  shows "\<exists>m w'. let rest = incoming (recv_fd op) w in
    await_recv E op w =
      ((Ok (of_nat m), op\<lparr>recv_buffer := store_bytes a (take m rest) (recv_buffer op)\<rparr>), w') \<and>
    m \<le> k \<and> m \<le> length rest \<and> m < 2 ^ 64 \<and> (m = 0 \<longrightarrow> k = 0 \<or> rest = []) \<and>
    incoming (recv_fd op) w' = drop m rest"
  using assms unfolding receives_stream_def by (elim allE impE)

lemma sock_recv_step:
  assumes "receives_stream E incoming" "once (sock_attacher s) = Some fd"
    and b: "wf_buf b" "mut_buf b" "geometry b p n c" "as_slice b = Some old"
  obtains m b' w' where "sock_recv E s b w = Some ((Ok (of_nat m), b'), s, w')"
    "m \<le> c - n" "m \<le> length (incoming (net_into E fd) w)" "m < 2 ^ 64"
    "m = 0 \<Longrightarrow> c = n \<or> incoming (net_into E fd) w = []"
    "wf_buf b'" "mut_buf b'" "geometry b' p (n + m) c"
    "as_slice b' = Some (old @ take m (incoming (net_into E fd) w))"
    "incoming (net_into E fd) w' = drop m (incoming (net_into E fd) w)"
proof -
  let ?op = "recv_new (net_into E) fd b"
  let ?rest = "incoming (net_into E fd) w"
  have u: "as_uninit_slice (recv_buffer ?op) = Some (p + n, c - n)"
    using geometry_uninit [OF b(3)] by (simp add: recv_new_def)
  obtain m w' where m: "await_recv E ?op w =
        ((Ok (of_nat m), ?op\<lparr>recv_buffer := store_bytes (p + n) (take m ?rest) b\<rparr>), w')"
      "m \<le> c - n" "m \<le> length ?rest" "m < 2 ^ 64" "m = 0 \<longrightarrow> c - n = 0 \<or> ?rest = []"
      "incoming (net_into E fd) w' = drop m ?rest"
    using receives_streamD [OF assms(1) u, of w] by (auto simp: recv_new_def Let_def)
  obtain b' where b': "update_buffer_len set_buf_init (Ok (of_nat m), store_bytes (p + n) (take m ?rest) b) =
        Some (Ok (of_nat m), b')"
      "wf_buf b'" "mut_buf b'" "geometry b' p (n + m) c" "as_slice b' = Some (old @ take m ?rest)"
    by (rule transfer_appends [OF b m(2-4)], rule that)
  have "sock_recv E s b w = Some ((Ok (of_nat m), b'), s, w')"
    using m(1) b'(1)
    by (simp add: sock_recv_def attached_sock [OF assms(2)] buf_result_into_inner_def recv_into_inner_def)
  moreover have "m = 0 \<Longrightarrow> c = n \<or> ?rest = []" using m(5) b(3) by (auto simp: geometry_def)
  ultimately show thesis using m(2,3,4,6) b' by (intro that [of m b' w']) simp_all
qed

lemma recv_exact_loop_fills:
  assumes "receives_stream E incoming" "once (sock_attacher s) = Some fd"
    and "wf_buf b" "mut_buf b" "geometry b p (n + t) (n + need)"
    and "incoming (net_into E fd) w = drop t C" "as_slice b = Some (old @ take t C)"
    and "t \<le> need" "need \<le> length C" "need < 2 ^ 64"
  shows "\<exists>b' w'. recv_exact_loop E need t b s w = Some (Some ((Ok need, b'), s, w')) \<and>
    wf_buf b' \<and> as_slice b' = Some (old @ take need C) \<and> incoming (net_into E fd) w' = drop need C"
  using assms(3-8)
proof (induction "need - t" arbitrary: t b w rule: less_induct)
  case less
  show ?case
  proof (cases "t < need")
    case False
    then have "t = need" using less.prems(6) by simp
    moreover have "recv_exact_loop E need need b s w = Some (Some ((Ok need, b), s, w))"
      by (subst recv_exact_loop.simps) simp
    ultimately show ?thesis using less.prems(1,4,5) by (intro exI [of _ b] exI [of _ w]) simp
  next
    case True
    obtain m b' w' where m: "sock_recv E s b w = Some ((Ok (of_nat m), b'), s, w')"
        "m \<le> n + need - (n + t)" "m < 2 ^ 64"
        "m = 0 \<Longrightarrow> n + need = n + t \<or> drop t C = []"
        "wf_buf b'" "mut_buf b'" "geometry b' p (n + t + m) (n + need)"
        "as_slice b' = Some ((old @ take t C) @ take m (drop t C))"
        "incoming (net_into E fd) w' = drop m (drop t C)"
      by (rule sock_recv_step [OF assms(1,2) less.prems(1-3,5), where w = w, unfolded less.prems(4)], rule that)
    have "0 < m" using m(4) True assms(9) by (cases m) auto
    have "checked_add t m \<noteq> None" "unat (of_nat m :: usize) = m"
      using m(2,3) True assms(10) by (simp_all add: checked_add_def)
    then have "recv_exact_loop E need t b s w = recv_exact_loop E need (t + m) b' s w'"
      using True m(1) by (subst recv_exact_loop.simps) auto
    moreover have "\<exists>b'' w''. recv_exact_loop E need (t + m) b' s w' = Some (Some ((Ok need, b''), s, w'')) \<and>
      wf_buf b'' \<and> as_slice b'' = Some (old @ take need C) \<and> incoming (net_into E fd) w'' = drop need C"
    proof (rule less.hyps [OF _ m(5,6)])
      show "need - (t + m) < need - t" using \<open>0 < m\<close> True by simp
      show "geometry b' p (n + (t + m)) (n + need)" using m(7) by (simp add: add.assoc)
      show "incoming (net_into E fd) w' = drop (t + m) C" using m(9) by (simp add: add.commute)
      show "as_slice b' = Some (old @ take (t + m) C)" using m(8) by (simp add: take_add)
    qed (use m(2) True in simp)
    ultimately show ?thesis by simp
  qed
qed

lemma recv_exact_loop_stuck:
  fixes E :: "('raw, 'f, 'fd, 'w) socket_env" and s :: "('raw, 'f) socket"
  assumes "recv_exact_loop E need t b s w = Some r"
  shows "receives_stream E incoming \<longrightarrow> once (sock_attacher s) = Some fd \<longrightarrow> wf_buf b \<longrightarrow> mut_buf b \<longrightarrow>
    geometry b p (n + t) (n + need) \<longrightarrow> t + length (incoming (net_into E fd) w) < need \<longrightarrow> need < 2 ^ 64 \<longrightarrow> False"
proof (rule recv_exact_loop.raw_induct [OF _ assms], intro impI)
  fix self need t b and w :: 'w and r :: "(nat, iobuf, 'raw, 'f, 'w) sock_result"
    and E :: "('raw, 'f, 'fd, 'w) socket_env" and s :: "('raw, 'f) socket"
  assume ih: "\<And>(E :: ('raw, 'f, 'fd, 'w) socket_env) need t b (s :: ('raw, 'f) socket) (w :: 'w)
        (r :: (nat, iobuf, 'raw, 'f, 'w) sock_result). self E need t b s w = Some r \<Longrightarrow>
      receives_stream E incoming \<longrightarrow> once (sock_attacher s) = Some fd \<longrightarrow> wf_buf b \<longrightarrow> mut_buf b \<longrightarrow>
      geometry b p (n + t) (n + need) \<longrightarrow> t + length (incoming (net_into E fd) w) < need \<longrightarrow> need < 2 ^ 64 \<longrightarrow> False"
    and pre: "receives_stream E incoming" "once (sock_attacher s) = Some fd" "wf_buf b" "mut_buf b"
      "geometry b p (n + t) (n + need)" "t + length (incoming (net_into E fd) w) < need" "need < 2 ^ 64"
  assume body: "(if t < need then
        (case sock_recv E s b w of
           None \<Rightarrow> Some None
         | Some ((Err e, buffer'), s', w') \<Rightarrow> Some (Some ((Err e, buffer'), s', w'))
         | Some ((Ok read, buffer'), s', w') \<Rightarrow>
             if checked_add t (unat read) = None then Some None
             else self E need (t + unat read) buffer' s' w')
      else Some (Some ((Ok t, b), s, w))) = Some r"
  obtain m b' w' where m: "sock_recv E s b w = Some ((Ok (of_nat m), b'), s, w')"
      "m \<le> n + need - (n + t)" "m \<le> length (incoming (net_into E fd) w)" "m < 2 ^ 64"
      "wf_buf b'" "mut_buf b'" "geometry b' p (n + t + m) (n + need)"
      "incoming (net_into E fd) w' = drop m (incoming (net_into E fd) w)"
    by (rule sock_recv_step [OF pre(1-5) geometry_as_slice [OF pre(5)], where w = w], rule that)
  have "checked_add t m \<noteq> None" "unat (of_nat m :: usize) = m" "t < need"
    using m(2,4) pre(6,7) by (simp_all add: checked_add_def)
  then have "self E need (t + m) b' s w' = Some r" using body m(1) by auto
  moreover have "geometry b' p (n + (t + m)) (n + need)" using m(7) by (simp add: add.assoc)
  moreover have "t + m + length (incoming (net_into E fd) w') < need" using m(3,8) pre(6) by simp
  ultimately show False using ih pre(1,2,7) m(5,6) by blast
qed

lemma sock_recv_exact_filled:
  assumes "receives_stream E incoming" "once (sock_attacher s) = Some fd"
    and "wf_buf b" "mut_buf b" "as_slice b = Some old" "as_uninit_slice b = Some (a, need)"
    and "need \<le> length (incoming (net_into E fd) w)" "need < 2 ^ 64"
  shows "\<exists>b' w'. sock_recv_exact E s b w = Some (Some ((Ok need, b'), s, w')) \<and> wf_buf b' \<and>
    as_slice b' = Some (old @ take need (incoming (net_into E fd) w)) \<and>
    incoming (net_into E fd) w' = drop need (incoming (net_into E fd) w)"
proof -
  obtain p n c where g: "geometry b p n c" using wf_buf_geometry [OF assms(3)] by blast
  then have c: "c = n + need" using geometry_uninit [OF g] assms(6) by (auto simp: geometry_def)
  have "\<exists>b' w'. recv_exact_loop E need 0 b s w = Some (Some ((Ok need, b'), s, w')) \<and> wf_buf b' \<and>
    as_slice b' = Some (old @ take need (incoming (net_into E fd) w)) \<and>
    incoming (net_into E fd) w' = drop need (incoming (net_into E fd) w)"
    by (rule recv_exact_loop_fills [OF assms(1,2), where p = p and n = n]) (use assms g c in simp_all)
  then obtain b' w' where l: "recv_exact_loop E need 0 b s w = Some (Some ((Ok need, b'), s, w'))" "wf_buf b'"
      "as_slice b' = Some (old @ take need (incoming (net_into E fd) w))"
      "incoming (net_into E fd) w' = drop need (incoming (net_into E fd) w)"
    by blast
  have "sock_recv_exact E s b w = Some (Some ((Ok need, b'), s, w'))"
    using assms(6) by (simp add: sock_recv_exact_def l(1))
  then show ?thesis using l(2-4) by (intro exI [of _ b'] exI [of _ w']) simp
qed

text \<open>
  An exact receive on a stream ends when the peer sends enough: the buffer is filled with the
  next bytes of the stream, in order, and no byte beyond them is taken.
\<close>

theorem recv_exact_fills:
  assumes "receives_stream E incoming" "once (sock_attacher s) = Some fd"
    and "wf_buf b" "mut_buf b" "as_slice b = Some old" "as_uninit_slice b = Some (a, need)"
    and "need \<le> length (incoming (net_into E fd) w)" "need < 2 ^ 64"
  shows "\<exists>b' w'. sock_recv_exact E s b w = Some (Some ((Ok need, b'), s, w')) \<and> wf_buf b' \<and>
    as_slice b' = Some (old @ take need (incoming (net_into E fd) w)) \<and>
    incoming (net_into E fd) w' = drop need (incoming (net_into E fd) w)"
  by (rule sock_recv_exact_filled [OF assms])

text \<open>
  C37. An exact receive never returns when the peer closes the stream before the buffer is full: the
  loop does not look for a receive of 0 bytes, and its \<open>UnexpectedEof\<close> branch is never reached.
\<close>

theorem recv_exact_stuck_at_eof:
  assumes "receives_stream E incoming" "once (sock_attacher s) = Some fd"
    and "wf_buf b" "mut_buf b" "as_uninit_slice b = Some (a, need)"
    and "length (incoming (net_into E fd) w) < need" "need < 2 ^ 64"
  shows "sock_recv_exact E s b w = None"
proof -
  obtain p n c where g: "geometry b p n c" using wf_buf_geometry [OF assms(3)] by blast
  then have "c = n + need" using geometry_uninit [OF g] assms(5) by (auto simp: geometry_def)
  then have "recv_exact_loop E need 0 b s w \<noteq> Some r" for r
    using recv_exact_loop_stuck [of E need 0 b s w r incoming fd p n] assms g by auto
  then have "recv_exact_loop E need 0 b s w = None" by (meson not_None_eq)
  then show ?thesis using assms(5) by (simp add: sock_recv_exact_def)
qed

lemma sock_send_step:
  assumes "sends_stream E sent" "once (sock_attacher s) = Some fd" "as_slice b = Some ds" "ds \<noteq> []"
  obtains m w' where "sock_send E s b w = ((Ok (of_nat m), b), s, w')"
    "0 < m" "m \<le> length ds" "m < 2 ^ 64" "sent (net_into E fd) w' = sent (net_into E fd) w @ take m ds"
proof -
  let ?op = "send_new (net_into E) fd b"
  have "as_slice (send_buffer ?op) = Some ds" using assms(3) by (simp add: send_new_def)
  from assms(1) [unfolded sends_stream_def, rule_format, OF this assms(4), of w]
  obtain m w' where "await_send E ?op w = ((Ok (of_nat m), ?op), w')" "0 < m" "m \<le> length ds" "m < 2 ^ 64"
      "sent (net_into E fd) w' = sent (net_into E fd) w @ take m ds"
    by (auto simp: send_new_def)
  then show thesis
    by (intro that [of m w'])
      (simp_all add: sock_send_def attached_sock [OF assms(2)] buf_result_into_inner_def
        send_into_inner_def send_new_def)
qed

lemma send_all_loop_sends:
  assumes "sends_stream E sent" "once (sock_attacher s) = Some fd"
    and "wf_buf b" "as_slice b = Some ds" "length ds < 2 ^ 64"
    and "sent (net_into E fd) w = S @ take t ds" "t \<le> length ds"
  shows "\<exists>w'. send_all_loop E (length ds) t b s w = Some (Some ((Ok (length ds), b), s, w')) \<and>
    sent (net_into E fd) w' = S @ ds"
  using assms(6,7)
proof (induction "length ds - t" arbitrary: t w rule: less_induct)
  case less
  show ?case
  proof (cases "t < length ds")
    case False
    then have "t = length ds" using less.prems(2) by simp
    moreover have "send_all_loop E (length ds) (length ds) b s w = Some (Some ((Ok (length ds), b), s, w))"
      by (subst send_all_loop.simps) simp
    ultimately show ?thesis using less.prems(1) by simp
  next
    case True
    obtain c where c: "slice b (Included t) Unbounded = Some (Slice b t c)"
        "as_slice (Slice b t c) = Some (drop t ds)"
      by (rule slice_tail [OF assms(3,4) True], rule that)
    have ne: "drop t ds \<noteq> []" using True by simp
    obtain m w' where m: "sock_send E s (Slice b t c) w = ((Ok (of_nat m), Slice b t c), s, w')"
        "0 < m" "m \<le> length (drop t ds)" "m < 2 ^ 64"
        "sent (net_into E fd) w' = (S @ take t ds) @ take m (drop t ds)"
      by (rule sock_send_step [OF assms(1,2) c(2) ne, where w = w, unfolded less.prems(1)], rule that)
    have "checked_add t m \<noteq> None" "unat (of_nat m :: usize) = m"
      using m(3,4) assms(5) True by (simp_all add: checked_add_def)
    then have "send_all_loop E (length ds) t b s w = send_all_loop E (length ds) (t + m) b s w'"
      using True c(1) m(1) by (subst send_all_loop.simps) auto
    moreover have "sent (net_into E fd) w' = S @ take (t + m) ds" using m(5) by (simp add: take_add)
    ultimately show ?thesis using less.hyps [of "t + m" w'] m(2,3) True by simp
  qed
qed

lemma sock_send_all_sent:
  assumes "sends_stream E sent" "once (sock_attacher s) = Some fd"
    and "wf_buf b" "as_slice b = Some ds" "length ds < 2 ^ 64"
  shows "\<exists>w'. sock_send_all E s b w = Some (Some ((Ok (length ds), b), s, w')) \<and>
    sent (net_into E fd) w' = sent (net_into E fd) w @ ds"
  using send_all_loop_sends [OF assms, of w "sent (net_into E fd) w" 0] as_slice_buf_len [OF assms(3,4)]
  by (simp add: sock_send_all_def)

text \<open>
  \<open>send_all\<close> on a stream that accepts at least a byte at a time ends: the bytes of the buffer
  are sent exactly once and in order, and the buffer comes back unchanged.
\<close>

theorem send_all_sends:
  assumes "sends_stream E sent" "once (sock_attacher s) = Some fd"
    and "wf_buf b" "as_slice b = Some ds" "length ds < 2 ^ 64"
  shows "\<exists>w'. sock_send_all E s b w = Some (Some ((Ok (length ds), b), s, w')) \<and>
    sent (net_into E fd) w' = sent (net_into E fd) w @ ds"
  by (rule sock_send_all_sent [OF assms])

subsection \<open>The resolved addresses\<close>

text \<open>\<open>all_fail f addrs w es w'\<close>: the calls on the addresses fail in turn with the errors \<open>es\<close>.\<close>

inductive all_fail :: "('addr \<Rightarrow> 'w \<Rightarrow> 't io_result \<times> 'w) \<Rightarrow> 'addr list \<Rightarrow> 'w \<Rightarrow> io_error list \<Rightarrow> 'w \<Rightarrow> bool"
  for f where
  none: "all_fail f [] w [] w"
| next_fails: "f a w = (Err e, w1) \<Longrightarrow> all_fail f as w1 es w' \<Longrightarrow> all_fail f (a # as) w (e # es) w'"

lemma each_addr_loop_spec:
  "each_addr_loop f last_err addrs w = (r, w') \<Longrightarrow>
   (case r of
      Ok x \<Rightarrow> \<exists>tried a rest es w1. addrs = tried @ a # rest \<and> all_fail f tried w es w1 \<and> f a w1 = (Ok x, w')
    | Err e \<Rightarrow> \<exists>es. all_fail f addrs w es w' \<and>
        e = (if es = [] then case last_err of Some e \<Rightarrow> e | None \<Rightarrow> could_not_resolve else last es))"
proof (induction addrs arbitrary: last_err w)
  case Nil
  then have "r = Err (case last_err of Some e \<Rightarrow> e | None \<Rightarrow> could_not_resolve)" "w' = w" by simp_all
  then show ?case using all_fail.none [of f w] unfolding sum.case
    by (simp only: sum.case) (rule exI [of _ "[]"], simp)
next
  case (Cons a as)
  obtain r1 w1 where f: "f a w = (r1, w1)" by (cases "f a w")
  show ?case
  proof (cases r1)
    case (Inr x)
    then have r: "r = Ok x" "w' = w1" using Cons.prems f by simp_all
    have "a # as = [] @ a # as \<and> all_fail f [] w [] w \<and> f a w = (Ok x, w1)"
      using f Inr by (simp add: all_fail.none)
    then show ?thesis unfolding r sum.case by blast
  next
    case (Inl e)
    then have "each_addr_loop f (Some e) as w1 = (r, w')" using Cons.prems f by simp
    note ih = Cons.IH [OF this]
    have fe: "f a w = (Err e, w1)" using f Inl by simp
    show ?thesis
    proof (cases r)
      case (Inr x)
      then obtain tried b rest es w2 where "as = tried @ b # rest" "all_fail f tried w1 es w2" "f b w2 = (Ok x, w')"
        using ih by auto
      then have "a # as = (a # tried) @ b # rest \<and> all_fail f (a # tried) w (e # es) w2 \<and> f b w2 = (Ok x, w')"
        using all_fail.next_fails [where f = f, OF fe] by simp
      then show ?thesis unfolding Inr sum.case by blast
    next
      case (Inl e')
      then obtain es where "all_fail f as w1 es w'" "e' = (if es = [] then e else last es)"
        using ih by auto
      then have "all_fail f (a # as) w (e # es) w' \<and> e' = last (e # es)"
        using all_fail.next_fails [where f = f, OF fe] by simp
      then show ?thesis unfolding Inl sum.case by (intro exI [of _ "e # es"]) simp
    qed
  qed
qed

text \<open>
  \<open>TcpListener::bind\<close> tries the resolved addresses in order: the listener is that of the first
  address that can be bound and listened on, and the error is that of the last address when none
  can.
\<close>

theorem tcp_listener_bind_first:
  assumes "tcp_listener_bind E (Ok addrs) w = (r, w')"
  shows "case r of
      Ok x \<Rightarrow> \<exists>tried a rest es w1. addrs = tried @ a # rest \<and>
        all_fail (bind_and_listen E (Some TCP) 128) tried w es w1 \<and>
        bind_and_listen E (Some TCP) 128 a w1 = (Ok x, w')
    | Err e \<Rightarrow> \<exists>es. all_fail (bind_and_listen E (Some TCP) 128) addrs w es w' \<and>
        e = (if es = [] then could_not_resolve else last es)"
  by (rule each_addr_loop_spec [where last_err = None, unfolded option.case])
    (use assms in \<open>simp add: tcp_listener_bind_def each_addr_def\<close>)

lemma each_addr_buf_loop_keeps:
  assumes "\<And>addr w. snd (fst (f addr buffer w)) = buffer"
  shows "snd (fst (each_addr_buf_loop f last_err addrs buffer w)) = buffer"
proof (induction addrs arbitrary: last_err w)
  case (Cons a as)
  obtain r b w1 where "f a buffer w = ((r, b), w1)" by (metis surj_pair)
  then show ?case using assms [of a w] Cons by (cases r) auto
qed simp

text \<open>
  \<open>UdpSocket::send_to\<close> gives the caller its buffer back unchanged, whatever fails: the
  resolution, attaching, or sending to each of the addresses.
\<close>

theorem udp_send_to_returns_buffer:
  assumes "\<And>fd addr w. snd (fst (await_send_to E fd buffer addr w)) = buffer"
  shows "snd (fst (udp_send_to E s buffer addr w)) = buffer"
proof -
  have "snd (fst (sock_send_to E s buffer a w)) = buffer" for s a w
    using assms by (auto simp: sock_send_to_def split: sum.splits prod.splits) (metis fst_conv snd_conv)
  then show ?thesis
    unfolding udp_send_to_def each_addr_async_buf_def
    by (cases addr) (auto intro!: each_addr_buf_loop_keeps split: prod.splits)
qed

subsection \<open>A sample network\<close>

text \<open>The world holds the bytes that arrive and those sent; at most \<open>chunk\<close> move at a time.\<close>

definition sample_net :: "nat \<Rightarrow> (nat, nat, nat, u8 list \<times> u8 list) socket_env" where
  "sample_net chunk =
     \<lparr>net_new = (\<lambda>domain ty proto w. (Ok 3, w)),
      net_set_nonblocking = None,
      net_bind = (\<lambda>raw addr w. (if sa_len addr = 0 then Err (Os 98) else Ok (), w)),
      net_listen = (\<lambda>raw backlog w. (Ok (), w)),
      net_connect = (\<lambda>raw addr w. (Ok (), w)),
      net_shutdown = (\<lambda>raw how w. (Ok (), w)),
      net_peer_addr = (\<lambda>raw w. (Ok (zeroed_addr 16), w)),
      net_local_addr = (\<lambda>raw w. (Ok (zeroed_addr 16), w)),
      net_dup = (\<lambda>raw w. (Ok (Suc raw), w)),
      net_from_fd = unat,
      net_domain = (\<lambda>addr. 2),
      net_unix = 1,
      net_storage = 128,
      net_attach = (\<lambda>raw w. (Ok raw, w)),
      net_into = (\<lambda>fd. fd),
      await_connect = (\<lambda>op w. ((Ok 0, op), w)),
      await_accept = (\<lambda>op w. ((Ok 5, op), w)),
      accept_nonblocking = None,
      await_recv = (\<lambda>op w.
        case as_uninit_slice (recv_buffer op) of
          None \<Rightarrow> ((Ok 0, op), w)
        | Some (a, k) \<Rightarrow>
            (let ds = take (min chunk k) (fst w)
             in ((Ok (of_nat (length ds)), op\<lparr>recv_buffer := store_bytes a ds (recv_buffer op)\<rparr>),
                 (drop (length ds) (fst w), snd w)))),
      await_recv_vectored = (\<lambda>op w. ((Ok 0, op), w)),
      await_send = (\<lambda>op w.
        case as_slice (send_buffer op) of
          None \<Rightarrow> ((Ok 0, op), w)
        | Some ds \<Rightarrow> ((Ok (of_nat (min chunk (length ds))), op), (fst w, snd w @ take chunk ds))),
      await_send_vectored = (\<lambda>op w. ((Ok 0, op), w)),
      await_recv_from = (\<lambda>fd b w. ((Ok 0, b, zeroed_addr 128), w)),
      await_recv_msg = (\<lambda>op w. ((Ok 0, op), w)),
      await_send_to = (\<lambda>fd b addr w. ((Err (Os 111), b), w)),
      await_send_msg = (\<lambda>op w. ((Ok 0, op), w))\<rparr>"

lemma sample_net_receives:
  assumes "0 < chunk" "chunk < 2 ^ 64"
  shows "receives_stream (sample_net chunk) (\<lambda>fd. fst)"
  unfolding receives_stream_def Let_def
proof (intro allI impI)
  fix op :: "nat recv_op" and w :: "u8 list \<times> u8 list" and a k
  assume u: "as_uninit_slice (recv_buffer op) = Some (a, k)"
  let ?m = "min (min chunk k) (length (fst w))"
  have "take ?m (fst w) = take (min chunk k) (fst w)" by (simp add: min_def)
  moreover have "length (take (min chunk k) (fst w)) = ?m" by simp
  moreover have "?m < 2 ^ 64" "?m \<le> k" using assms(2) by simp_all
  moreover have "?m = 0 \<longrightarrow> k = 0 \<or> fst w = []" using assms(1) by (auto simp: min_def split: if_splits)
  ultimately show "\<exists>m w'. await_recv (sample_net chunk) op w =
        ((Ok (of_nat m), op\<lparr>recv_buffer := store_bytes a (take m (fst w)) (recv_buffer op)\<rparr>), w') \<and>
      m \<le> k \<and> m \<le> length (fst w) \<and> m < 2 ^ 64 \<and> (m = 0 \<longrightarrow> k = 0 \<or> fst w = []) \<and> fst w' = drop m (fst w)"
    using u by (intro exI [of _ ?m] exI [of _ "(drop ?m (fst w), snd w)"]) (simp add: sample_net_def Let_def)
qed

lemma sample_net_sends:
  assumes "0 < chunk" "chunk < 2 ^ 64"
  shows "sends_stream (sample_net chunk) (\<lambda>fd. snd)"
  unfolding sends_stream_def
proof (intro allI impI)
  fix op :: "nat send_op" and w :: "u8 list \<times> u8 list" and ds
  assume *: "as_slice (send_buffer op) = Some ds" "ds \<noteq> []"
  have "take (min chunk (length ds)) ds = take chunk ds" by (simp add: min_def)
  then show "\<exists>m w'. await_send (sample_net chunk) op w = ((Ok (of_nat m), op), w') \<and>
      0 < m \<and> m \<le> length ds \<and> m < 2 ^ 64 \<and> snd w' = snd w @ take m ds"
    using * assms by (intro exI [of _ "min chunk (length ds)"]) (simp add: sample_net_def)
qed

definition sample_socket :: "(nat, nat) socket" where
  "sample_socket = \<lparr>sock_raw = 3, sock_attacher = \<lparr>once = Some 3\<rparr>\<rparr>"

theorem recv_exact_fills_witness:
  "\<exists>b' w'. sock_recv_exact (sample_net 2) sample_socket (Raw (sample_vec 3)) ([10, 11, 12, 13], []) =
      Some (Some ((Ok 3, b'), sample_socket, w')) \<and> wf_buf b' \<and> as_slice b' = Some [7, 10, 11, 12] \<and> fst w' = [13]"
proof -
  have "\<exists>b' w'. sock_recv_exact (sample_net 2) sample_socket (Raw (sample_vec 3)) ([10, 11, 12, 13], []) =
      Some (Some ((Ok 3, b'), sample_socket, w')) \<and> wf_buf b' \<and>
    as_slice b' = Some ([7] @ take 3 (fst ([10, 11, 12, 13 :: u8], [] :: u8 list))) \<and>
    fst w' = drop 3 (fst ([10, 11, 12, 13], [] :: u8 list))"
    by (rule recv_exact_fills [OF sample_net_receives, where fd = 3 and a = 4097])
      (simp_all add: sample_socket_def sample_vec_def wf_raw_def mut_buf_def as_slice_Raw as_uninit_slice_def
        raw_capacity_def)
  then show ?thesis by simp
qed

theorem recv_exact_stuck_at_eof_witness:
  "sock_recv_exact (sample_net 2) sample_socket (Raw (sample_vec 3)) ([10, 11], []) = None"
  by (rule recv_exact_stuck_at_eof [OF sample_net_receives, where fd = 3 and a = 4097 and need = 3])
    (simp_all add: sample_socket_def sample_vec_def wf_raw_def mut_buf_def as_uninit_slice_def raw_capacity_def)

theorem send_all_sends_witness:
  "\<exists>w'. sock_send_all (sample_net 2) sample_socket
        (Raw \<lparr>raw_kind = VecU8, raw_ptr = 4096, raw_mem = [1, 2, 3], raw_len = 3\<rparr>) ([], [9]) =
      Some (Some ((Ok 3, Raw \<lparr>raw_kind = VecU8, raw_ptr = 4096, raw_mem = [1, 2, 3], raw_len = 3\<rparr>), sample_socket, w')) \<and>
    snd w' = [9, 1, 2, 3]"
proof -
  let ?b = "Raw \<lparr>raw_kind = VecU8, raw_ptr = 4096, raw_mem = [1, 2, 3], raw_len = 3\<rparr>"
  have "\<exists>w'. sock_send_all (sample_net 2) sample_socket ?b ([], [9]) =
      Some (Some ((Ok (length ([1, 2, 3] :: u8 list)), ?b), sample_socket, w')) \<and>
    snd w' = snd ([] :: u8 list, [9]) @ [1, 2, 3]"
    by (rule send_all_sends [OF sample_net_sends, where fd = 3])
      (simp_all add: sample_socket_def wf_raw_def as_slice_Raw)
  then show ?thesis by (simp add: eval_nat_numeral)
qed

theorem tcp_listener_bind_first_witness:
  "\<exists>tried a rest es w1. [zeroed_addr 0, zeroed_addr 16] = tried @ a # rest \<and>
     all_fail (bind_and_listen (sample_net 1) (Some TCP) 128) tried ([], []) es w1 \<and>
     bind_and_listen (sample_net 1) (Some TCP) 128 a w1 = (Ok (from_socket2 3), ([], []))"
proof -
  have "tcp_listener_bind (sample_net 1) (Ok [zeroed_addr 0, zeroed_addr 16]) ([], []) =
      (Ok (from_socket2 3), ([], []))"
    by (simp add: tcp_listener_bind_def each_addr_def bind_and_listen_def sock_listen_def sock_bind_def sock_new_def
        sample_net_def zeroed_addr_def from_socket2_def)
  from tcp_listener_bind_first [OF this] show ?thesis by simp
qed

theorem udp_send_to_returns_buffer_witness:
  "snd (fst (udp_send_to (sample_net 1) sample_socket (Raw (sample_vec 0)) (Ok [zeroed_addr 16]) ([], []))) =
     Raw (sample_vec 0)"
  by (rule udp_send_to_returns_buffer) (simp add: sample_net_def)

end
