(* ===== verification/Net_Stream.thy ===== *)
theory Net_Stream
  imports Net_Socket
begin

text \<open>
  The resolution of addresses in \<open>src/net/mod.rs\<close> and the methods of the TCP, UDP and Unix domain
  wrappers, \<open>src/net/tcp.rs\<close>, \<open>src/net/udp.rs\<close> and \<open>src/net/unix.rs\<close>, that hand over to the socket, and
  what two ends of a stream do together. As in \<open>Net_Socket\<close> a wrapper is its socket.
\<close>

subsection \<open>Addresses\<close>

text \<open>
  The implementations of \<open>ToSockAddrs\<close>: nine types and \<open>(&str, u16)\<close> resolve through the standard
  library, whose answer is an argument (\<open>StdAddrs\<close>) and whose addresses are converted one by one; an
  address and a slice of addresses stand for themselves; a reference for what it points to.
\<close>

datatype 'sa addr_source =
    StdAddrs "'sa list io_result"
  | OneAddr sock_addr
  | AddrSlice "sock_addr list"
  | AddrRef "'sa addr_source"

fun to_sock_addrs :: "('sa \<Rightarrow> sock_addr) \<Rightarrow> 'sa addr_source \<Rightarrow> sock_addr list io_result" where
  "to_sock_addrs from (StdAddrs r) = (case r of Err e \<Rightarrow> Err e | Ok as \<Rightarrow> Ok (map from as))"
| "to_sock_addrs from (OneAddr a) = Ok [a]"
| "to_sock_addrs from (AddrSlice as) = Ok as"
| "to_sock_addrs from (AddrRef s) = to_sock_addrs from s"

subsection \<open>TCP\<close>

definition tcp_listener_try_clone ::
  "('raw, 'f, 'fd, 'w) socket_env \<Rightarrow> ('raw, 'f) socket \<Rightarrow> 'w \<Rightarrow> ('raw, 'f) socket io_result \<times> 'w" where
  "tcp_listener_try_clone E s w =
     (case sock_try_clone E s w of (Err e, w') \<Rightarrow> (Err e, w') | (Ok s', w') \<Rightarrow> (Ok s', w'))"

definition tcp_listener_accept ::
  "('raw, 'f, 'fd, 'w) socket_env \<Rightarrow> ('raw, 'f) socket \<Rightarrow> 'w \<Rightarrow>
   (('raw, 'f) socket \<times> sock_addr) io_result \<times> ('raw, 'f) socket \<times> 'w" where
  "tcp_listener_accept E s w =
     (case sock_accept E s w of
        (Err e, s', w') \<Rightarrow> (Err e, s', w')
      | (Ok (stream, addr), s', w') \<Rightarrow> (Ok (stream, addr), s', w'))"

definition tcp_listener_local_addr ::
  "('raw, 'f, 'fd, 'w) socket_env \<Rightarrow> ('raw, 'f) socket \<Rightarrow> 'w \<Rightarrow> sock_addr io_result \<times> 'w" where
  "tcp_listener_local_addr E s w = sock_local_addr E s w"

definition tcp_stream_try_clone ::
  "('raw, 'f, 'fd, 'w) socket_env \<Rightarrow> ('raw, 'f) socket \<Rightarrow> 'w \<Rightarrow> ('raw, 'f) socket io_result \<times> 'w" where
  "tcp_stream_try_clone E s w =
     (case sock_try_clone E s w of (Err e, w') \<Rightarrow> (Err e, w') | (Ok s', w') \<Rightarrow> (Ok s', w'))"

definition tcp_stream_peer_addr ::
  "('raw, 'f, 'fd, 'w) socket_env \<Rightarrow> ('raw, 'f) socket \<Rightarrow> 'w \<Rightarrow> sock_addr io_result \<times> 'w" where
  "tcp_stream_peer_addr E s w = sock_peer_addr E s w"

definition tcp_stream_local_addr ::
  "('raw, 'f, 'fd, 'w) socket_env \<Rightarrow> ('raw, 'f) socket \<Rightarrow> 'w \<Rightarrow> sock_addr io_result \<times> 'w" where
  "tcp_stream_local_addr E s w = sock_local_addr E s w"

definition tcp_stream_shutdown ::
  "('raw, 'f, 'fd, 'w) socket_env \<Rightarrow> ('raw, 'f) socket \<Rightarrow> shutdown_how \<Rightarrow> 'w \<Rightarrow> unit io_result \<times> 'w" where
  "tcp_stream_shutdown E s how w = sock_shutdown E s how w"

definition tcp_stream_recv ::
  "('raw, 'f, 'fd, 'w) socket_env \<Rightarrow> ('raw, 'f) socket \<Rightarrow> iobuf \<Rightarrow> 'w \<Rightarrow> (usize, iobuf, 'raw, 'f, 'w) sock_result" where
  "tcp_stream_recv E s buffer w = sock_recv E s buffer w"

definition tcp_stream_recv_exact ::
  "('raw, 'f, 'fd, 'w) socket_env \<Rightarrow> ('raw, 'f) socket \<Rightarrow> iobuf \<Rightarrow> 'w \<Rightarrow> (nat, iobuf, 'raw, 'f, 'w) sock_result option" where
  "tcp_stream_recv_exact E s buffer w = sock_recv_exact E s buffer w"

definition tcp_stream_recv_vectored ::
  "('raw, 'f, 'fd, 'w) socket_env \<Rightarrow> ('raw, 'f) socket \<Rightarrow> vectored_buf_wrapper \<Rightarrow> 'w \<Rightarrow>
   (usize, slices_buf, 'raw, 'f, 'w) sock_result" where
  "tcp_stream_recv_vectored E s buffer w = sock_recv_vectored E s buffer w"

definition tcp_stream_send ::
  "('raw, 'f, 'fd, 'w) socket_env \<Rightarrow> ('raw, 'f) socket \<Rightarrow> iobuf \<Rightarrow> 'w \<Rightarrow>
   (usize io_result \<times> iobuf) \<times> ('raw, 'f) socket \<times> 'w" where
  "tcp_stream_send E s buffer w = sock_send E s buffer w"

definition tcp_stream_send_all ::
  "('raw, 'f, 'fd, 'w) socket_env \<Rightarrow> ('raw, 'f) socket \<Rightarrow> iobuf \<Rightarrow> 'w \<Rightarrow> (nat, iobuf, 'raw, 'f, 'w) sock_result option" where
  "tcp_stream_send_all E s buffer w = sock_send_all E s buffer w"

definition tcp_stream_send_vectored ::
  "('raw, 'f, 'fd, 'w) socket_env \<Rightarrow> ('raw, 'f) socket \<Rightarrow> vectored_buf_wrapper \<Rightarrow> 'w \<Rightarrow>
   (usize io_result \<times> slices_buf) \<times> ('raw, 'f) socket \<times> 'w" where
  "tcp_stream_send_vectored E s buffer w = sock_send_vectored E s buffer w"

subsection \<open>UDP\<close>

definition udp_try_clone ::
  "('raw, 'f, 'fd, 'w) socket_env \<Rightarrow> ('raw, 'f) socket \<Rightarrow> 'w \<Rightarrow> ('raw, 'f) socket io_result \<times> 'w" where
  "udp_try_clone E s w =
     (case sock_try_clone E s w of (Err e, w') \<Rightarrow> (Err e, w') | (Ok s', w') \<Rightarrow> (Ok s', w'))"

definition udp_peer_addr ::
  "('raw, 'f, 'fd, 'w) socket_env \<Rightarrow> ('raw, 'f) socket \<Rightarrow> 'w \<Rightarrow> sock_addr io_result \<times> 'w" where
  "udp_peer_addr E s w = sock_peer_addr E s w"

definition udp_local_addr ::
  "('raw, 'f, 'fd, 'w) socket_env \<Rightarrow> ('raw, 'f) socket \<Rightarrow> 'w \<Rightarrow> sock_addr io_result \<times> 'w" where
  "udp_local_addr E s w = sock_local_addr E s w"

definition udp_recv ::
  "('raw, 'f, 'fd, 'w) socket_env \<Rightarrow> ('raw, 'f) socket \<Rightarrow> iobuf \<Rightarrow> 'w \<Rightarrow> (usize, iobuf, 'raw, 'f, 'w) sock_result" where
  "udp_recv E s buffer w = sock_recv E s buffer w"

definition udp_recv_vectored ::
  "('raw, 'f, 'fd, 'w) socket_env \<Rightarrow> ('raw, 'f) socket \<Rightarrow> vectored_buf_wrapper \<Rightarrow> 'w \<Rightarrow>
   (usize, slices_buf, 'raw, 'f, 'w) sock_result" where
  "udp_recv_vectored E s buffer w = sock_recv_vectored E s buffer w"

definition udp_send ::
  "('raw, 'f, 'fd, 'w) socket_env \<Rightarrow> ('raw, 'f) socket \<Rightarrow> iobuf \<Rightarrow> 'w \<Rightarrow>
   (usize io_result \<times> iobuf) \<times> ('raw, 'f) socket \<times> 'w" where
  "udp_send E s buffer w = sock_send E s buffer w"

definition udp_send_vectored ::
  "('raw, 'f, 'fd, 'w) socket_env \<Rightarrow> ('raw, 'f) socket \<Rightarrow> vectored_buf_wrapper \<Rightarrow> 'w \<Rightarrow>
   (usize io_result \<times> slices_buf) \<times> ('raw, 'f) socket \<times> 'w" where
  "udp_send_vectored E s buffer w = sock_send_vectored E s buffer w"

definition udp_recv_from ::
  "('raw, 'f, 'fd, 'w) socket_env \<Rightarrow> ('raw, 'f) socket \<Rightarrow> iobuf \<Rightarrow> 'w \<Rightarrow>
   (usize \<times> sock_addr, iobuf, 'raw, 'f, 'w) sock_result" where
  "udp_recv_from E s buffer w = sock_recv_from E s buffer w"

definition udp_recv_from_vectored ::
  "('raw, 'f, 'fd, 'w) socket_env \<Rightarrow> ('raw, 'f) socket \<Rightarrow> vectored_buf_wrapper \<Rightarrow> 'w \<Rightarrow>
   (usize \<times> sock_addr, slices_buf, 'raw, 'f, 'w) sock_result" where
  "udp_recv_from_vectored E s buffer w = sock_recv_from_vectored E s buffer w"

definition udp_send_to_vectored ::
  "('raw, 'f, 'fd, 'w) socket_env \<Rightarrow> ('raw, 'f) socket \<Rightarrow> vectored_buf_wrapper \<Rightarrow> sock_addr list io_result \<Rightarrow> 'w \<Rightarrow>
   (usize io_result \<times> slices_buf) \<times> ('raw, 'f) socket \<times> 'w" where
  "udp_send_to_vectored E s buffer addr w =
     each_addr_async_buf addr (Vectored buffer) (\<lambda>addr buffer (s, w). sock_send_to_vectored E s buffer addr w) (s, w)"

subsection \<open>Unix domain sockets\<close>

text \<open>\<open>SockAddr::unix\<close> makes the address of a path or fails; its answer is an argument.\<close>

definition unix_listener_bind ::
  "('raw, 'f, 'fd, 'w) socket_env \<Rightarrow> sock_addr io_result \<Rightarrow> 'w \<Rightarrow> ('raw, 'f) socket io_result \<times> 'w" where
  "unix_listener_bind E path_addr w =
     (case path_addr of
        Err e \<Rightarrow> (Err e, w)
      | Ok addr \<Rightarrow> unix_listener_bind_addr E (to_sock_addrs id (OneAddr addr)) w)"

definition unix_listener_try_clone ::
  "('raw, 'f, 'fd, 'w) socket_env \<Rightarrow> ('raw, 'f) socket \<Rightarrow> 'w \<Rightarrow> ('raw, 'f) socket io_result \<times> 'w" where
  "unix_listener_try_clone E s w =
     (case sock_try_clone E s w of (Err e, w') \<Rightarrow> (Err e, w') | (Ok s', w') \<Rightarrow> (Ok s', w'))"

definition unix_listener_accept ::
  "('raw, 'f, 'fd, 'w) socket_env \<Rightarrow> ('raw, 'f) socket \<Rightarrow> 'w \<Rightarrow>
   (('raw, 'f) socket \<times> sock_addr) io_result \<times> ('raw, 'f) socket \<times> 'w" where
  "unix_listener_accept E s w =
     (case sock_accept E s w of
        (Err e, s', w') \<Rightarrow> (Err e, s', w')
      | (Ok (stream, addr), s', w') \<Rightarrow> (Ok (stream, addr), s', w'))"

definition unix_listener_local_addr ::
  "('raw, 'f, 'fd, 'w) socket_env \<Rightarrow> ('raw, 'f) socket \<Rightarrow> 'w \<Rightarrow> sock_addr io_result \<times> 'w" where
  "unix_listener_local_addr E s w = sock_local_addr E s w"

definition unix_stream_connect ::
  "('raw, 'f, 'fd, 'w) socket_env \<Rightarrow> sock_addr io_result \<Rightarrow> 'w \<Rightarrow> ('raw, 'f) socket io_result \<times> 'w" where
  "unix_stream_connect E path_addr w =
     (case path_addr of
        Err e \<Rightarrow> (Err e, w)
      | Ok addr \<Rightarrow> unix_stream_connect_addr E (to_sock_addrs id (OneAddr addr)) w)"

definition unix_stream_try_clone ::
  "('raw, 'f, 'fd, 'w) socket_env \<Rightarrow> ('raw, 'f) socket \<Rightarrow> 'w \<Rightarrow> ('raw, 'f) socket io_result \<times> 'w" where
  "unix_stream_try_clone E s w =
     (case sock_try_clone E s w of (Err e, w') \<Rightarrow> (Err e, w') | (Ok s', w') \<Rightarrow> (Ok s', w'))"

definition unix_stream_peer_addr ::
  "('raw, 'f, 'fd, 'w) socket_env \<Rightarrow> ('raw, 'f) socket \<Rightarrow> 'w \<Rightarrow> sock_addr io_result \<times> 'w" where
  "unix_stream_peer_addr E s w = sock_peer_addr E s w"

definition unix_stream_local_addr ::
  "('raw, 'f, 'fd, 'w) socket_env \<Rightarrow> ('raw, 'f) socket \<Rightarrow> 'w \<Rightarrow> sock_addr io_result \<times> 'w" where
  "unix_stream_local_addr E s w = sock_local_addr E s w"

definition unix_stream_shutdown ::
  "('raw, 'f, 'fd, 'w) socket_env \<Rightarrow> ('raw, 'f) socket \<Rightarrow> shutdown_how \<Rightarrow> 'w \<Rightarrow> unit io_result \<times> 'w" where
  "unix_stream_shutdown E s how w = sock_shutdown E s how w"

definition unix_stream_recv ::
  "('raw, 'f, 'fd, 'w) socket_env \<Rightarrow> ('raw, 'f) socket \<Rightarrow> iobuf \<Rightarrow> 'w \<Rightarrow> (usize, iobuf, 'raw, 'f, 'w) sock_result" where
  "unix_stream_recv E s buffer w = sock_recv E s buffer w"

definition unix_stream_recv_exact ::
  "('raw, 'f, 'fd, 'w) socket_env \<Rightarrow> ('raw, 'f) socket \<Rightarrow> iobuf \<Rightarrow> 'w \<Rightarrow> (nat, iobuf, 'raw, 'f, 'w) sock_result option" where
  "unix_stream_recv_exact E s buffer w = sock_recv_exact E s buffer w"

definition unix_stream_recv_vectored ::
  "('raw, 'f, 'fd, 'w) socket_env \<Rightarrow> ('raw, 'f) socket \<Rightarrow> vectored_buf_wrapper \<Rightarrow> 'w \<Rightarrow>
   (usize, slices_buf, 'raw, 'f, 'w) sock_result" where
  "unix_stream_recv_vectored E s buffer w = sock_recv_vectored E s buffer w"

definition unix_stream_send ::
  "('raw, 'f, 'fd, 'w) socket_env \<Rightarrow> ('raw, 'f) socket \<Rightarrow> iobuf \<Rightarrow> 'w \<Rightarrow>
   (usize io_result \<times> iobuf) \<times> ('raw, 'f) socket \<times> 'w" where
  "unix_stream_send E s buffer w = sock_send E s buffer w"

definition unix_stream_send_all ::
  "('raw, 'f, 'fd, 'w) socket_env \<Rightarrow> ('raw, 'f) socket \<Rightarrow> iobuf \<Rightarrow> 'w \<Rightarrow> (nat, iobuf, 'raw, 'f, 'w) sock_result option" where
  "unix_stream_send_all E s buffer w = sock_send_all E s buffer w"

definition unix_stream_send_vectored ::
  "('raw, 'f, 'fd, 'w) socket_env \<Rightarrow> ('raw, 'f) socket \<Rightarrow> vectored_buf_wrapper \<Rightarrow> 'w \<Rightarrow>
   (usize io_result \<times> slices_buf) \<times> ('raw, 'f) socket \<times> 'w" where
  "unix_stream_send_vectored E s buffer w = sock_send_vectored E s buffer w"

subsection \<open>Two ends of a stream\<close>

text \<open>
  C15. What is sent is received: on a connection that hands on every byte that is sent, \<open>send_all\<close> at
  one end followed by \<open>recv_exact\<close> at the other, into a buffer with room for as many bytes, both
  return the number of bytes, the receiver's buffer has grown by exactly the bytes of the sender's
  buffer, in order and however they were split into segments, and the connection is empty again.
\<close>

theorem tcp_send_recv_roundtrip:
  assumes "receives_stream E incoming" "sends_stream E (\<lambda>fd. incoming (peer fd))"
    and "once (sock_attacher s) = Some fd" "once (sock_attacher r) = Some rfd" "net_into E rfd = peer (net_into E fd)"
    and "wf_buf b" "as_slice b = Some ds" "length ds < 2 ^ 64"
    and "wf_buf c" "mut_buf c" "as_slice c = Some old" "as_uninit_slice c = Some (a, length ds)"
    and "incoming (net_into E rfd) w = []"
  shows "\<exists>w1 c' w2. tcp_stream_send_all E s b w = Some (Some ((Ok (length ds), b), s, w1)) \<and>
    tcp_stream_recv_exact E r c w1 = Some (Some ((Ok (length ds), c'), r, w2)) \<and>
    wf_buf c' \<and> as_slice c' = Some (old @ ds) \<and> incoming (net_into E rfd) w2 = []"
proof -
  obtain w1 where 1: "sock_send_all E s b w = Some (Some ((Ok (length ds), b), s, w1))"
    "incoming (peer (net_into E fd)) w1 = incoming (peer (net_into E fd)) w @ ds"
    using sock_send_all_sent [OF assms(2,3,6-8), of w] by blast
  then have in1: "incoming (net_into E rfd) w1 = ds" using assms(5,13) by simp
  then obtain c' w2 where "sock_recv_exact E r c w1 = Some (Some ((Ok (length ds), c'), r, w2))" "wf_buf c'"
    "as_slice c' = Some (old @ take (length ds) ds)" "incoming (net_into E rfd) w2 = drop (length ds) ds"
    using sock_recv_exact_filled [OF assms(1,4,9-12), of w1] assms(8) by auto
  then show ?thesis using 1(1) by (simp add: tcp_stream_send_all_def tcp_stream_recv_exact_def)
qed

text \<open>A connection from descriptor 3 to descriptor 4: the world is what is on its way.\<close>

definition sample_link :: "nat \<Rightarrow> (nat, nat, nat, u8 list) socket_env" where
  "sample_link chunk =
     \<lparr>net_new = (\<lambda>domain ty proto w. (Ok 3, w)), net_set_nonblocking = None, net_bind = (\<lambda>raw addr w. (Ok (), w)),
      net_listen = (\<lambda>raw backlog w. (Ok (), w)), net_connect = (\<lambda>raw addr w. (Ok (), w)),
      net_shutdown = (\<lambda>raw how w. (Ok (), w)), net_peer_addr = (\<lambda>raw w. (Ok (zeroed_addr 16), w)),
      net_local_addr = (\<lambda>raw w. (Ok (zeroed_addr 16), w)), net_dup = (\<lambda>raw w. (Ok raw, w)), net_from_fd = unat,
      net_domain = (\<lambda>addr. 2), net_unix = 1, net_storage = 128, net_attach = (\<lambda>raw w. (Ok raw, w)), net_into = (\<lambda>fd. fd),
      await_connect = (\<lambda>op w. ((Ok 0, op), w)), await_accept = (\<lambda>op w. ((Ok 5, op), w)), accept_nonblocking = None,
      await_recv = (\<lambda>op w. let x = await_recv (sample_net chunk) op (w, []) in (fst x, fst (snd x))),
      await_recv_vectored = (\<lambda>op w. ((Ok 0, op), w)),
      await_send = (\<lambda>op w. let x = await_send (sample_net chunk) op ([], w) in (fst x, snd (snd x))),
      await_send_vectored = (\<lambda>op w. ((Ok 0, op), w)), await_recv_from = (\<lambda>fd b w. ((Ok 0, b, zeroed_addr 128), w)),
      await_recv_msg = (\<lambda>op w. ((Ok 0, op), w)), await_send_to = (\<lambda>fd b addr w. ((Err (Os 111), b), w)),
      await_send_msg = (\<lambda>op w. ((Ok 0, op), w))\<rparr>"

lemma sample_link_stream:
  assumes "0 < chunk" "chunk < 2 ^ 64"
  shows "receives_stream (sample_link chunk) (\<lambda>fd w. w)" "sends_stream (sample_link chunk) (\<lambda>fd w. w)"
proof -
  have "\<exists>m w'. await_recv (sample_link chunk) op w =
        ((Ok (of_nat m), op\<lparr>recv_buffer := store_bytes a (take m w) (recv_buffer op)\<rparr>), w') \<and>
      m \<le> k \<and> m \<le> length w \<and> m < 2 ^ 64 \<and> (m = 0 \<longrightarrow> k = 0 \<or> w = []) \<and> w' = drop m w"
    if "as_uninit_slice (recv_buffer op) = Some (a, k)" for op w a k
    using receives_streamD [OF sample_net_receives [OF assms] that, of "(w, [])"]
    by (auto simp: sample_link_def Let_def)
  then show "receives_stream (sample_link chunk) (\<lambda>fd w. w)" by (simp add: receives_stream_def Let_def)
  have "\<exists>m w'. await_send (sample_link chunk) op w = ((Ok (of_nat m), op), w') \<and>
      0 < m \<and> m \<le> length ds \<and> m < 2 ^ 64 \<and> w' = w @ take m ds"
    if "as_slice (send_buffer op) = Some ds" "ds \<noteq> []" for op w ds
    using sample_net_sends [OF assms, unfolded sends_stream_def, rule_format, OF that, of "([], w)"]
    by (auto simp: sample_link_def Let_def)
  then show "sends_stream (sample_link chunk) (\<lambda>fd w. w)" by (simp add: sends_stream_def)
qed

theorem tcp_send_recv_roundtrip_witness:
  "\<exists>w1 c' w2. tcp_stream_send_all (sample_link 2) sample_socket
        (Raw \<lparr>raw_kind = VecU8, raw_ptr = 8192, raw_mem = [1, 2, 3], raw_len = 3\<rparr>) [] =
      Some (Some ((Ok 3, Raw \<lparr>raw_kind = VecU8, raw_ptr = 8192, raw_mem = [1, 2, 3], raw_len = 3\<rparr>), sample_socket, w1)) \<and>
    tcp_stream_recv_exact (sample_link 2) (sample_socket\<lparr>sock_attacher := \<lparr>once = Some 4\<rparr>\<rparr>) (Raw (sample_vec 3)) w1 =
      Some (Some ((Ok 3, c'), sample_socket\<lparr>sock_attacher := \<lparr>once = Some 4\<rparr>\<rparr>, w2)) \<and> as_slice c' = Some [7, 1, 2, 3]"
proof -
  let ?b = "Raw \<lparr>raw_kind = VecU8, raw_ptr = 8192, raw_mem = [1, 2, 3], raw_len = 3\<rparr>"
  let ?r = "sample_socket\<lparr>sock_attacher := \<lparr>once = Some 4\<rparr>\<rparr>"
  have "\<exists>w1 c' w2. tcp_stream_send_all (sample_link 2) sample_socket ?b [] =
      Some (Some ((Ok (length [1, 2, 3 :: u8]), ?b), sample_socket, w1)) \<and>
    tcp_stream_recv_exact (sample_link 2) ?r (Raw (sample_vec 3)) w1 =
      Some (Some ((Ok (length [1, 2, 3 :: u8]), c'), ?r, w2)) \<and>
    wf_buf c' \<and> as_slice c' = Some ([7] @ [1, 2, 3]) \<and> w2 = []"
    by (rule tcp_send_recv_roundtrip [OF sample_link_stream, where fd = 3 and rfd = 4 and peer = "\<lambda>fd. Suc fd" and a = 4097])
      (simp_all add: sample_socket_def sample_vec_def wf_raw_def mut_buf_def as_slice_Raw as_uninit_slice_def
        raw_capacity_def sample_link_def)
  then show ?thesis by (auto simp: eval_nat_numeral)
qed

end
