(* ===== verification/Net_Windows.thy ===== *)
theory Net_Windows
  imports Net_Socket Iocp_Op
begin

text \<open>
  The parts of \<open>src/net\<close> that Windows has to itself: accepting with the options of the listening
  socket and connecting a socket that is bound first. The calls of the socket library, and submitting an
  operation and awaiting its future, are parameters; the extension functions are those of \<open>Iocp_Op\<close>.
\<close>

record 'w win_net_env =
  wnet_new :: "i32 \<Rightarrow> sock_type \<Rightarrow> protocol option \<Rightarrow> 'w \<Rightarrow> usize io_result \<times> 'w"
  wnet_bind :: "usize \<Rightarrow> sock_addr \<Rightarrow> 'w \<Rightarrow> unit io_result \<times> 'w"
  wnet_local_addr :: "usize \<Rightarrow> 'w \<Rightarrow> sock_addr io_result \<times> 'w"
  wnet_type :: "usize \<Rightarrow> 'w \<Rightarrow> i32 io_result \<times> 'w"
  wnet_protocol :: "usize \<Rightarrow> 'w \<Rightarrow> i32 option io_result \<times> 'w"
  wnet_domain :: "sock_addr \<Rightarrow> i32"
  wnet_is_ipv4 :: "sock_addr \<Rightarrow> bool"
  wnet_is_ipv6 :: "sock_addr \<Rightarrow> bool"
  wnet_unspecified_v4 :: sock_addr
  wnet_unspecified_v6 :: sock_addr
  wnet_close :: "usize \<Rightarrow> 'w \<Rightarrow> 'w"
  wnet_attach :: "usize \<Rightarrow> 'w \<Rightarrow> win_fd io_result \<times> 'w"
  await_win_accept :: "win_accept_op \<Rightarrow> 'w \<Rightarrow> (usize io_result \<times> win_accept_op) \<times> 'w"
  await_win_connect :: "win_connect_op \<Rightarrow> 'w \<Rightarrow> (usize io_result \<times> win_connect_op) \<times> 'w"

type_synonym win_socket = "(usize, win_fd) socket"

definition win_sock_attach :: "'w win_net_env \<Rightarrow> win_socket \<Rightarrow> 'w \<Rightarrow> win_fd io_result \<times> win_socket \<times> 'w" where
  "win_sock_attach E s w =
     (let (r, at, w') = attacher_attach (wnet_attach E) (sock_raw s) (sock_attacher s) w
      in (r, s\<lparr>sock_attacher := at\<rparr>, w'))"

text \<open>The options of the socket to accept with: those of the listening socket.\<close>

definition win_new_accept ::
  "'w win_api \<Rightarrow> 'w win_net_env \<Rightarrow> win_fd \<Rightarrow> usize \<Rightarrow> 'w \<Rightarrow> win_accept_op io_result \<times> 'w" where
  "win_new_accept A E fd raw w =
     (case wnet_local_addr E raw w of
        (Err e, w') \<Rightarrow> (Err e, w')
      | (Ok local_addr, w1) \<Rightarrow>
          (case wnet_type E raw w1 of
             (Err e, w') \<Rightarrow> (Err e, w')
           | (Ok ty, w2) \<Rightarrow>
               (case wnet_protocol E raw w2 of
                  (Err e, w') \<Rightarrow> (Err e, w')
                | (Ok proto, w') \<Rightarrow>
                    (Ok (win_accept_with_socket_opts A fd (wnet_domain E local_addr) ty proto), w'))))"

definition win_sock_accept ::
  "'w win_api \<Rightarrow> 'w win_net_env \<Rightarrow> win_socket \<Rightarrow> win_statics \<Rightarrow> 'w \<Rightarrow>
   ((win_socket \<times> sock_addr) io_result \<times> win_socket \<times> win_statics \<times> 'w) option" where
  "win_sock_accept A E s st w =
     (case win_sock_attach E s w of
        (Err e, s', w') \<Rightarrow> Some (Err e, s', st, w')
      | (Ok fd, s', w1) \<Rightarrow>
          (case win_new_accept A E fd (sock_raw s) w1 of
             (Err e, w') \<Rightarrow> Some (Err e, s', st, w')
           | (Ok op, w2) \<Rightarrow>
               (let ((res, op'), w3) = await_win_accept E op w2
                in do { (r, _, st', w') \<leftarrow> win_on_accept A op' res st w3;
                        Some (case r of Err e \<Rightarrow> Err e | Ok (accept_sock, addr) \<Rightarrow> Ok (from_socket2 accept_sock, addr),
                              s', st', w') })))"

definition win_sock_connect_async ::
  "'w win_api \<Rightarrow> 'w win_net_env \<Rightarrow> win_socket \<Rightarrow> sock_addr \<Rightarrow> 'w \<Rightarrow> unit io_result \<times> win_socket \<times> 'w" where
  "win_sock_connect_async A E s addr w =
     (case win_sock_attach E s w of
        (Err e, s', w') \<Rightarrow> (Err e, s', w')
      | (Ok fd, s', w1) \<Rightarrow>
          (let ((res, op), w2) = await_win_connect E (win_connect_new fd addr) w1;
               (r, w') = win_on_connect A op res w2
           in (r, s', w')))"

text \<open>A socket that goes out of scope on an error is closed.\<close>

definition win_sock_bind ::
  "'w win_net_env \<Rightarrow> sock_addr \<Rightarrow> sock_type \<Rightarrow> protocol option \<Rightarrow> 'w \<Rightarrow> win_socket io_result \<times> 'w" where
  "win_sock_bind E addr ty proto w =
     (case wnet_new E (wnet_domain E addr) ty proto w of
        (Err e, w') \<Rightarrow> (Err e, w')
      | (Ok raw, w1) \<Rightarrow>
          (case wnet_bind E raw addr w1 of
             (Err e, w') \<Rightarrow> (Err e, wnet_close E raw w')
           | (Ok _, w') \<Rightarrow> (Ok (from_socket2 raw), w')))"

definition unsupported_domain :: io_error where
  "unsupported_domain = Custom AddrNotAvailable ''Unsupported address domain.''"

definition win_connect_one ::
  "'w win_api \<Rightarrow> 'w win_net_env \<Rightarrow> sock_addr \<Rightarrow> 'w \<Rightarrow> win_socket io_result \<times> 'w" where
  "win_connect_one A E addr w =
     (case (if wnet_is_ipv4 E addr then Ok (wnet_unspecified_v4 E)
            else if wnet_is_ipv6 E addr then Ok (wnet_unspecified_v6 E)
            else Err unsupported_domain) of
        Err e \<Rightarrow> (Err e, w)
      | Ok bind_addr \<Rightarrow>
          (case win_sock_bind E bind_addr STREAM (Some TCP) w of
             (Err e, w') \<Rightarrow> (Err e, w')
           | (Ok s, w1) \<Rightarrow>
               (case win_sock_connect_async A E s addr w1 of
                  (Err e, s', w') \<Rightarrow> (Err e, wnet_close E (sock_raw s') w')
                | (Ok _, s', w') \<Rightarrow> (Ok s', w'))))"

definition win_tcp_stream_connect ::
  "'w win_api \<Rightarrow> 'w win_net_env \<Rightarrow> sock_addr list io_result \<Rightarrow> 'w \<Rightarrow> win_socket io_result \<times> 'w" where
  "win_tcp_stream_connect A E addr w = each_addr_async addr (win_connect_one A E) w"

subsection \<open>Properties\<close>

text \<open>
  What is relied on: \<open>opens w\<close> counts the sockets that are open, which only a successful \<open>socket\<close> call
  adds to and closing takes from.
\<close>

definition counts_sockets :: "'w win_api \<Rightarrow> 'w win_net_env \<Rightarrow> ('w \<Rightarrow> nat) \<Rightarrow> bool" where
  "counts_sockets A E opens \<longleftrightarrow>
     (\<forall>d ty p w. case wnet_new E d ty p w of (Err e, w') \<Rightarrow> opens w' = opens w | (Ok raw, w') \<Rightarrow> opens w' = Suc (opens w)) \<and>
     (\<forall>raw a w. opens (snd (wnet_bind E raw a w)) = opens w) \<and>
     (\<forall>raw w. opens (wnet_close E raw w) = opens w - 1) \<and>
     (\<forall>raw w. opens (snd (wnet_attach E raw w)) = opens w) \<and>
     (\<forall>op w. opens (snd (await_win_connect E op w)) = opens w) \<and>
     (\<forall>c w. opens (snd (win_call A c w)) = opens w)"

lemma counts_socketsD:
  assumes "counts_sockets A E opens"
  shows "wnet_new E d ty p w = (r, w1) \<Longrightarrow> opens w1 = (case r of Err e \<Rightarrow> opens w | Ok raw \<Rightarrow> Suc (opens w))"
    "wnet_bind E raw a w = (b, w2) \<Longrightarrow> opens w2 = opens w" "opens (wnet_close E raw w) = opens w - 1"
    "wnet_attach E raw w = (t, w3) \<Longrightarrow> opens w3 = opens w"
    "await_win_connect E op w = (c, w4) \<Longrightarrow> opens w4 = opens w" "win_call A call w = (rp, w5) \<Longrightarrow> opens w5 = opens w"
proof -
  note u = assms [unfolded counts_sockets_def]
  have new: "case wnet_new E d ty p w of (Err e, w') \<Rightarrow> opens w' = opens w | (Ok raw, w') \<Rightarrow> opens w' = Suc (opens w)"
    by (rule u [THEN conjunct1, THEN spec, THEN spec, THEN spec, THEN spec])
  show "wnet_new E d ty p w = (r, w1) \<Longrightarrow> opens w1 = (case r of Err e \<Rightarrow> opens w | Ok raw \<Rightarrow> Suc (opens w))"
    using new by (cases r) simp_all
  show "wnet_bind E raw a w = (b, w2) \<Longrightarrow> opens w2 = opens w" using u by (metis snd_conv)
  show "opens (wnet_close E raw w) = opens w - 1" using u by blast
  show "wnet_attach E raw w = (t, w3) \<Longrightarrow> opens w3 = opens w" using u by (metis snd_conv)
  show "await_win_connect E op w = (c, w4) \<Longrightarrow> opens w4 = opens w" using u by (metis snd_conv)
  show "win_call A call w = (rp, w5) \<Longrightarrow> opens w5 = opens w" using u by (metis snd_conv)
qed

lemma win_sock_bind_opens:
  assumes "counts_sockets A E opens" "win_sock_bind E addr ty p w = (r, w')"
  shows "opens w' = (case r of Err e \<Rightarrow> opens w | Ok s \<Rightarrow> Suc (opens w))"
proof -
  obtain r1 w1 where n: "wnet_new E (wnet_domain E addr) ty p w = (r1, w1)" by (metis surj_pair)
  note o = counts_socketsD(1) [OF assms(1) n]
  show ?thesis
  proof (cases r1)
    case (Inr raw)
    obtain r2 w2 where b: "wnet_bind E raw addr w1 = (r2, w2)" by (metis surj_pair)
    note ob = counts_socketsD(2) [OF assms(1) b]
    show ?thesis using assms(2) n o Inr b ob counts_socketsD(3) [OF assms(1), of raw w2]
      by (cases r2) (auto simp: win_sock_bind_def)
  qed (use assms(2) n o in \<open>auto simp: win_sock_bind_def\<close>)
qed

lemma win_connect_async_opens:
  assumes "counts_sockets A E opens" "win_sock_connect_async A E s addr w = (r, s', w')"
  shows "opens w' = opens w"
proof -
  obtain t at w1 where a: "attacher_attach (wnet_attach E) (sock_raw s) (sock_attacher s) w = (t, at, w1)" by (metis surj_pair)
  then have w1: "opens w1 = opens w"
    using counts_socketsD(4) [OF assms(1)] by (auto simp: attacher_attach_def split: option.splits prod.splits sum.splits)
  show ?thesis
  proof (cases t)
    case (Inl e)
    then show ?thesis using assms(2) a w1 by (simp add: win_sock_connect_async_def win_sock_attach_def)
  next
    case (Inr fd)
    obtain res op w2 where c: "await_win_connect E (win_connect_new fd addr) w1 = ((res, op), w2)" by (metis surj_pair)
    then have "opens w2 = opens w" using counts_socketsD(5) [OF assms(1) c] w1 by simp
    moreover have "win_on_connect A op res w2 = (r, w')"
      using assms(2) a Inr c by (auto simp: win_sock_connect_async_def win_sock_attach_def split: prod.splits)
    ultimately show ?thesis
      using counts_socketsD(6) [OF assms(1)]
      by (auto simp: win_on_connect_def win_connect_update_context_def split: sum.splits prod.splits if_splits)
  qed
qed

lemma win_connect_one_opens:
  assumes "counts_sockets A E opens" "win_connect_one A E addr w = (r, w')"
  shows "opens w' = (case r of Err e \<Rightarrow> opens w | Ok s \<Rightarrow> Suc (opens w))"
proof -
  define dom where "dom = (if wnet_is_ipv4 E addr then Ok (wnet_unspecified_v4 E)
            else if wnet_is_ipv6 E addr then Ok (wnet_unspecified_v6 E) else Err unsupported_domain)"
  show ?thesis
  proof (cases dom)
    case (Inl e)
    then show ?thesis using assms(2) by (auto simp: win_connect_one_def dom_def [symmetric])
  next
    case (Inr bind_addr)
    obtain r1 w1 where b: "win_sock_bind E bind_addr STREAM (Some TCP) w = (r1, w1)" by (metis surj_pair)
    note ob = win_sock_bind_opens [OF assms(1) b]
    show ?thesis
    proof (cases r1)
      case (Inl e)
      then show ?thesis using assms(2) Inr b ob by (auto simp: win_connect_one_def dom_def [symmetric])
    next
      case s: (Inr s)
      obtain r2 s' w2 where c: "win_sock_connect_async A E s addr w1 = (r2, s', w2)" by (metis surj_pair)
      show ?thesis
        using assms(2) Inr b s c ob win_connect_async_opens [OF assms(1) c] counts_socketsD(3) [OF assms(1), of "sock_raw s'" w2]
        by (cases r2) (auto simp: win_connect_one_def dom_def [symmetric])
    qed
  qed
qed


text \<open>A network whose world is the number of open sockets, and where every connection is refused.\<close>

definition refusing_net :: "nat win_net_env" where
  "refusing_net =
     \<lparr>wnet_new = (\<lambda>d ty p w. (Ok 5, Suc w)), wnet_bind = (\<lambda>raw a w. (Ok (), w)),
      wnet_local_addr = (\<lambda>raw w. (Err (Os 10022), w)), wnet_type = (\<lambda>raw w. (Ok 1, w)),
      wnet_protocol = (\<lambda>raw w. (Ok None, w)), wnet_domain = (\<lambda>a. 2),
      wnet_is_ipv4 = (\<lambda>a. True), wnet_is_ipv6 = (\<lambda>a. False),
      wnet_unspecified_v4 = \<lparr>sa_storage = replicate 16 0, sa_len = 16\<rparr>,
      wnet_unspecified_v6 = \<lparr>sa_storage = replicate 28 0, sa_len = 28\<rparr>,
      wnet_close = (\<lambda>raw w. w - 1), wnet_attach = (\<lambda>raw w. (Ok (WinFd raw), w)),
      await_win_accept = (\<lambda>op w. ((Err (Os 10022), op), w)),
      await_win_connect = (\<lambda>op w. ((Err (Os 10061), op), w))\<rparr>"

definition silent_api :: "nat win_api" where
  "silent_api = \<lparr>win_call = (\<lambda>c w. (zero_reply, w)), W_SOCKADDR_STORAGE_SIZE = 128, W_SOCKADDR_SIZE = 16,
     W_INVALID_SOCKET = -1\<rparr>"


end
