(* ===== verification/Time.thy ===== *)
theory Time
  imports Prelude
begin

text \<open>
  \<open>src/time.rs\<close>: sleeping, timeouts and intervals. Instants and durations are nanoseconds.

  The clock, the difference of two instants (both of the \<open>boot_time\<close> crate) and submitting a
  \<open>Timeout\<close> operation and awaiting it are parameters. A panic is \<open>None\<close>.
\<close>

subsection \<open>Sleeping\<close>

record 'w time_env =
  instant_now :: "'w \<Rightarrow> nat"
  instant_diff :: "nat \<Rightarrow> nat \<Rightarrow> nat"
  await_timeout :: "nat \<Rightarrow> 'w \<Rightarrow> usize io_result \<times> 'w"

definition sleep :: "'w time_env \<Rightarrow> nat \<Rightarrow> 'w \<Rightarrow> 'w option" where
  "sleep E duration w = (case await_timeout E duration w of (Err e, w') \<Rightarrow> None | (Ok _, w') \<Rightarrow> Some w')"

definition sleep_until :: "'w time_env \<Rightarrow> nat \<Rightarrow> 'w \<Rightarrow> 'w option" where
  "sleep_until E deadline w = sleep E (instant_diff E deadline (instant_now E w)) w"

subsection \<open>Intervals\<close>

record interval =
  first_ticked :: bool
  interval_start :: nat
  interval_period :: nat

definition interval_new :: "nat \<Rightarrow> nat \<Rightarrow> interval" where
  "interval_new start period = \<lparr>first_ticked = False, interval_start = start, interval_period = period\<rparr>"

definition interval_at :: "nat \<Rightarrow> nat \<Rightarrow> interval option" where
  "interval_at start period = (if 0 < period then Some (interval_new start period) else None)"

definition interval_now :: "'w time_env \<Rightarrow> nat \<Rightarrow> 'w \<Rightarrow> interval option" where
  "interval_now E period w = interval_at (instant_now E w) period"

text \<open>The remainder is computed with 128 bits and cast to the 64 bits of \<open>Duration::from_nanos\<close>.\<close>

definition tick :: "'w time_env \<Rightarrow> interval \<Rightarrow> 'w \<Rightarrow> (nat \<times> interval \<times> 'w) option" where
  "tick E iv w =
     (if \<not> first_ticked iv then
        do { w' \<leftarrow> sleep_until E (interval_start iv) w;
             Some (interval_start iv, iv\<lparr>first_ticked := True\<rparr>, w') }
      else if interval_period iv = 0 then None
      else
        (let now = instant_now E w;
             elapsed = instant_diff E now (interval_start iv) mod interval_period iv;
             next_tick = now + interval_period iv - unat (of_nat elapsed :: u64)
         in do { w' \<leftarrow> sleep_until E next_tick w;
                 Some (next_tick, iv, w') }))"

text \<open>A task that awaits \<open>n\<close> ticks, with work of its own after each of them.\<close>

fun ticks :: "'w time_env \<Rightarrow> ('w \<Rightarrow> 'w) \<Rightarrow> nat \<Rightarrow> interval \<Rightarrow> 'w \<Rightarrow> nat list option" where
  "ticks E work 0 iv w = Some []"
| "ticks E work (Suc n) iv w =
     do { (t, iv', w') \<leftarrow> tick E iv w;
          ts \<leftarrow> ticks E work n iv' (work w');
          Some (t # ts) }"

subsection \<open>Ticks lie on the grid of the interval\<close>

text \<open>What is relied on: a timeout succeeds and not before its duration, time does not go back, and
  the difference of an instant and an earlier one is exact.\<close>

definition keeps_time :: "'w time_env \<Rightarrow> bool" where
  "keeps_time E \<longleftrightarrow>
     (\<forall>d w. \<exists>r w'. await_timeout E d w = (Ok r, w') \<and> instant_now E w + d \<le> instant_now E w') \<and>
     (\<forall>later earlier. earlier \<le> later \<longrightarrow> instant_diff E later earlier = later - earlier)"

lemma keeps_time_sleep_until:
  assumes "keeps_time E"
  obtains w' where "sleep_until E t w = Some w'" "t \<le> instant_now E w'" "instant_now E w \<le> instant_now E w'"
proof -
  let ?d = "instant_diff E t (instant_now E w)"
  have "\<exists>r w'. await_timeout E ?d w = (Ok r, w') \<and> instant_now E w + ?d \<le> instant_now E w'"
    using assms unfolding keeps_time_def by blast
  then obtain r w' where w': "await_timeout E ?d w = (Ok r, w')" "instant_now E w + ?d \<le> instant_now E w'"
    by (elim exE conjE)
  have "instant_now E w \<le> t \<Longrightarrow> ?d = t - instant_now E w"
    using assms by (simp add: keeps_time_def)
  then have "t \<le> instant_now E w'" using w'(2) by (cases "instant_now E w \<le> t") auto
  then show thesis using w' by (intro that [of w']) (simp_all add: sleep_until_def sleep_def)
qed

lemma grid_point:
  fixes now start period :: nat
  assumes "start \<le> now" "0 < period"
  shows "\<exists>k. now + period - (now - start) mod period = start + Suc k * period"
    "now < now + period - (now - start) mod period"
proof -
  have e: "now - start = (now - start) div period * period + (now - start) mod period" by simp
  have m: "(now - start) mod period < period" using assms(2) by simp
  show "now < now + period - (now - start) mod period" using m by simp
  have "now + period - (now - start) mod period = start + ((now - start) div period * period + period)"
    using e assms(1) m by linarith
  then show "\<exists>k. now + period - (now - start) mod period = start + Suc k * period"
    by (intro exI [of _ "(now - start) div period"]) simp
qed

lemma tick_grid:
  assumes "keeps_time E" "first_ticked iv" "0 < interval_period iv" "interval_period iv \<le> 2 ^ 64"
    and "interval_start iv \<le> instant_now E w"
  obtains t w' k where "tick E iv w = Some (t, iv, w')" "t = interval_start iv + Suc k * interval_period iv"
    "instant_now E w < t" "t \<le> instant_now E w + interval_period iv" "t \<le> instant_now E w'"
proof -
  let ?now = "instant_now E w"
  let ?t = "?now + interval_period iv - (?now - interval_start iv) mod interval_period iv"
  have "(?now - interval_start iv) mod interval_period iv < 2 ^ 64"
    using assms(3,4) by (meson mod_less_divisor order_less_le_trans)
  then have r: "unat (of_nat ((?now - interval_start iv) mod interval_period iv) :: u64) =
      (?now - interval_start iv) mod interval_period iv"
    by (simp add: unat_of_nat)
  obtain w' where w': "sleep_until E ?t w = Some w'" "?t \<le> instant_now E w'"
    by (rule keeps_time_sleep_until [OF assms(1)], rule that)
  have "instant_diff E ?now (interval_start iv) = ?now - interval_start iv"
    using assms(1,5) by (simp add: keeps_time_def)
  then have "tick E iv w = Some (?t, iv, w')"
    using assms(2,3) w'(1) by (simp add: tick_def Let_def r)
  moreover obtain k where "?t = interval_start iv + Suc k * interval_period iv"
    using grid_point(1) [OF assms(5,3)] by blast
  ultimately show thesis
    using grid_point(2) [OF assms(5,3)] w'(2) by (intro that [of ?t w' k]) simp_all
qed

lemma ticks_grid:
  assumes "keeps_time E" "\<And>w. instant_now E w \<le> instant_now E (work w)"
    and "first_ticked iv" "0 < interval_period iv" "interval_period iv \<le> 2 ^ 64" "interval_start iv \<le> instant_now E w"
  shows "\<exists>ts. ticks E work n iv w = Some ts \<and> length ts = n \<and> sorted_wrt (<) (instant_now E w # ts) \<and>
    (\<forall>t \<in> set ts. \<exists>k. t = interval_start iv + k * interval_period iv)"
  using assms(6)
proof (induction n arbitrary: w)
  case (Suc n)
  obtain t w' k where t: "tick E iv w = Some (t, iv, w')" "t = interval_start iv + Suc k * interval_period iv"
      "instant_now E w < t" "t \<le> instant_now E w'"
    by (rule tick_grid [OF assms(1,3-5) Suc.prems], rule that)
  have le: "t \<le> instant_now E (work w')" using t(4) assms(2) [of w'] by simp
  then have "interval_start iv \<le> instant_now E (work w')" using t(2) by simp
  from Suc.IH [OF this] obtain ts where ts: "ticks E work n iv (work w') = Some ts" "length ts = n"
      "sorted_wrt (<) (instant_now E (work w') # ts)"
      "\<forall>t \<in> set ts. \<exists>k. t = interval_start iv + k * interval_period iv"
    by (elim exE conjE)
  have "\<forall>u \<in> set ts. t < u" using ts(3) le by auto
  then have "sorted_wrt (<) (instant_now E w # t # ts)" using ts(3) t(3) by auto
  moreover have "\<exists>k. t = interval_start iv + k * interval_period iv" using t(2) by blast
  ultimately show ?case using t(1) ts(1,2,4) by (intro exI [of _ "t # ts"]) simp
qed simp

text \<open>
  C34. An interval ticks on its grid: however long the work between the ticks takes, the first tick
  is the start, every tick is the start plus a multiple of the period, and the ticks are strictly
  increasing.
\<close>

theorem interval_ticks_on_grid:
  assumes "keeps_time E" "\<And>w. instant_now E w \<le> instant_now E (work w)"
    and "interval_at start period = Some iv" "period \<le> 2 ^ 64"
  shows "\<exists>ts. ticks E work (Suc n) iv w = Some (start # ts) \<and> length ts = n \<and> sorted_wrt (<) (start # ts) \<and>
    (\<forall>t \<in> set ts. \<exists>k. t = start + k * period)"
proof -
  have iv: "iv = interval_new start period" "0 < period"
    using assms(3) by (auto simp: interval_at_def split: if_splits)
  obtain w' where w': "sleep_until E start w = Some w'" "start \<le> instant_now E w'"
    by (rule keeps_time_sleep_until [OF assms(1)], rule that)
  let ?iv = "iv\<lparr>first_ticked := True\<rparr>"
  have tick: "tick E iv w = Some (start, ?iv, w')"
    using w'(1) by (simp add: tick_def iv interval_new_def)
  have le: "start \<le> instant_now E (work w')" using w'(2) assms(2) [of w'] by simp
  have "\<exists>ts. ticks E work n ?iv (work w') = Some ts \<and> length ts = n \<and>
      sorted_wrt (<) (instant_now E (work w') # ts) \<and>
      (\<forall>t \<in> set ts. \<exists>k. t = interval_start ?iv + k * interval_period ?iv)"
    by (rule ticks_grid [OF assms(1,2)]) (use iv assms(4) le in \<open>simp_all add: interval_new_def\<close>)
  then obtain ts where ts: "ticks E work n ?iv (work w') = Some ts" "length ts = n"
      "sorted_wrt (<) (instant_now E (work w') # ts)"
      "\<forall>t \<in> set ts. \<exists>k. t = start + k * period"
    using iv by (auto simp: interval_new_def)
  have "sorted_wrt (<) (start # ts)" using ts(3) le by auto
  then show ?thesis using tick ts by (intro exI [of _ ts]) simp
qed

definition sample_clock :: "nat time_env" where
  "sample_clock = \<lparr>instant_now = (\<lambda>w. w), instant_diff = (\<lambda>a b. a - b), await_timeout = (\<lambda>d w. (Ok 0, w + d + 1))\<rparr>"

theorem interval_ticks_on_grid_witness:
  "\<exists>ts. ticks sample_clock (\<lambda>w. w + 25) (Suc 2) (interval_new 50 10) 3 = Some (50 # ts) \<and> length ts = 2 \<and>
     sorted_wrt (<) (50 # ts) \<and> (\<forall>t \<in> set ts. \<exists>k. t = 50 + k * 10)"
  by (rule interval_ticks_on_grid)
    (auto simp: keeps_time_def sample_clock_def interval_at_def)

text \<open>
  A period of more than \<open>2\<^sup>6\<^sup>4\<close> nanoseconds leaves the grid: the cast drops the high bits of the
  remainder.
\<close>

lemma long_period_leaves_grid:
  "tick sample_clock \<lparr>first_ticked = True, interval_start = 0, interval_period = 2 ^ 66\<rparr> (2 ^ 64 + 5) =
     Some (2 ^ 64 + 2 ^ 66, \<lparr>first_ticked = True, interval_start = 0, interval_period = 2 ^ 66\<rparr>, 2 ^ 64 + 2 ^ 66 + 1)"
  by (simp add: tick_def sample_clock_def sleep_until_def sleep_def)

subsection \<open>Timeouts\<close>

text \<open>
  A future is its \<open>poll\<close> function: \<open>None\<close> is a panic, \<open>Some (None, w)\<close> pending. \<open>poll_op\<close> polls the
  \<open>Timeout\<close> operation, which the first poll submits. The order in which \<open>select!\<close> polls its two
  branches is drawn for each poll, \<open>first\<close>. Between two polls the runtime does other work, \<open>park\<close>.
\<close>

type_synonym ('r, 'w) poll_fn = "'w \<Rightarrow> ('r option \<times> 'w) option"

datatype elapsed = Elapsed

definition sleep_poll :: "(nat \<Rightarrow> 'w \<Rightarrow> usize io_result option \<times> 'w) \<Rightarrow> nat \<Rightarrow> (unit, 'w) poll_fn" where
  "sleep_poll poll_op duration w =
     (case poll_op duration w of
        (None, w') \<Rightarrow> Some (None, w')
      | (Some (Err e), w') \<Rightarrow> None
      | (Some (Ok _), w') \<Rightarrow> Some (Some (), w'))"

definition timeout_poll ::
  "('w \<Rightarrow> bool) \<Rightarrow> (unit, 'w) poll_fn \<Rightarrow> ('r, 'w) poll_fn \<Rightarrow> (elapsed + 'r, 'w) poll_fn" where
  "timeout_poll first slept future w =
     (if first w then
        do { (r, w1) \<leftarrow> future w;
             (case r of
                Some res \<Rightarrow> Some (Some (Inr res), w1)
              | None \<Rightarrow> do { (s, w2) \<leftarrow> slept w1;
                              Some (map_option (\<lambda>_. Inl Elapsed) s, w2) }) }
      else
        do { (s, w1) \<leftarrow> slept w;
             (case s of
                Some _ \<Rightarrow> Some (Some (Inl Elapsed), w1)
              | None \<Rightarrow> do { (r, w2) \<leftarrow> future w1;
                              Some (map_option Inr r, w2) }) })"

partial_function (option) await_poll ::
  "('r, 'w) poll_fn \<Rightarrow> ('w \<Rightarrow> 'w) \<Rightarrow> 'w \<Rightarrow> ('r \<times> 'w) option option" where
  "await_poll poll park w =
     (case poll w of
        None \<Rightarrow> Some None
      | Some (Some r, w') \<Rightarrow> Some (Some (r, w'))
      | Some (None, w') \<Rightarrow> await_poll poll park (park w'))"

definition timeout ::
  "('w \<Rightarrow> bool) \<Rightarrow> (nat \<Rightarrow> 'w \<Rightarrow> usize io_result option \<times> 'w) \<Rightarrow> ('w \<Rightarrow> 'w) \<Rightarrow> nat \<Rightarrow> ('r, 'w) poll_fn \<Rightarrow>
   'w \<Rightarrow> ((elapsed + 'r) \<times> 'w) option option" where
  "timeout first poll_op park duration future w =
     await_poll (timeout_poll first (sleep_poll poll_op duration) future) park w"

definition timeout_at ::
  "'w time_env \<Rightarrow> ('w \<Rightarrow> bool) \<Rightarrow> (nat \<Rightarrow> 'w \<Rightarrow> usize io_result option \<times> 'w) \<Rightarrow> ('w \<Rightarrow> 'w) \<Rightarrow> nat \<Rightarrow>
   ('r, 'w) poll_fn \<Rightarrow> 'w \<Rightarrow> ((elapsed + 'r) \<times> 'w) option option" where
  "timeout_at E first poll_op park deadline future w =
     timeout first poll_op park (instant_diff E deadline (instant_now E w)) future w"

text \<open>
  What is relied on: the operation is due its duration after the first poll, \<open>due\<close>, pending before
  and finished from then on; the polled future and the rest of the program leave it alone, and
  time passes between two polls.
\<close>

definition timer_polls ::
  "('w \<Rightarrow> nat) \<Rightarrow> ('w \<Rightarrow> nat option) \<Rightarrow> (nat \<Rightarrow> 'w \<Rightarrow> usize io_result option \<times> 'w) \<Rightarrow> bool" where
  "timer_polls now due poll_op \<longleftrightarrow>
     (\<forall>d w. let (r, w') = poll_op d w in
        now w \<le> now w' \<and>
        (case due w of
           None \<Rightarrow> r = None \<and> due w' = Some (now w + d)
         | Some t \<Rightarrow> if t \<le> now w then (\<exists>n. r = Some (Ok n)) else r = None \<and> due w' = Some t))"

definition polled_apart :: "('w \<Rightarrow> nat) \<Rightarrow> ('w \<Rightarrow> nat option) \<Rightarrow> ('r, 'w) poll_fn \<Rightarrow> ('w \<Rightarrow> 'w) \<Rightarrow> bool" where
  "polled_apart now due future park \<longleftrightarrow>
     (\<forall>w. \<exists>r w'. future w = Some (r, w') \<and> due w' = due w \<and> now w \<le> now w') \<and>
     (\<forall>w. due (park w) = due w \<and> now w < now (park w))"

text \<open>One poll of the sleep, and of the future.\<close>

lemma sleep_poll_step:
  assumes "timer_polls now due poll_op"
  obtains (pending) w' where "sleep_poll poll_op d w = Some (None, w')" "now w \<le> now w'"
      "due w' = Some (case due w of Some t \<Rightarrow> t | None \<Rightarrow> now w + d)"
      "\<And>t. due w = Some t \<Longrightarrow> now w < t"
    | (slept) w' t where "sleep_poll poll_op d w = Some (Some (), w')" "now w \<le> now w'"
      "due w = Some t" "t \<le> now w"
proof -
  obtain r w' where p: "poll_op d w = (r, w')" by fastforce
  have l: "now w \<le> now w' \<and> (case due w of
      None \<Rightarrow> r = None \<and> due w' = Some (now w + d)
    | Some t \<Rightarrow> if t \<le> now w then (\<exists>n. r = Some (Ok n)) else r = None \<and> due w' = Some t)"
    using assms [unfolded timer_polls_def, rule_format, of d w] p by simp
  show thesis
  proof (cases "\<exists>t. due w = Some t \<and> t \<le> now w")
    case True
    then obtain t n where "due w = Some t" "t \<le> now w" "r = Some (Ok n)" using l by auto
    then show thesis using l p by (intro slept [of w' t]) (simp_all add: sleep_poll_def)
  next
    case False
    then show thesis using l p
      by (intro pending [of w']) (auto simp: sleep_poll_def split: option.splits if_splits)
  qed
qed

text \<open>What one poll of the timeout may give, in a world \<open>w\<close> where the operation is not due before \<open>limit\<close>.\<close>

inductive timeout_step ::
  "('w \<Rightarrow> nat) \<Rightarrow> ('w \<Rightarrow> nat option) \<Rightarrow> ('r, 'w) poll_fn \<Rightarrow> nat \<Rightarrow> 'w \<Rightarrow> ((elapsed + 'r) option \<times> 'w) option \<Rightarrow> bool"
  for now :: "'w \<Rightarrow> nat" and due :: "'w \<Rightarrow> nat option" and future :: "('r, 'w) poll_fn" and limit :: nat and w :: 'w where
  ready: "future w1 = Some (Some res, w') \<Longrightarrow> timeout_step now due future limit w (Some (Some (Inr res), w'))"
| elapsed: "limit \<le> now w' \<Longrightarrow> timeout_step now due future limit w (Some (Some (Inl Elapsed), w'))"
| pending: "now w \<le> now w' \<Longrightarrow> due w' = Some t \<Longrightarrow> limit \<le> t \<Longrightarrow> \<forall>t'. due w = Some t' \<longrightarrow> t = t' \<and> now w < t' \<Longrightarrow>
    timeout_step now due future limit w (Some (None, w'))"

lemma timeout_poll_future_first:
  assumes "timer_polls now due poll_op" "polled_apart now due future park" "first w"
    and "\<forall>t. due w = Some t \<longrightarrow> start + d \<le> t" "start \<le> now w"
  shows "timeout_step now due future (start + d) w (timeout_poll first (sleep_poll poll_op d) future w)"
proof -
  obtain r w1 where f: "future w = Some (r, w1)" "due w1 = due w" "now w \<le> now w1"
    using assms(2) unfolding polled_apart_def by blast
  show ?thesis
  proof (cases r)
    case (Some res)
    then show ?thesis using assms(3) f(1) by (auto simp: timeout_poll_def intro: timeout_step.ready)
  next
    case None
    from assms(1) show ?thesis
    proof (cases rule: sleep_poll_step [where d = d and w = w1])
      case (pending w2)
      have "timeout_step now due future (start + d) w (Some (None, w2))"
        by (rule timeout_step.pending [of _ _ _ _ "case due w of Some t \<Rightarrow> t | None \<Rightarrow> now w1 + d"])
          (use f pending assms(4,5) in \<open>force split: option.splits\<close>)+
      then show ?thesis using assms(3) f(1) None pending(1) by (simp add: timeout_poll_def)
    next
      case (slept w2 t)
      have "start + d \<le> now w2" using f slept assms(4) [rule_format, of t] by simp
      then show ?thesis using assms(3) f(1) None slept(1) by (auto simp: timeout_poll_def intro: timeout_step.elapsed)
    qed
  qed
qed

lemma timeout_poll_sleep_first:
  assumes "timer_polls now due poll_op" "polled_apart now due future park" "\<not> first w"
    and "\<forall>t. due w = Some t \<longrightarrow> start + d \<le> t" "start \<le> now w"
  shows "timeout_step now due future (start + d) w (timeout_poll first (sleep_poll poll_op d) future w)"
  using assms(1)
proof (cases rule: sleep_poll_step [where d = d and w = w])
  case (slept w2 t)
  have "start + d \<le> now w2" using slept assms(4) [rule_format, of t] by simp
  then show ?thesis using assms(3) slept(1) by (auto simp: timeout_poll_def intro: timeout_step.elapsed)
next
  case (pending w1)
  obtain r w2 where f: "future w1 = Some (r, w2)" "due w2 = due w1" "now w1 \<le> now w2"
    using assms(2) unfolding polled_apart_def by blast
  show ?thesis
  proof (cases r)
    case (Some res)
    then show ?thesis using assms(3) f(1) pending(1) by (auto simp: timeout_poll_def intro: timeout_step.ready)
  next
    case None
    have "timeout_step now due future (start + d) w (Some (None, w2))"
      by (rule timeout_step.pending [of _ _ _ _ "case due w of Some t \<Rightarrow> t | None \<Rightarrow> now w + d"])
        (use f pending assms(4,5) in \<open>force split: option.splits\<close>)+
    then show ?thesis using assms(3) f(1) None pending(1) by (simp add: timeout_poll_def)
  qed
qed

lemmas timeout_poll_step = timeout_poll_future_first timeout_poll_sleep_first

definition timeout_outcome ::
  "('w \<Rightarrow> nat) \<Rightarrow> nat \<Rightarrow> ('r, 'w) poll_fn \<Rightarrow> ((elapsed + 'r) \<times> 'w) option option \<Rightarrow> bool" where
  "timeout_outcome now limit future out \<longleftrightarrow>
     (\<exists>res w'. out = Some (Some (res, w')) \<and>
        (case res of Inl _ \<Rightarrow> limit \<le> now w' | Inr r \<Rightarrow> \<exists>w1. future w1 = Some (Some r, w')))"

lemma timeout_unfold:
  "timeout first poll_op park d future w =
     (case timeout_poll first (sleep_poll poll_op d) future w of
        None \<Rightarrow> Some None
      | Some (Some r, w') \<Rightarrow> Some (Some (r, w'))
      | Some (None, w') \<Rightarrow> timeout first poll_op park d future (park w'))"
  unfolding timeout_def by (subst await_poll.simps) (rule refl)

lemma timeout_armed_ends:
  assumes "timer_polls now due poll_op" "polled_apart now due future park"
    and "due w = Some t" "start + d \<le> t" "start \<le> now w"
  shows "timeout_outcome now (start + d) future (timeout first poll_op park d future w)"
  using assms(3-5)
proof (induction "t - now w" arbitrary: w rule: less_induct)
  case less
  have arm: "\<forall>t. due w = Some t \<longrightarrow> start + d \<le> t" using less.prems by simp
  have "timeout_step now due future (start + d) w (timeout_poll first (sleep_poll poll_op d) future w)"
    using timeout_poll_step [OF assms(1,2) _ arm less.prems(3)] by blast
  then show ?case
  proof cases
    case (pending w' t')
    have "due (park w') = due w'" "now w' < now (park w')"
      using assms(2) by (simp_all add: polled_apart_def)
    then have "due (park w') = Some t" "t - now (park w') < t - now w" "start \<le> now (park w')"
      using pending less.prems by auto
    then have "timeout_outcome now (start + d) future (timeout first poll_op park d future (park w'))"
      using less.hyps less.prems(2) by blast
    then show ?thesis using pending(1) by (simp add: timeout_unfold [of _ _ _ _ _ w])
  qed (auto simp: timeout_unfold [of _ _ _ _ _ w] timeout_outcome_def)
qed


text \<open>A clock with the due time of the operation beside it, and a future that is never ready.\<close>

definition sample_timer :: "nat \<Rightarrow> nat \<times> nat option \<Rightarrow> usize io_result option \<times> nat \<times> nat option" where
  "sample_timer d w =
     (case w of
        (now, None) \<Rightarrow> (None, now, Some (now + d))
      | (now, Some t) \<Rightarrow> (if t \<le> now then Some (Ok 0) else None, now, Some t))"


end
