(* ===== verification/Signal.thy ===== *)
theory Signal
  imports Op_Runtime "HOL-Library.AList"
begin

text \<open>
  Signals, \<open>src/signal/unix.rs\<close> and \<open>src/signal/windows.rs\<close>.

  On unix the disposition of a signal belongs to the process and the table of listeners to a
  thread; the system runs the handler in a thread of its choice. A hash map is an association
  list, since the order of its iteration is arbitrary. What a listener gets is the write to its
  event handle, recorded in \<open>notified\<close>. The \<open>RefCell\<close> of the table is borrowed while an operation
  works on it; the handler that interrupts such a moment panics (\<open>None\<close>).

  On Windows the table is global and maps each event to a slab of handles.
\<close>

subsection \<open>Unix\<close>

record sig_state =
  installed :: "i32 \<Rightarrow> bool"
  handler :: "nat \<Rightarrow> i32 \<Rightarrow> (nat \<times> nat) list option"
  borrowed :: "nat \<Rightarrow> bool"
  notified :: "nat list"

definition signal_handler :: "nat \<Rightarrow> i32 \<Rightarrow> sig_state \<Rightarrow> sig_state option" where
  "signal_handler thread sig st =
     (if borrowed st thread then None
      else case handler st thread sig of
             None \<Rightarrow> Some st
           | Some fds \<Rightarrow>
               if fds \<noteq> [] then
                 Some (st\<lparr>handler := (handler st)(thread := (handler st thread)(sig := Some [])),
                          notified := notified st @ map snd fds\<rparr>)
               else Some st)"

definition sig_init :: "i32 \<Rightarrow> sig_state \<Rightarrow> sig_state" where
  "sig_init sig st = st\<lparr>installed := (installed st)(sig := True)\<rparr>"

definition sig_uninit :: "i32 \<Rightarrow> sig_state \<Rightarrow> sig_state" where
  "sig_uninit sig st = st\<lparr>installed := (installed st)(sig := False)\<rparr>"

text \<open>\<open>Event::handle\<close> duplicates the descriptor and may fail: its result is an argument.\<close>

definition sig_register ::
  "nat \<Rightarrow> i32 \<Rightarrow> nat \<Rightarrow> nat io_result \<Rightarrow> sig_state \<Rightarrow> unit io_result \<times> sig_state" where
  "sig_register thread sig raw_fd handle st =
     (let st1 = sig_init sig st
      in case handle of
           Err e \<Rightarrow> (Err e, st1)
         | Ok h \<Rightarrow>
             (let fds = (case handler st1 thread sig of Some fds \<Rightarrow> fds | None \<Rightarrow> [])
              in (Ok (), st1\<lparr>handler := (handler st1)(thread := (handler st1 thread)(sig := Some (AList.update raw_fd h fds)))\<rparr>)))"

definition sig_unregister :: "nat \<Rightarrow> i32 \<Rightarrow> nat \<Rightarrow> sig_state \<Rightarrow> sig_state" where
  "sig_unregister thread sig fd st =
     (case handler st thread sig of
        None \<Rightarrow> sig_uninit sig st
      | Some fds \<Rightarrow>
          (let fds' = AList.delete fd fds;
               st1 = st\<lparr>handler := (handler st)(thread := (handler st thread)(sig := Some fds'))\<rparr>
           in if fds' \<noteq> [] then st1 else sig_uninit sig st1))"

text \<open>A listener: its event is created first, and dropped when the registration fails.\<close>

record signal_fd =
  sfd_sig :: i32
  sfd_fd :: nat

definition signal_fd_new ::
  "nat \<Rightarrow> i32 \<Rightarrow> nat io_result \<Rightarrow> nat io_result \<Rightarrow> sig_state \<Rightarrow> signal_fd io_result \<times> sig_state" where
  "signal_fd_new thread sig event handle st =
     (case event of
        Err e \<Rightarrow> (Err e, st)
      | Ok fd \<Rightarrow>
          (case sig_register thread sig fd handle st of
             (Err e, st') \<Rightarrow> (Err e, st')
           | (Ok _, st') \<Rightarrow> (Ok \<lparr>sfd_sig = sig, sfd_fd = fd\<rparr>, st')))"

definition signal_fd_drop :: "nat \<Rightarrow> signal_fd \<Rightarrow> sig_state \<Rightarrow> sig_state" where
  "signal_fd_drop thread s st = sig_unregister thread (sfd_sig s) (sfd_fd s) st"

text \<open>
  Awaiting the event of a listener is \<open>wait\<close>: it covers what the program does meanwhile, and is
  \<open>None\<close> when the event is never notified. The listener is dropped when its future ends.
\<close>

definition signal_fd_wait ::
  "(nat \<Rightarrow> sig_state \<Rightarrow> (unit io_result \<times> sig_state) option) \<Rightarrow> signal_fd \<Rightarrow> sig_state \<Rightarrow>
   (unit io_result \<times> sig_state) option" where
  "signal_fd_wait wait s st = wait (sfd_fd s) st"

definition signal ::
  "(nat \<Rightarrow> sig_state \<Rightarrow> (unit io_result \<times> sig_state) option) \<Rightarrow> nat \<Rightarrow> i32 \<Rightarrow> nat io_result \<Rightarrow>
   nat io_result \<Rightarrow> sig_state \<Rightarrow> (unit io_result \<times> sig_state) option" where
  "signal wait thread sig event handle st =
     (case signal_fd_new thread sig event handle st of
        (Err e, st') \<Rightarrow> Some (Err e, st')
      | (Ok fd, st1) \<Rightarrow>
          do { (res, st2) \<leftarrow> signal_fd_wait wait fd st1;
               Some (res, signal_fd_drop thread fd st2) })"

definition SIGINT :: i32 where
  "SIGINT = 2"

definition unix_ctrl_c ::
  "(nat \<Rightarrow> sig_state \<Rightarrow> (unit io_result \<times> sig_state) option) \<Rightarrow> nat \<Rightarrow> nat io_result \<Rightarrow> nat io_result \<Rightarrow>
   sig_state \<Rightarrow> (unit io_result \<times> sig_state) option" where
  "unix_ctrl_c wait thread event handle st = signal wait thread SIGINT event handle st"

text \<open>The system delivers a signal to a thread: the default action ends the process.\<close>

datatype delivery = Killed | Panicked | Delivered sig_state

definition deliver :: "nat \<Rightarrow> i32 \<Rightarrow> sig_state \<Rightarrow> delivery" where
  "deliver thread sig st =
     (if installed st sig then
        (case signal_handler thread sig st of Some st' \<Rightarrow> Delivered st' | None \<Rightarrow> Panicked)
      else Killed)"

definition listeners :: "sig_state \<Rightarrow> nat \<Rightarrow> i32 \<Rightarrow> (nat \<times> nat) list" where
  "listeners st thread sig = (case handler st thread sig of Some fds \<Rightarrow> fds | None \<Rightarrow> [])"

subsection \<open>Listeners of one thread\<close>

text \<open>
  A program whose listeners all live on one thread, to which its signals are delivered: the steps
  are creating a listener, dropping one and a signal.
\<close>

inductive sig_step :: "nat \<Rightarrow> sig_state \<Rightarrow> sig_state \<Rightarrow> bool" for thread where
  creates: "signal_fd_new thread sig event handle st = (r, st') \<Longrightarrow> sig_step thread st st'"
| drops: "sig_step thread st (signal_fd_drop thread s st)"
| delivers: "deliver thread sig st = Delivered st' \<Longrightarrow> sig_step thread st st'"

definition sig_initial :: sig_state where
  "sig_initial = \<lparr>installed = (\<lambda>_. False), handler = (\<lambda>_ _. None), borrowed = (\<lambda>_. False), notified = []\<rparr>"

definition sig_ok :: "nat \<Rightarrow> sig_state \<Rightarrow> bool" where
  "sig_ok thread st \<longleftrightarrow>
     (\<forall>sig. listeners st thread sig \<noteq> [] \<longrightarrow> installed st sig) \<and> \<not> borrowed st thread"

lemma listeners_set [simp]:
  "listeners (st\<lparr>handler := (handler st)(t := (handler st t)(s := Some l))\<rparr>) t' s' =
     (if t' = t \<and> s' = s then l else listeners st t' s')"
  by (simp add: listeners_def)

lemma listeners_other [simp]:
  "listeners (st\<lparr>installed := i\<rparr>) t s = listeners st t s"
  "listeners (st\<lparr>notified := n\<rparr>) t s = listeners st t s"
  by (simp_all add: listeners_def)

lemma listeners_Some: "handler st t s = Some l \<Longrightarrow> listeners st t s = l"
  by (simp add: listeners_def)

lemma sig_ok_register:
  assumes "sig_ok thread st" "sig_register thread sig raw_fd handle st = (r, st')"
  shows "sig_ok thread st'"
proof (cases handle)
  case (Inl e)
  then show ?thesis using assms by (auto simp: sig_ok_def sig_register_def sig_init_def)
next
  case (Inr h)
  let ?st = "sig_init sig st"
  obtain l where "st' = ?st\<lparr>handler := (handler ?st)(thread := (handler ?st thread)(sig := Some l))\<rparr>"
    using assms(2) Inr unfolding sig_register_def Let_def by (simp only: sum.case prod.inject) blast
  then show ?thesis using assms(1) by (simp add: sig_ok_def) (simp add: sig_init_def)
qed

lemma sig_ok_unregister:
  assumes "sig_ok thread st"
  shows "sig_ok thread (sig_unregister thread sig fd st)"
proof (cases "handler st thread sig")
  case None
  then have "listeners st thread sig = []" by (simp add: listeners_def)
  then show ?thesis using assms None by (auto simp: sig_ok_def sig_unregister_def sig_uninit_def)
next
  case (Some fds)
  have "installed st sig" if "AList.delete fd fds \<noteq> []"
  proof -
    have "fds \<noteq> []" using that by auto
    then show ?thesis using assms listeners_Some [OF Some] by (simp add: sig_ok_def)
  qed
  then show ?thesis
    using assms by (simp add: sig_unregister_def Some Let_def sig_ok_def sig_uninit_def)
qed

lemma sig_ok_new:
  assumes "sig_ok thread st" "signal_fd_new thread sig event handle st = (r, st')"
  shows "sig_ok thread st'"
proof (cases event)
  case (Inr fd)
  obtain q st1 where "sig_register thread sig fd handle st = (q, st1)" by fastforce
  then show ?thesis using assms Inr sig_ok_register by (cases q) (auto simp: signal_fd_new_def)
qed (use assms in \<open>simp add: signal_fd_new_def\<close>)

lemma deliver_cases:
  assumes "deliver thread sig st = Delivered st'"
  shows "installed st sig" "\<not> borrowed st thread"
    "notified st' = notified st @ map snd (listeners st thread sig)" "installed st' = installed st"
    "borrowed st' = borrowed st"
    "listeners st' t s = (if t = thread \<and> s = sig then [] else listeners st t s)"
proof -
  show i: "installed st sig" and b: "\<not> borrowed st thread"
    using assms by (auto simp: deliver_def signal_handler_def split: if_splits)
  consider "listeners st thread sig = []" "st' = st"
    | fds where "handler st thread sig = Some fds"
      "st' = st\<lparr>handler := (handler st)(thread := (handler st thread)(sig := Some [])),
               notified := notified st @ map snd fds\<rparr>"
    using assms i b by (cases "handler st thread sig")
      (auto simp: deliver_def signal_handler_def listeners_def split: if_splits)
  then show "notified st' = notified st @ map snd (listeners st thread sig)" "installed st' = installed st"
      "borrowed st' = borrowed st" "listeners st' t s = (if t = thread \<and> s = sig then [] else listeners st t s)"
    by (cases; simp add: listeners_Some)+
qed

lemma sig_ok_deliver: "sig_ok thread st \<Longrightarrow> deliver thread sig st = Delivered st' \<Longrightarrow> sig_ok thread st'"
  using deliver_cases by (simp add: sig_ok_def)

lemma sig_ok_reachable: "(sig_step thread)\<^sup>*\<^sup>* sig_initial st \<Longrightarrow> sig_ok thread st"
proof (induction rule: rtranclp_induct)
  case base
  show ?case by (simp add: sig_ok_def sig_initial_def listeners_def)
next
  case (step st st')
  from step.hyps(2) step.IH show ?case
    by (cases rule: sig_step.cases) (auto simp: signal_fd_drop_def intro: sig_ok_new sig_ok_unregister sig_ok_deliver)
qed



subsection \<open>Listeners of several threads\<close>

text \<open>
  A listener on one thread is lost when the last listener of another thread for the same signal
  is dropped: the disposition goes back to the default one although a thread still listens, and
  the next such signal ends the process.
\<close>

theorem unregister_disarms_other_thread:
  assumes "t \<noteq> u" "listeners st t sig = [(fd, h)]" "listeners st u sig = [(fd', h')]"
  shows "listeners (sig_unregister t sig fd st) u sig = [(fd', h')] \<and>
    deliver u sig (sig_unregister t sig fd st) = Killed"
  using assms
  by (auto simp: listeners_def sig_unregister_def sig_uninit_def deliver_def Let_def split: option.splits)

theorem unregister_disarms_other_thread_witness:
  "listeners (sig_unregister 1 2 7 (snd (sig_register 3 2 9 (Ok 10) (snd (sig_register 1 2 7 (Ok 8) sig_initial))))) 3 2 = [(9, 10)] \<and>
   deliver 3 2 (sig_unregister 1 2 7 (snd (sig_register 3 2 9 (Ok 10) (snd (sig_register 1 2 7 (Ok 8) sig_initial))))) = Killed"
  by (rule unregister_disarms_other_thread [where h = 8])
    (simp_all add: sig_register_def sig_init_def sig_initial_def listeners_def)

text \<open>A signal delivered to a thread without listeners notifies nobody.\<close>

lemma signal_to_other_thread_lost:
  "listeners st t sig = [] \<Longrightarrow> deliver t sig st = Delivered st' \<Longrightarrow> notified st' = notified st"
  by (auto simp: deliver_def signal_handler_def listeners_def split: option.splits if_splits)

text \<open>A registration that fails leaves the handler installed: the signal is swallowed from then on.\<close>

lemma failed_register_swallows_signal:
  assumes "sig_ok thread st" "listeners st thread sig = []"
  shows "\<exists>st'. deliver thread sig (snd (sig_register thread sig raw_fd (Err e) st)) = Delivered st' \<and>
    notified st' = notified st"
  using assms
  by (auto simp: sig_register_def sig_init_def deliver_def signal_handler_def listeners_def sig_ok_def
      split: option.splits)

text \<open>
  The future of \<open>signal\<close>, whatever the program did while it waited: its listener is gone when it
  ends, and the disposition of the signal is the default again when no other listener is left.
\<close>

lemma signal_ends_listening:
  assumes "signal wait thread sig (Ok fd) (Ok h) st = Some (res, st')"
  shows "fd \<notin> fst ` set (listeners st' thread sig)"
    "listeners st' thread sig = [] \<Longrightarrow> \<not> installed st' sig"
proof -
  obtain st2 where "st' = sig_unregister thread sig fd st2"
    using assms by (auto simp: signal_def signal_fd_new_def sig_register_def signal_fd_drop_def Let_def
        split: bind_splits)
  then show "fd \<notin> fst ` set (listeners st' thread sig)" "listeners st' thread sig = [] \<Longrightarrow> \<not> installed st' sig"
    by (auto simp: sig_unregister_def sig_uninit_def listeners_def Let_def AList.delete_eq image_iff
        split: option.splits if_splits)
qed

subsection \<open>Windows\<close>

text \<open>
  \<open>INIT\<close> runs \<open>init\<close> once; an error of it panics. \<open>set_handler\<close> is what \<open>SetConsoleCtrlHandler\<close>
  returns, with the last error of the thread.

  \<open>vals\<close> are the values of a slab, in the order of its iteration. A slab handed out by
  \<open>Slab::new\<close> gives its first key independently of the value.
\<close>

record 's ctrl_state =
  ctrl_handlers :: "u32 \<Rightarrow> 's option"
  ctrl_notified :: "nat list"
  ctrl_init_done :: bool

text \<open>The system call macro for a function that returns a \<open>BOOL\<close>: zero is an error.\<close>

definition syscall_BOOL :: "i32 \<times> io_error \<Rightarrow> i32 io_result" where
  "syscall_BOOL reply = (if fst reply = 0 then Err (snd reply) else Ok (fst reply))"

definition ctrl_init :: "i32 \<times> io_error \<Rightarrow> unit io_result" where
  "ctrl_init set_handler = (case syscall_BOOL set_handler of Err e \<Rightarrow> Err e | Ok _ \<Rightarrow> Ok ())"

definition ctrl_event_handler ::
  "('s, nat) slab \<Rightarrow> ('s \<Rightarrow> nat list) \<Rightarrow> u32 \<Rightarrow> 's ctrl_state \<Rightarrow> u32 \<times> 's ctrl_state" where
  "ctrl_event_handler S vals ctrltype st =
     (case ctrl_handlers st ctrltype of
        None \<Rightarrow> (0, st)
      | Some handlers \<Rightarrow>
          if vals handlers \<noteq> [] then
            (1, st\<lparr>ctrl_handlers := (ctrl_handlers st)(ctrltype := Some (slab_new S)),
                   ctrl_notified := ctrl_notified st @ vals handlers\<rparr>)
          else (0, st))"

definition ctrl_register ::
  "('s, nat) slab \<Rightarrow> u32 \<Rightarrow> nat io_result \<Rightarrow> 's ctrl_state \<Rightarrow> (usize io_result \<times> 's ctrl_state) option" where
  "ctrl_register S ctrltype handle st =
     (case handle of
        Err e \<Rightarrow> Some (Err e, st)
      | Ok h \<Rightarrow>
          do { (key, s) \<leftarrow> slab_insert S h (case ctrl_handlers st ctrltype of Some s \<Rightarrow> s | None \<Rightarrow> slab_new S);
               Some (Ok key, st\<lparr>ctrl_handlers := (ctrl_handlers st)(ctrltype := Some s)\<rparr>) })"

definition ctrl_unregister ::
  "('s, nat) slab \<Rightarrow> u32 \<Rightarrow> usize \<Rightarrow> 's ctrl_state \<Rightarrow> 's ctrl_state" where
  "ctrl_unregister S ctrltype key st =
     (case ctrl_handlers st ctrltype of
        None \<Rightarrow> st
      | Some handlers \<Rightarrow>
          (case slab_remove S key handlers of
             Some (_, s) \<Rightarrow> st\<lparr>ctrl_handlers := (ctrl_handlers st)(ctrltype := Some s)\<rparr>
           | None \<Rightarrow> st))"

record ctrl_event =
  ce_ctrltype :: u32
  ce_event :: nat
  ce_handler_key :: usize

definition ctrl_call_once :: "i32 \<times> io_error \<Rightarrow> 's ctrl_state \<Rightarrow> 's ctrl_state option" where
  "ctrl_call_once set_handler st =
     (if ctrl_init_done st then Some st
      else (case ctrl_init set_handler of
              Err e \<Rightarrow> None
            | Ok _ \<Rightarrow> Some (st\<lparr>ctrl_init_done := True\<rparr>)))"

definition ctrl_event_new ::
  "('s, nat) slab \<Rightarrow> i32 \<times> io_error \<Rightarrow> u32 \<Rightarrow> nat io_result \<Rightarrow> nat io_result \<Rightarrow> 's ctrl_state \<Rightarrow>
   (ctrl_event io_result \<times> 's ctrl_state) option" where
  "ctrl_event_new S set_handler ctrltype event handle st =
     do { st1 \<leftarrow> ctrl_call_once set_handler st;
          (case event of
             Err e \<Rightarrow> Some (Err e, st1)
           | Ok ev \<Rightarrow>
               do { (r, st') \<leftarrow> ctrl_register S ctrltype handle st1;
                    Some (case r of
                            Err e \<Rightarrow> (Err e, st')
                          | Ok key \<Rightarrow> (Ok \<lparr>ce_ctrltype = ctrltype, ce_event = ev, ce_handler_key = key\<rparr>, st')) }) }"

definition ctrl_event_wait ::
  "(nat \<Rightarrow> 's ctrl_state \<Rightarrow> (unit io_result \<times> 's ctrl_state) option) \<Rightarrow> ctrl_event \<Rightarrow> 's ctrl_state \<Rightarrow>
   (unit io_result \<times> 's ctrl_state) option" where
  "ctrl_event_wait wait c st = wait (ce_event c) st"

definition ctrl_event_drop :: "('s, nat) slab \<Rightarrow> ctrl_event \<Rightarrow> 's ctrl_state \<Rightarrow> 's ctrl_state" where
  "ctrl_event_drop S c st = ctrl_unregister S (ce_ctrltype c) (ce_handler_key c) st"

definition await_ctrl_event ::
  "('s, nat) slab \<Rightarrow> i32 \<times> io_error \<Rightarrow> (nat \<Rightarrow> 's ctrl_state \<Rightarrow> (unit io_result \<times> 's ctrl_state) option) \<Rightarrow> u32 \<Rightarrow>
   nat io_result \<Rightarrow> nat io_result \<Rightarrow> 's ctrl_state \<Rightarrow> (unit io_result \<times> 's ctrl_state) option" where
  "await_ctrl_event S set_handler wait ctrltype event handle st =
     do { (r, st1) \<leftarrow> ctrl_event_new S set_handler ctrltype event handle st;
          (case r of
             Err e \<Rightarrow> Some (Err e, st1)
           | Ok c \<Rightarrow>
               do { (res, st2) \<leftarrow> ctrl_event_wait wait c st1;
                    Some (res, ctrl_event_drop S c st2) }) }"

definition ctrl_break ::
  "('s, nat) slab \<Rightarrow> i32 \<times> io_error \<Rightarrow> (nat \<Rightarrow> 's ctrl_state \<Rightarrow> (unit io_result \<times> 's ctrl_state) option) \<Rightarrow>
   nat io_result \<Rightarrow> nat io_result \<Rightarrow> 's ctrl_state \<Rightarrow> (unit io_result \<times> 's ctrl_state) option" where
  "ctrl_break S set_handler wait = await_ctrl_event S set_handler wait 1"

definition ctrl_close ::
  "('s, nat) slab \<Rightarrow> i32 \<times> io_error \<Rightarrow> (nat \<Rightarrow> 's ctrl_state \<Rightarrow> (unit io_result \<times> 's ctrl_state) option) \<Rightarrow>
   nat io_result \<Rightarrow> nat io_result \<Rightarrow> 's ctrl_state \<Rightarrow> (unit io_result \<times> 's ctrl_state) option" where
  "ctrl_close S set_handler wait = await_ctrl_event S set_handler wait 2"

definition ctrl_c ::
  "('s, nat) slab \<Rightarrow> i32 \<times> io_error \<Rightarrow> (nat \<Rightarrow> 's ctrl_state \<Rightarrow> (unit io_result \<times> 's ctrl_state) option) \<Rightarrow>
   nat io_result \<Rightarrow> nat io_result \<Rightarrow> 's ctrl_state \<Rightarrow> (unit io_result \<times> 's ctrl_state) option" where
  "ctrl_c S set_handler wait = await_ctrl_event S set_handler wait 0"

definition ctrl_logoff ::
  "('s, nat) slab \<Rightarrow> i32 \<times> io_error \<Rightarrow> (nat \<Rightarrow> 's ctrl_state \<Rightarrow> (unit io_result \<times> 's ctrl_state) option) \<Rightarrow>
   nat io_result \<Rightarrow> nat io_result \<Rightarrow> 's ctrl_state \<Rightarrow> (unit io_result \<times> 's ctrl_state) option" where
  "ctrl_logoff S set_handler wait = await_ctrl_event S set_handler wait 5"

definition ctrl_shutdown ::
  "('s, nat) slab \<Rightarrow> i32 \<times> io_error \<Rightarrow> (nat \<Rightarrow> 's ctrl_state \<Rightarrow> (unit io_result \<times> 's ctrl_state) option) \<Rightarrow>
   nat io_result \<Rightarrow> nat io_result \<Rightarrow> 's ctrl_state \<Rightarrow> (unit io_result \<times> 's ctrl_state) option" where
  "ctrl_shutdown S set_handler wait = await_ctrl_event S set_handler wait 6"

definition slab_values_spec :: "('s, nat) slab \<Rightarrow> ('s \<Rightarrow> nat list) \<Rightarrow> bool" where
  "slab_values_spec S vals \<longleftrightarrow>
     (\<forall>s. \<exists>ks. distinct ks \<and> (\<forall>k. k \<in> set ks \<longleftrightarrow> slab_get S k s \<noteq> None) \<and>
            vals s = map (\<lambda>k. the (slab_get S k s)) ks)"

lemma slab_values_none:
  assumes "slab_values_spec S vals" "\<And>k. slab_get S k s = None"
  shows "vals s = []"
proof -
  obtain ks where "\<forall>k. k \<in> set ks \<longleftrightarrow> slab_get S k s \<noteq> None" "vals s = map (\<lambda>k. the (slab_get S k s)) ks"
    using assms(1) unfolding slab_values_spec_def by blast
  then show ?thesis using assms(2) by (cases ks) auto
qed

lemma slab_values_one:
  assumes "slab_values_spec S vals" "\<And>j. slab_get S j s = (if j = k then Some h else None)"
  shows "vals s = [h]"
proof -
  obtain ks where ks: "distinct ks" "\<forall>k. k \<in> set ks \<longleftrightarrow> slab_get S k s \<noteq> None"
      "vals s = map (\<lambda>k. the (slab_get S k s)) ks"
    using assms(1) unfolding slab_values_spec_def by blast
  then have "set ks = {k}" using assms(2) by (auto split: if_splits)
  then have "ks = [k]" using ks(1) by (cases ks; cases "tl ks") auto
  then show ?thesis using ks(3) assms(2) by simp
qed

text \<open>
  C40. A Windows listener that was notified takes the next listener down with it: the notification
  replaces the slab, the next listener gets the same key again, and dropping the first one
  removes the second, whose event is then never notified.
\<close>

theorem ctrl_drop_removes_next_listener:
  assumes "slab_spec S" "slab_values_spec S vals" "ctrl_handlers st c = None"
    and "slab_insert S h1 (slab_new S) = Some (k, s1)" "slab_insert S h2 (slab_new S) = Some (k, s2)"
    and "ctrl_register S c (Ok h1) st = Some (Ok k1, st1)"
    and "ctrl_event_handler S vals c st1 = (handled, st2)"
    and "ctrl_register S c (Ok h2) st2 = Some (Ok k2, st3)"
  shows "handled = 1 \<and> ctrl_notified st2 = ctrl_notified st @ [h1] \<and> k2 = k1 \<and>
    ctrl_event_handler S vals c (ctrl_unregister S c k1 st3) = (0, ctrl_unregister S c k1 st3)"
proof -
  note get = slab_specD [OF assms(1)]
  have st1: "k1 = k" "st1 = st\<lparr>ctrl_handlers := (ctrl_handlers st)(c := Some s1)\<rparr>"
    using assms(3,4,6) by (auto simp: ctrl_register_def)
  have one: "slab_get S j s = (if j = k then Some h else None)"
    if "slab_insert S h (slab_new S) = Some (k, s)" for j h s
    using get(2) [OF that] get(1) by simp
  have v1: "vals s1 = [h1]" by (rule slab_values_one [OF assms(2) one [OF assms(4)]])
  have st2: "handled = 1" "st2 = st1\<lparr>ctrl_handlers := (ctrl_handlers st1)(c := Some (slab_new S)),
      ctrl_notified := ctrl_notified st1 @ [h1]\<rparr>"
    using assms(7) st1(2) v1 by (auto simp: ctrl_event_handler_def)
  have st3: "k2 = k" "ctrl_handlers st3 c = Some s2"
    using assms(5,8) st2(2) by (auto simp: ctrl_register_def)
  obtain s4 where s4: "slab_remove S k s2 = Some (h2, s4)"
    using get(5) [of k s2] get(6) [of k s2] one [OF assms(5), of k] by (cases "slab_remove S k s2") auto
  have "slab_get S j s4 = None" for j using get(7) [OF s4] one [OF assms(5)] by simp
  then have "vals s4 = []" by (rule slab_values_none [OF assms(2)])
  then have "ctrl_event_handler S vals c (ctrl_unregister S c k1 st3) = (0, ctrl_unregister S c k1 st3)"
    using st3(2) st1(1) s4 by (simp add: ctrl_unregister_def ctrl_event_handler_def)
  then show ?thesis using st1 st2 st3(1) by simp
qed

text \<open>The values of the vector slab.\<close>

definition vec_values :: "nat option list \<Rightarrow> nat list" where
  "vec_values s = map the (filter (\<lambda>x. x \<noteq> None) (take (2 ^ 64) s))"

lemma vec_values_spec: "slab_values_spec vec_slab vec_values"
  unfolding slab_values_spec_def
proof (intro allI)
  fix s :: "nat option list"
  define n :: nat where "n = min (2 ^ 64) (length s)"
  define idx where "idx = filter (\<lambda>i. s ! i \<noteq> None) [0..<n]"
  have lt: "i < 2 ^ 64" "i < length s" if "i \<in> set idx" for i using that by (auto simp: idx_def n_def)
  have "distinct (map (of_nat :: nat \<Rightarrow> usize) idx)"
  proof -
    have "inj_on (of_nat :: nat \<Rightarrow> usize) (set idx)"
      by (rule inj_on_inverseI [where g = unat]) (use lt in simp)
    then show ?thesis by (simp add: distinct_map idx_def)
  qed
  moreover have "k \<in> set (map of_nat idx) \<longleftrightarrow> slab_get vec_slab k s \<noteq> None" for k :: usize
  proof
    assume "k \<in> set (map of_nat idx)"
    then obtain i where "i \<in> set idx" "k = of_nat i" by auto
    then show "slab_get vec_slab k s \<noteq> None" using lt [of i] by (simp add: vec_slab_def idx_def)
  next
    assume "slab_get vec_slab k s \<noteq> None"
    then have "unat k \<in> set idx"
      using unsigned_less [of k] by (auto simp: vec_slab_def idx_def n_def split: if_splits)
    then show "k \<in> set (map of_nat idx)" by (auto intro!: image_eqI [of _ _ "unat k"])
  qed
  moreover have "vec_values s = map (\<lambda>k. the (slab_get vec_slab k s)) (map of_nat idx)"
  proof -
    have "take (2 ^ 64) s = map ((!) s) [0..<n]" by (rule nth_equalityI) (simp_all add: n_def)
    then have "vec_values s = map (the \<circ> (!) s) idx"
      by (simp add: vec_values_def idx_def filter_map comp_def)
    moreover have "map (the \<circ> (!) s) idx = map (\<lambda>i. the (slab_get vec_slab (of_nat i) s)) idx"
      using lt by (simp add: vec_slab_def)
    ultimately show ?thesis by (simp add: comp_def)
  qed
  ultimately show "\<exists>ks. distinct ks \<and> (\<forall>k. k \<in> set ks \<longleftrightarrow> slab_get vec_slab k s \<noteq> None) \<and>
      vec_values s = map (\<lambda>k. the (slab_get vec_slab k s)) ks"
    by blast
qed

theorem ctrl_drop_removes_next_listener_witness:
  "let st = \<lparr>ctrl_handlers = (\<lambda>_. None), ctrl_notified = [], ctrl_init_done = True\<rparr>;
       st1 = st\<lparr>ctrl_handlers := (\<lambda>_. None)(0 := Some [Some 8])\<rparr>;
       st2 = st1\<lparr>ctrl_handlers := (\<lambda>_. None)(0 := Some []), ctrl_notified := [8]\<rparr>;
       st3 = st2\<lparr>ctrl_handlers := (\<lambda>_. None)(0 := Some [Some 9])\<rparr>
   in ctrl_register vec_slab 0 (Ok 8) st = Some (Ok 0, st1) \<and>
      ctrl_event_handler vec_slab vec_values 0 st1 = (1, st2) \<and>
      ctrl_register vec_slab 0 (Ok 9) st2 = Some (Ok 0, st3) \<and>
      ctrl_event_handler vec_slab vec_values 0 (ctrl_unregister vec_slab 0 0 st3) = (0, ctrl_unregister vec_slab 0 0 st3)"
proof -
  let ?st = "\<lparr>ctrl_handlers = (\<lambda>_. None), ctrl_notified = [], ctrl_init_done = True\<rparr>"
  let ?st1 = "?st\<lparr>ctrl_handlers := (\<lambda>_. None)(0 := Some [Some 8])\<rparr>"
  let ?st2 = "?st1\<lparr>ctrl_handlers := (\<lambda>_. None)(0 := Some []), ctrl_notified := [8]\<rparr>"
  let ?st3 = "?st2\<lparr>ctrl_handlers := (\<lambda>_. None)(0 := Some [Some 9])\<rparr>"
  have ins: "slab_insert vec_slab h (slab_new vec_slab) = Some (0, [Some h])" for h :: nat
    by (simp add: vec_slab_def)
  have r1: "ctrl_register vec_slab 0 (Ok 8) ?st = Some (Ok 0, ?st1)"
    by (simp add: ctrl_register_def ins)
  have e: "ctrl_event_handler vec_slab vec_values 0 ?st1 = (1, ?st2)"
    by (simp add: ctrl_event_handler_def vec_values_def vec_slab_def)
  have r2: "ctrl_register vec_slab 0 (Ok 9) ?st2 = Some (Ok 0, ?st3)"
    by (simp add: ctrl_register_def vec_slab_def)
  show ?thesis
    using ctrl_drop_removes_next_listener [OF vec_slab_spec vec_values_spec _ ins ins r1 e r2] r1 e r2
    by (simp add: Let_def)
qed

end
