(* ===== verification/Named_Pipe.thy ===== *)
theory Named_Pipe
  imports Fs_File Iocp_Op
begin

unbundle bit_operations_syntax

text \<open>
  Windows named pipes, \<open>src/named_pipe.rs\<close>: the options of servers and clients, the words they are
  translated to for the Windows API, and the answer about an existing pipe. The API calls are
  parameters. Addresses are the already converted wide strings, or nothing when the conversion
  fails; security attributes are a pointer, 0 when there are none. \<open>NamedPipeServer\<close> and
  \<open>NamedPipeClient\<close> have a file as their only field and are identified with it.
\<close>

subsection \<open>Constants of the Windows API\<close>

definition PIPE_ACCESS_INBOUND :: u32 where "PIPE_ACCESS_INBOUND = 1"
definition PIPE_ACCESS_OUTBOUND :: u32 where "PIPE_ACCESS_OUTBOUND = 2"
definition FILE_FLAG_OVERLAPPED :: u32 where "FILE_FLAG_OVERLAPPED = 0x40000000"
definition FILE_FLAG_FIRST_PIPE_INSTANCE :: u32 where "FILE_FLAG_FIRST_PIPE_INSTANCE = 0x80000"
definition WRITE_DAC :: u32 where "WRITE_DAC = 0x40000"
definition WRITE_OWNER :: u32 where "WRITE_OWNER = 0x80000"
definition ACCESS_SYSTEM_SECURITY :: u32 where "ACCESS_SYSTEM_SECURITY = 0x1000000"
definition PIPE_TYPE_BYTE :: u32 where "PIPE_TYPE_BYTE = 0"
definition PIPE_TYPE_MESSAGE :: u32 where "PIPE_TYPE_MESSAGE = 4"
definition PIPE_READMODE_BYTE :: u32 where "PIPE_READMODE_BYTE = 0"
definition PIPE_READMODE_MESSAGE :: u32 where "PIPE_READMODE_MESSAGE = 2"
definition PIPE_ACCEPT_REMOTE_CLIENTS :: u32 where "PIPE_ACCEPT_REMOTE_CLIENTS = 0"
definition PIPE_REJECT_REMOTE_CLIENTS :: u32 where "PIPE_REJECT_REMOTE_CLIENTS = 8"
definition PIPE_SERVER_END :: u32 where "PIPE_SERVER_END = 1"
definition PIPE_UNLIMITED_INSTANCES :: u32 where "PIPE_UNLIMITED_INSTANCES = 255"
definition GENERIC_READ :: u32 where "GENERIC_READ = 0x80000000"
definition GENERIC_WRITE :: u32 where "GENERIC_WRITE = 0x40000000"
definition SECURITY_IDENTIFICATION :: u32 where "SECURITY_IDENTIFICATION = 0x10000"
definition SECURITY_SQOS_PRESENT :: u32 where "SECURITY_SQOS_PRESENT = 0x100000"

lemmas pipe_constants =
  PIPE_ACCESS_INBOUND_def PIPE_ACCESS_OUTBOUND_def FILE_FLAG_OVERLAPPED_def FILE_FLAG_FIRST_PIPE_INSTANCE_def
  WRITE_DAC_def WRITE_OWNER_def ACCESS_SYSTEM_SECURITY_def PIPE_TYPE_BYTE_def PIPE_TYPE_MESSAGE_def
  PIPE_READMODE_BYTE_def PIPE_READMODE_MESSAGE_def PIPE_ACCEPT_REMOTE_CLIENTS_def PIPE_REJECT_REMOTE_CLIENTS_def
  PIPE_SERVER_END_def PIPE_UNLIMITED_INSTANCES_def GENERIC_READ_def GENERIC_WRITE_def
  SECURITY_IDENTIFICATION_def SECURITY_SQOS_PRESENT_def

subsection \<open>Servers\<close>

datatype pipe_mode = ByteMode | MessageMode

datatype pipe_end = ClientEnd | ServerEnd

record server_options =
  access_inbound :: bool
  access_outbound :: bool
  first_pipe_instance :: bool
  write_dac :: bool
  write_owner :: bool
  access_system_security :: bool
  server_pipe_mode :: pipe_mode
  reject_remote_clients :: bool
  max_instances :: u32
  out_buffer_size :: u32
  in_buffer_size :: u32
  default_timeout :: u32

definition server_options_new :: server_options where
  "server_options_new =
     \<lparr>access_inbound = True, access_outbound = True, first_pipe_instance = False, write_dac = False,
      write_owner = False, access_system_security = False, server_pipe_mode = ByteMode,
      reject_remote_clients = True, max_instances = PIPE_UNLIMITED_INSTANCES, out_buffer_size = 65536,
      in_buffer_size = 65536, default_timeout = 0\<rparr>"

definition server_options_default :: server_options where
  "server_options_default = server_options_new"

definition set_server_pipe_mode :: "pipe_mode \<Rightarrow> server_options \<Rightarrow> server_options" where
  "set_server_pipe_mode pipe_mode o1 = o1\<lparr>server_pipe_mode := pipe_mode\<rparr>"

definition set_access_inbound :: "bool \<Rightarrow> server_options \<Rightarrow> server_options" where
  "set_access_inbound allowed o1 = o1\<lparr>access_inbound := allowed\<rparr>"

definition set_access_outbound :: "bool \<Rightarrow> server_options \<Rightarrow> server_options" where
  "set_access_outbound allowed o1 = o1\<lparr>access_outbound := allowed\<rparr>"

definition set_first_pipe_instance :: "bool \<Rightarrow> server_options \<Rightarrow> server_options" where
  "set_first_pipe_instance first o1 = o1\<lparr>first_pipe_instance := first\<rparr>"

definition set_write_dac :: "bool \<Rightarrow> server_options \<Rightarrow> server_options" where
  "set_write_dac requested o1 = o1\<lparr>write_dac := requested\<rparr>"

definition set_write_owner :: "bool \<Rightarrow> server_options \<Rightarrow> server_options" where
  "set_write_owner requested o1 = o1\<lparr>write_owner := requested\<rparr>"

definition set_access_system_security :: "bool \<Rightarrow> server_options \<Rightarrow> server_options" where
  "set_access_system_security requested o1 = o1\<lparr>access_system_security := requested\<rparr>"

definition set_reject_remote_clients :: "bool \<Rightarrow> server_options \<Rightarrow> server_options" where
  "set_reject_remote_clients reject o1 = o1\<lparr>reject_remote_clients := reject\<rparr>"

definition set_out_buffer_size :: "u32 \<Rightarrow> server_options \<Rightarrow> server_options" where
  "set_out_buffer_size buffer o1 = o1\<lparr>out_buffer_size := buffer\<rparr>"

definition set_in_buffer_size :: "u32 \<Rightarrow> server_options \<Rightarrow> server_options" where
  "set_in_buffer_size buffer o1 = o1\<lparr>in_buffer_size := buffer\<rparr>"

definition set_max_instances :: "usize \<Rightarrow> server_options \<Rightarrow> server_options option" where
  "set_max_instances instances o1 =
     (if instances < 255 then Some (o1\<lparr>max_instances := ucast instances\<rparr>) else None)"

definition or_if :: "bool \<Rightarrow> u32 \<Rightarrow> u32 \<Rightarrow> u32" where
  "or_if b flag mode = (if b then mode OR flag else mode)"

definition server_pipe_bits :: "server_options \<Rightarrow> u32" where
  "server_pipe_bits o1 =
     (let mode = (if server_pipe_mode o1 = MessageMode then PIPE_TYPE_MESSAGE OR PIPE_READMODE_MESSAGE
                  else PIPE_TYPE_BYTE OR PIPE_READMODE_BYTE)
      in if reject_remote_clients o1 then mode OR PIPE_REJECT_REMOTE_CLIENTS
         else mode OR PIPE_ACCEPT_REMOTE_CLIENTS)"

definition server_open_bits :: "server_options \<Rightarrow> u32" where
  "server_open_bits o1 =
     (let mode = FILE_FLAG_OVERLAPPED;
          mode = or_if (access_inbound o1) PIPE_ACCESS_INBOUND mode;
          mode = or_if (access_outbound o1) PIPE_ACCESS_OUTBOUND mode;
          mode = or_if (first_pipe_instance o1) FILE_FLAG_FIRST_PIPE_INSTANCE mode;
          mode = or_if (write_dac o1) WRITE_DAC mode;
          mode = or_if (write_owner o1) WRITE_OWNER mode;
          mode = or_if (access_system_security o1) ACCESS_SYSTEM_SECURITY mode
      in mode)"

text \<open>
  The API calls: \<open>CreateNamedPipeW\<close> with its six words and the attributes, \<open>CreateFileW\<close>,
  \<open>SetNamedPipeHandleState\<close>, \<open>DisconnectNamedPipe\<close> and \<open>GetNamedPipeInfo\<close>; failing calls give the last error.
\<close>

record ('raw, 'w) pipe_api =
  create_named_pipe :: "16 word list \<Rightarrow> u32 \<Rightarrow> u32 \<Rightarrow> u32 \<Rightarrow> u32 \<Rightarrow> u32 \<Rightarrow> u32 \<Rightarrow> nat \<Rightarrow> 'w \<Rightarrow> 'raw io_result \<times> 'w"
  create_file :: "16 word list \<Rightarrow> u32 \<Rightarrow> nat \<Rightarrow> u32 \<Rightarrow> 'w \<Rightarrow> 'raw io_result \<times> 'w"
  set_pipe_state :: "'raw \<Rightarrow> u32 \<Rightarrow> 'w \<Rightarrow> unit io_result \<times> 'w"
  disconnect_named_pipe :: "'raw \<Rightarrow> 'w \<Rightarrow> unit io_result \<times> 'w"
  close_pipe_handle :: "'raw \<Rightarrow> 'w \<Rightarrow> 'w"
  get_pipe_info :: "'raw \<Rightarrow> 'w \<Rightarrow> (u32 \<times> u32 \<times> u32 \<times> u32) io_result"

definition invalid_address :: io_error where
  "invalid_address = Custom InvalidData ''nul value''"

definition pipe_from_handle :: "'raw \<Rightarrow> ('raw, 'f) fs_file" where
  "pipe_from_handle h = \<lparr>file_inner = h, file_attacher = attacher_new\<rparr>"

definition server_create_with_security_attributes_raw ::
  "('raw, 'w) pipe_api \<Rightarrow> server_options \<Rightarrow> 16 word list option \<Rightarrow> nat \<Rightarrow> 'w \<Rightarrow> ('raw, 'f) fs_file io_result \<times> 'w" where
  "server_create_with_security_attributes_raw A o1 addr attrs w =
     (case addr of
        None \<Rightarrow> (Err invalid_address, w)
      | Some name \<Rightarrow>
          (case create_named_pipe A name (server_open_bits o1) (server_pipe_bits o1) (max_instances o1)
                  (out_buffer_size o1) (in_buffer_size o1) (default_timeout o1) attrs w of
             (Err e, w') \<Rightarrow> (Err e, w')
           | (Ok h, w') \<Rightarrow> (Ok (pipe_from_handle h), w')))"

definition server_create ::
  "('raw, 'w) pipe_api \<Rightarrow> server_options \<Rightarrow> 16 word list option \<Rightarrow> 'w \<Rightarrow> ('raw, 'f) fs_file io_result \<times> 'w" where
  "server_create A o1 addr w = server_create_with_security_attributes_raw A o1 addr 0 w"

subsection \<open>Clients\<close>

record client_options =
  generic_read :: bool
  generic_write :: bool
  qos_flags :: u32
  client_pipe_mode :: pipe_mode

definition client_options_new :: client_options where
  "client_options_new =
     \<lparr>generic_read = True, generic_write = True, qos_flags = SECURITY_IDENTIFICATION OR SECURITY_SQOS_PRESENT,
      client_pipe_mode = ByteMode\<rparr>"

definition set_generic_read :: "bool \<Rightarrow> client_options \<Rightarrow> client_options" where
  "set_generic_read allowed o1 = o1\<lparr>generic_read := allowed\<rparr>"

definition set_generic_write :: "bool \<Rightarrow> client_options \<Rightarrow> client_options" where
  "set_generic_write allowed o1 = o1\<lparr>generic_write := allowed\<rparr>"

definition set_client_pipe_mode :: "pipe_mode \<Rightarrow> client_options \<Rightarrow> client_options" where
  "set_client_pipe_mode pipe_mode o1 = o1\<lparr>client_pipe_mode := pipe_mode\<rparr>"

definition set_security_qos_flags :: "u32 \<Rightarrow> client_options \<Rightarrow> client_options" where
  "set_security_qos_flags flags o1 = o1\<lparr>qos_flags := flags OR SECURITY_SQOS_PRESENT\<rparr>"

definition client_access_bits :: "client_options \<Rightarrow> u32" where
  "client_access_bits o1 = or_if (generic_write o1) GENERIC_WRITE (or_if (generic_read o1) GENERIC_READ 0)"

definition get_flags :: "client_options \<Rightarrow> u32" where
  "get_flags o1 = qos_flags o1 OR FILE_FLAG_OVERLAPPED"

text \<open>The handle of a client whose read mode cannot be set is dropped.\<close>

definition client_open_with_security_attributes_raw ::
  "('raw, 'w) pipe_api \<Rightarrow> client_options \<Rightarrow> 16 word list option \<Rightarrow> nat \<Rightarrow> 'w \<Rightarrow> ('raw, 'f) fs_file io_result \<times> 'w" where
  "client_open_with_security_attributes_raw A o1 addr attrs w =
     (case addr of
        None \<Rightarrow> (Err invalid_address, w)
      | Some name \<Rightarrow>
          (case create_file A name (client_access_bits o1) attrs (get_flags o1) w of
             (Err e, w') \<Rightarrow> (Err e, w')
           | (Ok h, w1) \<Rightarrow>
               if client_pipe_mode o1 = MessageMode then
                 (case set_pipe_state A h PIPE_READMODE_MESSAGE w1 of
                    (Err e, w') \<Rightarrow> (Err e, close_pipe_handle A h w')
                  | (Ok _, w') \<Rightarrow> (Ok (pipe_from_handle h), w'))
               else (Ok (pipe_from_handle h), w1)))"

definition client_open ::
  "('raw, 'w) pipe_api \<Rightarrow> client_options \<Rightarrow> 16 word list option \<Rightarrow> 'w \<Rightarrow> ('raw, 'f) fs_file io_result \<times> 'w" where
  "client_open A o1 addr w = client_open_with_security_attributes_raw A o1 addr 0 w"

subsection \<open>Information about a pipe\<close>

record pipe_info =
  info_mode :: pipe_mode
  info_end :: pipe_end
  info_max_instances :: u32
  info_out_buffer_size :: u32
  info_in_buffer_size :: u32

definition named_pipe_info :: "('raw, 'w) pipe_api \<Rightarrow> 'raw \<Rightarrow> 'w \<Rightarrow> pipe_info io_result" where
  "named_pipe_info A handle w =
     (case get_pipe_info A handle w of
        Err e \<Rightarrow> Err e
      | Ok (flags, out_size, in_size, instances) \<Rightarrow>
          Ok \<lparr>info_mode = (if flags AND PIPE_TYPE_MESSAGE \<noteq> 0 then MessageMode else ByteMode),
              info_end = (if flags AND PIPE_SERVER_END \<noteq> 0 then ServerEnd else ClientEnd),
              info_max_instances = instances, info_out_buffer_size = out_size, info_in_buffer_size = in_size\<rparr>)"

subsection \<open>Using a pipe\<close>

text \<open>
  The transfers are those of files at position 0. Submitting a \<open>ConnectNamedPipe\<close> and awaiting its
  future is the argument \<open>await_connect_pipe\<close>.
\<close>

definition server_try_clone ::
  "('raw, 'f, 'fd, 'w) file_env \<Rightarrow> ('raw, 'f) fs_file \<Rightarrow> 'w \<Rightarrow> ('raw, 'f) fs_file io_result \<times> 'w" where
  "server_try_clone E f w =
     (case file_try_clone E f w of (Err e, w') \<Rightarrow> (Err e, w') | (Ok f', w') \<Rightarrow> (Ok f', w'))"

definition server_info :: "('raw, 'w) pipe_api \<Rightarrow> ('raw, 'f) fs_file \<Rightarrow> 'w \<Rightarrow> pipe_info io_result" where
  "server_info A f w = named_pipe_info A (file_inner f) w"

definition server_read ::
  "('raw, 'f, 'fd, 'w) file_env \<Rightarrow> ('raw, 'f) fs_file \<Rightarrow> iobuf \<Rightarrow> 'w \<Rightarrow> (usize, 'raw, 'f, 'w) file_result" where
  "server_read E f buffer w = file_read_at E f buffer 0 w"

definition server_read_exact ::
  "('raw, 'f, 'fd, 'w) file_env \<Rightarrow> ('raw, 'f) fs_file \<Rightarrow> iobuf \<Rightarrow> 'w \<Rightarrow> (nat, 'raw, 'f, 'w) file_result" where
  "server_read_exact E f buffer w = file_read_exact_at E f buffer 0 w"

definition server_write ::
  "('raw, 'f, 'fd, 'w) file_env \<Rightarrow> ('raw, 'f) fs_file \<Rightarrow> iobuf \<Rightarrow> 'w \<Rightarrow> (usize io_result \<times> iobuf) \<times> ('raw, 'f) fs_file \<times> 'w" where
  "server_write E f buffer w = file_write_at E f buffer 0 w"

definition server_write_all ::
  "('raw, 'f, 'fd, 'w) file_env \<Rightarrow> ('raw, 'f) fs_file \<Rightarrow> iobuf \<Rightarrow> 'w \<Rightarrow> (nat, 'raw, 'f, 'w) file_result option" where
  "server_write_all E f buffer w = file_write_all_at E f buffer 0 w"

definition server_connect ::
  "('raw, win_fd, 'fd, 'w) file_env \<Rightarrow>
   (connect_named_pipe_op \<Rightarrow> 'w \<Rightarrow> (usize io_result \<times> connect_named_pipe_op) \<times> 'w) \<Rightarrow> ('raw, win_fd) fs_file \<Rightarrow> 'w \<Rightarrow>
   unit io_result \<times> ('raw, win_fd) fs_file \<times> 'w" where
  "server_connect E await_connect_pipe f w =
     (case file_attach E f w of
        (Err e, f', w') \<Rightarrow> (Err e, f', w')
      | (Ok fd, f', w1) \<Rightarrow>
          (let ((res, _), w') = await_connect_pipe (connect_named_pipe_new fd) w1
           in (case res of Err e \<Rightarrow> Err e | Ok _ \<Rightarrow> Ok (), f', w')))"

definition server_disconnect :: "('raw, 'w) pipe_api \<Rightarrow> ('raw, 'f) fs_file \<Rightarrow> 'w \<Rightarrow> unit io_result \<times> 'w" where
  "server_disconnect A f w =
     (case disconnect_named_pipe A (file_inner f) w of (Err e, w') \<Rightarrow> (Err e, w') | (Ok _, w') \<Rightarrow> (Ok (), w'))"

definition client_try_clone ::
  "('raw, 'f, 'fd, 'w) file_env \<Rightarrow> ('raw, 'f) fs_file \<Rightarrow> 'w \<Rightarrow> ('raw, 'f) fs_file io_result \<times> 'w" where
  "client_try_clone E f w =
     (case file_try_clone E f w of (Err e, w') \<Rightarrow> (Err e, w') | (Ok f', w') \<Rightarrow> (Ok f', w'))"

definition client_info :: "('raw, 'w) pipe_api \<Rightarrow> ('raw, 'f) fs_file \<Rightarrow> 'w \<Rightarrow> pipe_info io_result" where
  "client_info A f w = named_pipe_info A (file_inner f) w"

definition client_read ::
  "('raw, 'f, 'fd, 'w) file_env \<Rightarrow> ('raw, 'f) fs_file \<Rightarrow> iobuf \<Rightarrow> 'w \<Rightarrow> (usize, 'raw, 'f, 'w) file_result" where
  "client_read E f buffer w = file_read_at E f buffer 0 w"

definition client_read_exact ::
  "('raw, 'f, 'fd, 'w) file_env \<Rightarrow> ('raw, 'f) fs_file \<Rightarrow> iobuf \<Rightarrow> 'w \<Rightarrow> (nat, 'raw, 'f, 'w) file_result" where
  "client_read_exact E f buffer w = file_read_exact_at E f buffer 0 w"

definition client_write ::
  "('raw, 'f, 'fd, 'w) file_env \<Rightarrow> ('raw, 'f) fs_file \<Rightarrow> iobuf \<Rightarrow> 'w \<Rightarrow> (usize io_result \<times> iobuf) \<times> ('raw, 'f) fs_file \<times> 'w" where
  "client_write E f buffer w = file_write_at E f buffer 0 w"

definition client_write_all ::
  "('raw, 'f, 'fd, 'w) file_env \<Rightarrow> ('raw, 'f) fs_file \<Rightarrow> iobuf \<Rightarrow> 'w \<Rightarrow> (nat, 'raw, 'f, 'w) file_result option" where
  "client_write_all E f buffer w = file_write_all_at E f buffer 0 w"

subsection \<open>Properties\<close>

text \<open>
  What is relied on: a created pipe remembers its mode and its sizes, and the system reports them
  with the flags of the end that is asked.
\<close>

definition reports_created :: "('raw, 'w) pipe_api \<Rightarrow> bool" where
  "reports_created A \<longleftrightarrow>
     (\<forall>name open_bits pipe_bits instances out_size in_size timeout attrs w h w'.
        create_named_pipe A name open_bits pipe_bits instances out_size in_size timeout attrs w = (Ok h, w') \<longrightarrow>
        get_pipe_info A h w' =
          Ok ((pipe_bits AND PIPE_TYPE_MESSAGE) OR PIPE_SERVER_END, out_size, in_size, instances))"

text \<open>
  What a server says about its pipe is what it was created with: the mode, the number of
  instances and the sizes of both buffers survive the translation to the words of the system and
  back, and the end is the server's.
\<close>

theorem pipe_info_roundtrip:
  assumes "reports_created A" "server_create A o1 addr w = (Ok f, w')"
  shows "named_pipe_info A (file_inner f) w' =
    Ok \<lparr>info_mode = server_pipe_mode o1, info_end = ServerEnd, info_max_instances = max_instances o1,
        info_out_buffer_size = out_buffer_size o1, info_in_buffer_size = in_buffer_size o1\<rparr>"
proof -
  obtain name h where h: "create_named_pipe A name (server_open_bits o1) (server_pipe_bits o1) (max_instances o1)
        (out_buffer_size o1) (in_buffer_size o1) (default_timeout o1) 0 w = (Ok h, w')" "f = pipe_from_handle h"
    using assms(2) by (auto simp: server_create_def server_create_with_security_attributes_raw_def split: option.splits prod.splits sum.splits)
  have "get_pipe_info A h w' = Ok ((server_pipe_bits o1 AND PIPE_TYPE_MESSAGE) OR PIPE_SERVER_END,
      out_buffer_size o1, in_buffer_size o1, max_instances o1)"
    using assms(1) h(1) unfolding reports_created_def by (elim allE impE)
  then show ?thesis using h(2)
    by (cases "server_pipe_mode o1"; cases "reject_remote_clients o1")
      (simp_all add: named_pipe_info_def pipe_from_handle_def server_pipe_bits_def pipe_constants)
qed

definition sample_pipes :: "(nat, u32 \<times> u32 \<times> u32 \<times> u32) pipe_api" where
  "sample_pipes =
     \<lparr>create_named_pipe = (\<lambda>name ob pb n out_size in_size timeout attrs w.
        (Ok 4, ((pb AND PIPE_TYPE_MESSAGE) OR PIPE_SERVER_END, out_size, in_size, n))),
      create_file = (\<lambda>name access attrs flags w. (Ok 5, w)),
      set_pipe_state = (\<lambda>h mode w. (Ok (), w)),
      disconnect_named_pipe = (\<lambda>h w. (Ok (), w)),
      close_pipe_handle = (\<lambda>h w. w),
      get_pipe_info = (\<lambda>h w. Ok w)\<rparr>"

theorem pipe_info_roundtrip_witness:
  "named_pipe_info sample_pipes 4 (PIPE_TYPE_MESSAGE OR PIPE_SERVER_END, 65536, 65536, 255) =
     Ok \<lparr>info_mode = MessageMode, info_end = ServerEnd, info_max_instances = 255,
         info_out_buffer_size = 65536, info_in_buffer_size = 65536\<rparr>"
proof -
  let ?o = "server_options_new\<lparr>server_pipe_mode := MessageMode\<rparr>"
  have "reports_created sample_pipes" by (simp add: reports_created_def sample_pipes_def)
  moreover have "server_create sample_pipes ?o (Some [65]) (0, 0, 0, 0) =
      (Ok (pipe_from_handle 4 :: (nat, nat) fs_file), (PIPE_TYPE_MESSAGE OR PIPE_SERVER_END, 65536, 65536, 255))"
    by (simp add: server_create_def server_create_with_security_attributes_raw_def sample_pipes_def server_pipe_bits_def server_options_new_def pipe_constants)
  ultimately show ?thesis
    using pipe_info_roundtrip [of sample_pipes ?o "Some [65]" "(0, 0, 0, 0)" "pipe_from_handle 4 :: (nat, nat) fs_file"]
    by (simp add: pipe_from_handle_def server_options_new_def PIPE_UNLIMITED_INSTANCES_def)
qed

text \<open>The directions of a server can be read off its open mode, whatever else was requested.\<close>

lemma server_directions:
  "server_open_bits o1 AND PIPE_ACCESS_INBOUND \<noteq> 0 \<longleftrightarrow> access_inbound o1"
  "server_open_bits o1 AND PIPE_ACCESS_OUTBOUND \<noteq> 0 \<longleftrightarrow> access_outbound o1"
  by (simp_all add: server_open_bits_def or_if_def pipe_constants Let_def bit.conj_disj_distrib2)

text \<open>
  Requesting the permission to change the owner is the same word as requesting the first instance:
  the two flags of the system share a bit.
\<close>

lemma write_owner_is_first_instance:
  "server_open_bits (o1\<lparr>write_owner := True, first_pipe_instance := False\<rparr>) =
   server_open_bits (o1\<lparr>write_owner := False, first_pipe_instance := True\<rparr>)"
  by (cases "write_dac o1") (simp_all add: server_open_bits_def or_if_def pipe_constants Let_def or.assoc)

text \<open>Numbers of instances are bounded and kept by the narrowing cast.\<close>

lemma set_max_instances_bounds:
  "set_max_instances n o1 = (if unat n < 255 then Some (o1\<lparr>max_instances := of_nat (unat n)\<rparr>) else None)"
  by (simp add: set_max_instances_def word_less_nat_alt)

end
