(* ===== verification/Event.thy ===== *)
theory Event
  imports Unix_Op
begin

text \<open>
  Events on the unix systems, \<open>src/event/eventfd.rs\<close> and \<open>src/event/pipe.rs\<close>: a future that waits
  for \<open>notify\<close> through a descriptor. The system calls, attaching to the runtime and submitting a
  read and awaiting it are parameters; a read that never completes is \<open>None\<close>. Dropping an owned
  descriptor closes it. On Windows an event is a dummy operation of the runtime.
\<close>

subsection \<open>Waiting and notifying\<close>

record ('raw, 'f, 'fd, 'w) event_env =
  ev_attach :: "'raw \<Rightarrow> 'w \<Rightarrow> 'f io_result \<times> 'w"
  ev_into :: "'f \<Rightarrow> 'fd"
  ev_await_read :: "'fd read_op \<Rightarrow> 'w \<Rightarrow> ((usize io_result \<times> 'fd read_op) \<times> 'w) option"
  ev_write :: "'raw \<Rightarrow> u8 list \<Rightarrow> 'w \<Rightarrow> usize io_result \<times> 'w"

text \<open>An empty \<open>ArrayVec\<close> at some address.\<close>

definition array_vec :: "nat \<Rightarrow> nat \<Rightarrow> iobuf" where
  "array_vec p n = Raw \<lparr>raw_kind = ArrayVec, raw_ptr = p, raw_mem = replicate n 0, raw_len = 0\<rparr>"

definition wait_with ::
  "('raw, 'f, 'fd, 'w) event_env \<Rightarrow> iobuf \<Rightarrow> 'raw \<Rightarrow> 'w \<Rightarrow> (unit io_result \<times> 'w) option" where
  "wait_with E buffer raw w =
     (case ev_attach E raw w of
        (Err e, w') \<Rightarrow> Some (Err e, w')
      | (Ok fd, w1) \<Rightarrow>
          (case ev_await_read E (read_new (ev_into E) fd buffer) w1 of
             None \<Rightarrow> None
           | Some ((Err e, _), w') \<Rightarrow> Some (Err e, w')
           | Some ((Ok _, _), w') \<Rightarrow> Some (Ok (), w')))"

definition eventfd_wait ::
  "('raw, 'f, 'fd, 'w) event_env \<Rightarrow> nat \<Rightarrow> 'raw \<Rightarrow> 'w \<Rightarrow> (unit io_result \<times> 'w) option" where
  "eventfd_wait E p raw w = wait_with E (array_vec p 8) raw w"

definition pipe_wait ::
  "('raw, 'f, 'fd, 'w) event_env \<Rightarrow> nat \<Rightarrow> 'raw \<Rightarrow> 'w \<Rightarrow> (unit io_result \<times> 'w) option" where
  "pipe_wait E p receiver w = wait_with E (array_vec p 1) receiver w"

text \<open>The bytes of \<open>1u64\<close> in the order of the machine (little endian).\<close>

definition eventfd_notify :: "('raw, 'f, 'fd, 'w) event_env \<Rightarrow> 'raw \<Rightarrow> 'w \<Rightarrow> unit io_result \<times> 'w" where
  "eventfd_notify E raw w =
     (case ev_write E raw [1, 0, 0, 0, 0, 0, 0, 0] w of (Err e, w') \<Rightarrow> (Err e, w') | (Ok _, w') \<Rightarrow> (Ok (), w'))"

definition pipe_notify :: "('raw, 'f, 'fd, 'w) event_env \<Rightarrow> 'raw \<Rightarrow> 'w \<Rightarrow> unit io_result \<times> 'w" where
  "pipe_notify E sender w =
     (case ev_write E sender [1] w of (Err e, w') \<Rightarrow> (Err e, w') | (Ok _, w') \<Rightarrow> (Ok (), w'))"

fun notifies :: "nat \<Rightarrow> ('w \<Rightarrow> unit io_result \<times> 'w) \<Rightarrow> 'w \<Rightarrow> 'w" where
  "notifies 0 f w = w"
| "notifies (Suc n) f w = notifies n f (snd (f w))"

fun waits :: "nat \<Rightarrow> ('w \<Rightarrow> (unit io_result \<times> 'w) option) \<Rightarrow> 'w \<Rightarrow> 'w option" where
  "waits 0 f w = Some w"
| "waits (Suc n) f w =
     (case f w of Some (Ok _, w') \<Rightarrow> waits n f w' | _ \<Rightarrow> None)"

subsection \<open>The two kinds of events\<close>

text \<open>
  The documented semantics of the descriptors. \<open>cnt\<close> is the counter of an eventfd, or the number
  of bytes in a pipe. Writing a 64-bit integer adds it to the counter; a read of at least eight
  bytes completes when the counter is not zero and resets it. A read of one byte from a pipe takes
  one byte.
\<close>

definition eventfd_spec ::
  "('raw, 'f, 'fd, 'w) event_env \<Rightarrow> 'raw \<Rightarrow> 'f \<Rightarrow> ('w \<Rightarrow> nat) \<Rightarrow> nat \<Rightarrow> bool" where
  "eventfd_spec E raw f cnt bound \<longleftrightarrow>
     (\<forall>w. ev_attach E raw w = (Ok f, w)) \<and>
     (\<forall>w. cnt w < bound \<longrightarrow>
        (\<exists>w'. ev_write E raw [1, 0, 0, 0, 0, 0, 0, 0] w = (Ok 8, w') \<and> cnt w' = Suc (cnt w))) \<and>
     (\<forall>op w a k. read_fd op = ev_into E f \<and> as_uninit_slice (read_buffer op) = Some (a, k) \<and> 8 \<le> k \<longrightarrow>
        (if cnt w = 0 then ev_await_read E op w = None
         else \<exists>op' w'. ev_await_read E op w = Some ((Ok 8, op'), w') \<and> cnt w' = 0))"

definition pipe_spec ::
  "('raw, 'f, 'fd, 'w) event_env \<Rightarrow> 'raw \<Rightarrow> 'raw \<Rightarrow> 'f \<Rightarrow> ('w \<Rightarrow> nat) \<Rightarrow> nat \<Rightarrow> bool" where
  "pipe_spec E sender receiver f cnt bound \<longleftrightarrow>
     (\<forall>w. ev_attach E receiver w = (Ok f, w)) \<and>
     (\<forall>w. cnt w < bound \<longrightarrow> (\<exists>w'. ev_write E sender [1] w = (Ok 1, w') \<and> cnt w' = Suc (cnt w))) \<and>
     (\<forall>op w a. read_fd op = ev_into E f \<and> as_uninit_slice (read_buffer op) = Some (a, 1) \<longrightarrow>
        (if cnt w = 0 then ev_await_read E op w = None
         else \<exists>op' w'. ev_await_read E op w = Some ((Ok 1, op'), w') \<and> cnt w' = cnt w - 1))"

lemma array_vec_uninit: "as_uninit_slice (array_vec p n) = Some (p, n)"
  by (simp add: array_vec_def as_uninit_slice_def raw_capacity_def)

lemma eventfd_wait_step:
  assumes "eventfd_spec E raw f cnt bound"
  shows "if cnt w = 0 then eventfd_wait E p raw w = None
    else \<exists>w'. eventfd_wait E p raw w = Some (Ok (), w') \<and> cnt w' = 0"
proof -
  let ?op = "read_new (ev_into E) f (array_vec p 8)"
  have "read_fd ?op = ev_into E f \<and> as_uninit_slice (read_buffer ?op) = Some (p, 8) \<and> (8 :: nat) \<le> 8"
    by (simp add: read_new_def array_vec_uninit)
  then have r: "if cnt w = 0 then ev_await_read E ?op w = None
      else \<exists>op' w'. ev_await_read E ?op w = Some ((Ok 8, op'), w') \<and> cnt w' = 0"
    using assms unfolding eventfd_spec_def by blast
  have "ev_attach E raw w = (Ok f, w)" using assms by (simp add: eventfd_spec_def)
  with r show ?thesis by (auto simp: eventfd_wait_def wait_with_def split: if_splits)
qed

lemma pipe_wait_step:
  assumes "pipe_spec E sender receiver f cnt bound"
  shows "if cnt w = 0 then pipe_wait E p receiver w = None
    else \<exists>w'. pipe_wait E p receiver w = Some (Ok (), w') \<and> cnt w' = cnt w - 1"
proof -
  let ?op = "read_new (ev_into E) f (array_vec p 1)"
  have "read_fd ?op = ev_into E f \<and> as_uninit_slice (read_buffer ?op) = Some (p, 1)"
    by (simp add: read_new_def array_vec_uninit)
  then have r: "if cnt w = 0 then ev_await_read E ?op w = None
      else \<exists>op' w'. ev_await_read E ?op w = Some ((Ok 1, op'), w') \<and> cnt w' = cnt w - 1"
    using assms unfolding pipe_spec_def by blast
  have "ev_attach E receiver w = (Ok f, w)" using assms by (simp add: pipe_spec_def)
  with r show ?thesis by (auto simp: pipe_wait_def wait_with_def split: if_splits)
qed

lemma eventfd_notifies:
  assumes "eventfd_spec E raw f cnt bound" "cnt w + n \<le> bound"
  shows "cnt (notifies n (eventfd_notify E raw) w) = cnt w + n"
  using assms(2)
proof (induction n arbitrary: w)
  case (Suc n)
  have "cnt w < bound" using Suc.prems by simp
  then obtain w' where w': "ev_write E raw [1, 0, 0, 0, 0, 0, 0, 0] w = (Ok 8, w')" "cnt w' = Suc (cnt w)"
    using assms(1) unfolding eventfd_spec_def by blast
  then show ?case using Suc.IH [of w'] Suc.prems by (simp add: eventfd_notify_def)
qed simp

lemma pipe_notifies:
  assumes "pipe_spec E sender receiver f cnt bound" "cnt w + n \<le> bound"
  shows "cnt (notifies n (pipe_notify E sender) w) = cnt w + n"
  using assms(2)
proof (induction n arbitrary: w)
  case (Suc n)
  have "cnt w < bound" using Suc.prems by simp
  then obtain w' where w': "ev_write E sender [1] w = (Ok 1, w')" "cnt w' = Suc (cnt w)"
    using assms(1) unfolding pipe_spec_def by blast
  then show ?case using Suc.IH [of w'] Suc.prems by (simp add: pipe_notify_def)
qed simp

lemma pipe_waits:
  assumes "pipe_spec E sender receiver f cnt bound"
  shows "(\<exists>w'. waits n (pipe_wait E p receiver) w = Some w') \<longleftrightarrow> n \<le> cnt w"
proof (induction n arbitrary: w)
  case (Suc n)
  show ?case
  proof (cases "cnt w = 0")
    case True
    then show ?thesis using pipe_wait_step [OF assms, of w p] by simp
  next
    case False
    then obtain w' where "pipe_wait E p receiver w = Some (Ok (), w')" "cnt w' = cnt w - 1"
      using pipe_wait_step [OF assms, of w p] by auto
    then show ?thesis using Suc.IH [of w'] False by auto
  qed
qed simp

text \<open>
  Notifications are not lost, but the two kinds of events count them differently: after \<open>n\<close>
  notifications of a fresh event, an eventfd (Linux) completes one wait and no second one, and a
  pipe (macOS) completes exactly \<open>n\<close>.
\<close>

theorem event_notifications:
  assumes "eventfd_spec E raw f cnt bound" "cnt w = 0" "0 < n" "n \<le> bound"
    and "pipe_spec P sender receiver g bytes limit" "bytes v = 0" "n \<le> limit"
  shows "((\<exists>w'. waits m (eventfd_wait E p raw) (notifies n (eventfd_notify E raw) w) = Some w') \<longleftrightarrow> m \<le> 1) \<and>
    ((\<exists>v'. waits m (pipe_wait P p receiver) (notifies n (pipe_notify P sender) v) = Some v') \<longleftrightarrow> m \<le> n)"
proof
  let ?w = "notifies n (eventfd_notify E raw) w"
  have "cnt ?w = n" using eventfd_notifies [OF assms(1), of w n] assms(2,4) by simp
  then obtain w' where w': "eventfd_wait E p raw ?w = Some (Ok (), w')" "cnt w' = 0"
    using eventfd_wait_step [OF assms(1), of ?w p] assms(3) by auto
  have stuck: "eventfd_wait E p raw w' = None" using eventfd_wait_step [OF assms(1), of w' p] w'(2) by simp
  show "(\<exists>w'. waits m (eventfd_wait E p raw) ?w = Some w') \<longleftrightarrow> m \<le> 1"
  proof (cases m)
    case (Suc k)
    then show ?thesis using w'(1) stuck by (cases k) simp_all
  qed simp
  have "bytes (notifies n (pipe_notify P sender) v) = n"
    using pipe_notifies [OF assms(5), of v n] assms(6,7) by simp
  then show "(\<exists>v'. waits m (pipe_wait P p receiver) (notifies n (pipe_notify P sender) v) = Some v') \<longleftrightarrow> m \<le> n"
    using pipe_waits [OF assms(5), of m p] by simp
qed

definition sample_events :: "(nat \<Rightarrow> nat) \<Rightarrow> usize \<Rightarrow> (nat, nat, nat, nat) event_env" where
  "sample_events after r =
     \<lparr>ev_attach = (\<lambda>raw w. (Ok raw, w)), ev_into = (\<lambda>fd. fd),
      ev_await_read = (\<lambda>op w. if w = 0 then None else Some ((Ok r, op), after w)),
      ev_write = (\<lambda>raw ds w. (Ok (of_nat (length ds)), Suc w))\<rparr>"

theorem event_notifications_witness:
  "((\<exists>w'. waits 2 (eventfd_wait (sample_events (\<lambda>_. 0) 8) 64 3) (notifies 3 (eventfd_notify (sample_events (\<lambda>_. 0) 8) 3) 0) = Some w') \<longleftrightarrow> (2 :: nat) \<le> 1) \<and>
   ((\<exists>v'. waits 2 (pipe_wait (sample_events (\<lambda>w. w - 1) 1) 64 3) (notifies 3 (pipe_notify (sample_events (\<lambda>w. w - 1) 1) 4) 0) = Some v') \<longleftrightarrow> (2 :: nat) \<le> 3)"
  by (rule event_notifications [where cnt = "\<lambda>w. w" and bytes = "\<lambda>w. w" and bound = 100 and limit = 100
        and f = 3 and g = 3])
    (simp_all add: eventfd_spec_def pipe_spec_def sample_events_def)

subsection \<open>Creating an event descriptor\<close>

text \<open>\<open>eventfd\<close> and \<open>dup\<close> are the system calls; the counter starts at zero, in blocking mode.\<close>

definition eventfd_new :: "(u32 \<Rightarrow> i32 \<Rightarrow> 'w \<Rightarrow> nat io_result \<times> 'w) \<Rightarrow> 'w \<Rightarrow> nat io_result \<times> 'w" where
  "eventfd_new eventfd w =
     (case eventfd 0 0 w of
        (Err e, w') \<Rightarrow> (Err e, w')
      | (Ok fd, w') \<Rightarrow> (Ok fd, w'))"

definition eventfd_handle :: "(nat \<Rightarrow> 'w \<Rightarrow> nat io_result \<times> 'w) \<Rightarrow> nat \<Rightarrow> 'w \<Rightarrow> nat io_result \<times> 'w" where
  "eventfd_handle dup event w =
     (case dup event w of
        (Err e, w') \<Rightarrow> (Err e, w')
      | (Ok fd, w') \<Rightarrow> (Ok fd, w'))"

subsection \<open>Creating a pipe\<close>

text \<open>
  \<open>pipe_new_raw\<close> on the systems without \<open>pipe2\<close>, and \<open>Event::new\<close> over it. A configuration call
  that fails closes both ends; the ends dropped by an early return are closed too.
\<close>

record 'w pipe_sys =
  sys_pipe :: "'w \<Rightarrow> (nat \<times> nat) io_result \<times> 'w"
  sys_fcntl :: "nat \<Rightarrow> bool \<Rightarrow> 'w \<Rightarrow> unit io_result \<times> 'w"
  sys_ioctl_fionbio :: "nat \<Rightarrow> i32 \<Rightarrow> 'w \<Rightarrow> int \<times> 'w"
  sys_last_error :: "'w \<Rightarrow> io_error"
  sys_dup :: "nat \<Rightarrow> 'w \<Rightarrow> nat io_result \<times> 'w"
  sys_close :: "nat \<Rightarrow> 'w \<Rightarrow> 'w"

definition configure_fd :: "'w pipe_sys \<Rightarrow> nat \<Rightarrow> 'w \<Rightarrow> unit io_result \<times> 'w" where
  "configure_fd K fd w =
     (case sys_fcntl K fd False w of
        (Err e, w') \<Rightarrow> (Err e, w')
      | (Ok _, w1) \<Rightarrow> sys_fcntl K fd True w1)"

fun configure_fds :: "'w pipe_sys \<Rightarrow> nat \<times> nat \<Rightarrow> nat list \<Rightarrow> 'w \<Rightarrow> (nat \<times> nat) io_result \<times> 'w" where
  "configure_fds K fds [] w = (Ok fds, w)"
| "configure_fds K fds (fd # rest) w =
     (case configure_fd K fd w of
        (Err e, w1) \<Rightarrow> (Err e, sys_close K (snd fds) (sys_close K (fst fds) w1))
      | (Ok _, w1) \<Rightarrow> configure_fds K fds rest w1)"

definition pipe_new_raw :: "'w pipe_sys \<Rightarrow> 'w \<Rightarrow> (nat \<times> nat) io_result \<times> 'w" where
  "pipe_new_raw K w =
     (case sys_pipe K w of
        (Err e, w') \<Rightarrow> (Err e, w')
      | (Ok fds, w1) \<Rightarrow> configure_fds K fds [fst fds, snd fds] w1)"

text \<open>The sending end comes first in the pair of \<open>pipe_new\<close>, the receiving end in that of the system.\<close>

definition pipe_new :: "'w pipe_sys \<Rightarrow> 'w \<Rightarrow> (nat \<times> nat) io_result \<times> 'w" where
  "pipe_new K w =
     (case pipe_new_raw K w of
        (Err e, w') \<Rightarrow> (Err e, w')
      | (Ok (r, s), w') \<Rightarrow> (Ok (s, r), w'))"

definition set_nonblocking :: "'w pipe_sys \<Rightarrow> nat \<Rightarrow> bool \<Rightarrow> 'w \<Rightarrow> unit io_result \<times> 'w" where
  "set_nonblocking K fd nonblocking w =
     (let (res, w') = sys_ioctl_fionbio K fd (of_bool nonblocking) w
      in if res = - 1 then (Err (sys_last_error K w'), w') else (Ok (), w'))"

definition pipe_event_new :: "'w pipe_sys \<Rightarrow> 'w \<Rightarrow> (nat \<times> nat) io_result \<times> 'w" where
  "pipe_event_new K w =
     (case pipe_new K w of
        (Err e, w') \<Rightarrow> (Err e, w')
      | (Ok (sender, receiver), w1) \<Rightarrow>
          (case set_nonblocking K sender False w1 of
             (Err e, w') \<Rightarrow> (Err e, sys_close K sender (sys_close K receiver w'))
           | (Ok _, w') \<Rightarrow> (Ok (sender, receiver), w')))"

text \<open>A handle owns a duplicate of the sending end.\<close>

definition pipe_event_handle :: "'w pipe_sys \<Rightarrow> nat \<times> nat \<Rightarrow> 'w \<Rightarrow> nat io_result \<times> 'w" where
  "pipe_event_handle K event w =
     (case sys_dup K (fst event) w of
        (Err e, w') \<Rightarrow> (Err e, w')
      | (Ok fd, w') \<Rightarrow> (Ok fd, w'))"

definition fd_spec :: "'w pipe_sys \<Rightarrow> ('w \<Rightarrow> nat set) \<Rightarrow> bool" where
  "fd_spec K fds \<longleftrightarrow>
     (\<forall>w. case sys_pipe K w of
        (Err e, w') \<Rightarrow> fds w' = fds w
      | (Ok (r, s), w') \<Rightarrow> r \<noteq> s \<and> r \<notin> fds w \<and> s \<notin> fds w \<and> fds w' = fds w \<union> {r, s}) \<and>
     (\<forall>fd b w. fds (snd (sys_fcntl K fd b w)) = fds w) \<and>
     (\<forall>fd b w. fds (snd (sys_ioctl_fionbio K fd b w)) = fds w) \<and>
     (\<forall>fd w. fds (sys_close K fd w) = fds w - {fd})"

lemma configure_fd_keeps:
  assumes "fd_spec K fds"
  shows "fds (snd (configure_fd K fd w)) = fds w"
proof -
  obtain r w1 where f: "sys_fcntl K fd False w = (r, w1)" by fastforce
  have "fds (snd (sys_fcntl K fd False w)) = fds w" using assms by (simp add: fd_spec_def)
  then have "fds w1 = fds w" using f by simp
  then show ?thesis using f assms by (cases r) (simp_all add: configure_fd_def fd_spec_def)
qed

lemma configure_fds_result:
  assumes "fd_spec K fds"
  shows "case configure_fds K (r, s) todo w of
    (Err e, w') \<Rightarrow> fds w' = fds w - {r, s} | (Ok p, w') \<Rightarrow> p = (r, s) \<and> fds w' = fds w"
proof (induction todo arbitrary: w)
  case (Cons fd todo)
  obtain res w1 where f: "configure_fd K fd w = (res, w1)" by fastforce
  have w1: "fds w1 = fds w" using configure_fd_keeps [OF assms, of fd w] f by simp
  show ?case
  proof (cases res)
    case (Inl e)
    then show ?thesis using f w1 assms by (auto simp: fd_spec_def)
  next
    case (Inr x)
    then show ?thesis using f Cons.IH [of w1, unfolded w1] by simp
  qed
qed simp

lemma pipe_new_raw_result:
  assumes "fd_spec K fds"
  shows "case pipe_new_raw K w of
    (Err e, w') \<Rightarrow> fds w' = fds w
  | (Ok (r, s), w') \<Rightarrow> r \<noteq> s \<and> r \<notin> fds w \<and> s \<notin> fds w \<and> fds w' = fds w \<union> {r, s}"
proof -
  obtain p w1 where p: "sys_pipe K w = (p, w1)" by fastforce
  have sp: "case sys_pipe K w of
      (Err e, w') \<Rightarrow> fds w' = fds w
    | (Ok (r, s), w') \<Rightarrow> r \<noteq> s \<and> r \<notin> fds w \<and> s \<notin> fds w \<and> fds w' = fds w \<union> {r, s}"
    by (rule assms [unfolded fd_spec_def, THEN conjunct1, THEN spec])
  show ?thesis
  proof (cases p)
    case (Inl e)
    then show ?thesis using p sp by (simp add: pipe_new_raw_def)
  next
    case (Inr q)
    obtain r s where q: "q = (r, s)" by fastforce
    have o: "r \<noteq> s" "r \<notin> fds w" "s \<notin> fds w" "fds w1 = fds w \<union> {r, s}"
      using sp p Inr q by simp_all
    obtain c w2 where c: "configure_fds K (r, s) [r, s] w1 = (c, w2)" by fastforce
    have raw: "pipe_new_raw K w = (c, w2)" using p Inr q c by (simp add: pipe_new_raw_def)
    have "case c of Err e \<Rightarrow> fds w2 = fds w1 - {r, s} | Ok p \<Rightarrow> p = (r, s) \<and> fds w2 = fds w1"
      using configure_fds_result [OF assms, where r = r and s = s and todo = "[r, s]" and w = w1] c by simp
    then show ?thesis using raw o by (cases c) auto
  qed
qed

text \<open>
  Creating an event over a pipe does not leak descriptors: on every error path both ends are
  closed again, and on success exactly the two ends are open.
\<close>

theorem pipe_event_new_no_leak:
  assumes "fd_spec K fds"
  shows "case pipe_event_new K w of
    (Err e, w') \<Rightarrow> fds w' = fds w
  | (Ok (sender, receiver), w') \<Rightarrow> sender \<noteq> receiver \<and> fds w' = fds w \<union> {sender, receiver}"
proof -
  obtain c w1 where c: "pipe_new_raw K w = (c, w1)" by fastforce
  show ?thesis
  proof (cases c)
    case (Inl e)
    then show ?thesis using pipe_new_raw_result [OF assms, of w] c by (simp add: pipe_event_new_def pipe_new_def)
  next
    case (Inr q)
    obtain r s where q: "q = (r, s)" by fastforce
    have o: "r \<noteq> s" "r \<notin> fds w" "s \<notin> fds w" "fds w1 = fds w \<union> {r, s}"
      using pipe_new_raw_result [OF assms, of w] c Inr q by simp_all
    obtain b w2 where b: "set_nonblocking K s False w1 = (b, w2)" by fastforce
    have "fds (snd (set_nonblocking K s False w1)) = fds w1"
      using assms by (simp add: fd_spec_def set_nonblocking_def split_def Let_def)
    then have w2: "fds w2 = fds w \<union> {r, s}" using b o(4) by simp
    have close: "fds (sys_close K fd v) = fds v - {fd}" for fd v using assms by (simp add: fd_spec_def)
    show ?thesis using c Inr q b w2 close o by (cases b) (auto simp: pipe_event_new_def pipe_new_def)
  qed
qed

definition sample_pipe_sys :: "bool \<Rightarrow> nat set pipe_sys" where
  "sample_pipe_sys fail =
     \<lparr>sys_pipe = (\<lambda>w. if 3 \<in> w \<or> 4 \<in> w then (Err (Os 24), w) else (Ok (3, 4), w \<union> {3, 4})),
      sys_fcntl = (\<lambda>fd b w. (if fail \<and> fd = 4 then Err (Os 9) else Ok (), w)),
      sys_ioctl_fionbio = (\<lambda>fd b w. (0, w)),
      sys_last_error = (\<lambda>w. Os 25),
      sys_dup = (\<lambda>fd w. (Err (Os 24), w)),
      sys_close = (\<lambda>fd w. w - {fd})\<rparr>"

theorem pipe_event_new_no_leak_witness:
  "(case pipe_event_new (sample_pipe_sys True) {0, 1, 2} of
      (Err e, w') \<Rightarrow> w' = {0, 1, 2}
    | (Ok (sender, receiver), w') \<Rightarrow> sender \<noteq> receiver \<and> w' = {0, 1, 2} \<union> {sender, receiver})"
  by (rule pipe_event_new_no_leak [where fds = "\<lambda>w. w"])
    (simp add: fd_spec_def sample_pipe_sys_def)

end
