(* ===== verification/Event_Iocp.thy ===== *)
theory Event_Iocp
  imports Runtime_Spec Iocp_Spec
begin

text \<open>
  Events on Windows, \<open>src/event/iocp.rs\<close>: the event is a dummy operation in the table of the runtime
  and \<open>notify\<close> posts a packet with its key to the completion port.
\<close>

subsection \<open>Events\<close>

definition win_event_new ::
  "('s, registered_op) slab \<Rightarrow> ('d, 's, 'op, 'w) runtime \<Rightarrow> (unit key \<times> ('d, 's, 'op, 'w) runtime) option" where
  "win_event_new S rt = submit_dummy S rt"

definition win_event_handle_new :: "unit key \<Rightarrow> overlapped" where
  "win_event_handle_new user_data = overlapped_new (key_deref user_data)"

definition win_event_notify ::
  "'p iocp_sys \<Rightarrow> win_consts \<Rightarrow> overlapped \<Rightarrow> 'p \<Rightarrow> unit io_result \<times> overlapped \<times> 'p" where
  "win_event_notify W N ov p = post_driver_raw W N (Ok 0) ov p"

text \<open>\<open>wait\<close> makes a future of the key each time it is called and drops the length.\<close>

definition win_event_wait :: "unit key \<Rightarrow> unit op_future" where
  "win_event_wait user_data = op_future_new user_data"

definition win_event_poll ::
  "('s, registered_op) slab \<Rightarrow> nat \<Rightarrow> unit op_future \<Rightarrow> ('d, 's, 'op, 'w) runtime \<Rightarrow>
   (unit io_result task_poll \<times> unit op_future \<times> ('d, 's, 'op, 'w) runtime) option" where
  "win_event_poll S waker f rt =
     map_option (\<lambda>(res, f', rt').
         (case res of
            TaskPending \<Rightarrow> TaskPending
          | TaskReady (Ok _) \<Rightarrow> TaskReady (Ok ())
          | TaskReady (Err e) \<Rightarrow> TaskReady (Err e), f', rt'))
       (op_future_poll_dummy S waker f rt)"

subsection \<open>Waiting\<close>

lemma poll_dummy_registered:
  assumes "slab_spec S" "table S (rt_ops rt) (key_deref key) = Some r" "reg_result r = Some res"
  shows "\<exists>ops'. poll_dummy S waker key rt = Some (TaskReady res, rt\<lparr>rt_ops := ops'\<rparr>) \<and>
    table S ops' = (table S (rt_ops rt))(key_deref key := None)"
proof -
  let ?ops = "(rt_ops rt)\<lparr>ops := snd (the (slab_remove S (key_deref key) (ops (rt_ops rt))))\<rparr>"
  have "op_has_result S key (rt_ops rt)"
    using assms(2,3) by (simp add: op_has_result_def table_def)
  moreover have "op_remove_dummy S key (rt_ops rt) = Some ((Some res, map_option (\<lambda>_. ()) (reg_op r)), ?ops)"
    using table_ops(5) [OF assms(1), of key "rt_ops rt"] assms(2,3) by simp
  ultimately have "poll_dummy S waker key rt = Some (TaskReady res, rt\<lparr>rt_ops := ?ops\<rparr>)"
    by (simp add: poll_dummy_def)
  then show ?thesis using table_ops(6) [OF assms(1,2)] by blast
qed

text \<open>
  A notification reaches the wait: the packet that \<open>notify\<close> posts decodes to an entry for the key of
  the event, and once the runtime has stored it the future of \<open>wait\<close> is ready.
\<close>

lemma win_event_notify_reaches_wait:
  assumes "slab_spec S" "port_fifo W" "win_event_new S rt = Some (key, rt1)"
    and "win_event_notify W windows_consts (win_event_handle_new key) port = (res, ov, port @ [p])"
    and "op_extend S [iocp_create_entry W windows_consts p] (rt_ops rt1) = Some (woken, ops1)"
  shows "\<exists>f rt'. win_event_poll S waker (win_event_wait key) (rt1\<lparr>rt_ops := ops1\<rparr>) = Some (TaskReady (Ok ()), f, rt')"
proof -
  have "iocp_create_entry W windows_consts p = entry_new (key_deref key) (Ok 0)"
    using assms(2,4)
    by (auto simp: win_event_notify_def win_event_handle_new_def overlapped_new_def post_driver_raw_def
        port_fifo_def iocp_create_entry_def windows_consts_def Let_def)
  then have e: "op_extend S [entry_new (key_deref key) (Ok 0)] (rt_ops rt1) = Some (woken, ops1)"
    using assms(5) by simp
  obtain ops0 where "op_insert_dummy S (rt_ops rt) = Some (key, ops0)" "rt1 = rt\<lparr>rt_ops := ops0\<rparr>"
    using assms(3) by (auto simp: win_event_new_def submit_dummy_def)
  then have "table S (rt_ops rt1) (key_deref key) = Some (registered_op_new None)"
    using table_ops(2) [OF assms(1)] by auto
  then have "table S ops1 (key_deref key) =
      Some ((registered_op_new None)\<lparr>reg_waker := None, reg_result := Some (Ok 0)\<rparr>)"
    using op_extend_once [OF assms(1) e, of "key_deref key"] by (simp add: registered_op_new_def)
  then have "\<exists>ops'. poll_dummy S waker key (rt1\<lparr>rt_ops := ops1\<rparr>) = Some (TaskReady (Ok 0), rt1\<lparr>rt_ops := ops'\<rparr>)"
    using poll_dummy_registered [OF assms(1), where rt = "rt1\<lparr>rt_ops := ops1\<rparr>" and key = key and waker = waker
        and res = "Ok 0"] by fastforce
  then show ?thesis
    by (auto simp: win_event_poll_def win_event_wait_def op_future_new_def op_future_poll_dummy_def)
qed

text \<open>
  A second \<open>wait\<close> on the same event takes the result of an unrelated operation: the first wait
  removed the entry of the event, an operation submitted later may get its key, and when that
  operation has completed the second wait is ready with its result. The entry of the operation is
  gone, its box stays allocated, and its future is never ready.
\<close>

lemma win_event_second_wait_takes_result:
  fixes rt :: "('d, 's, 'op, 'w) runtime"
  assumes "slab_spec S" "table S (rt_ops rt) k = Some r" "reg_op r = Some a" "reg_result r = Some (Ok n)"
  shows "\<exists>f rt'. win_event_poll S waker (win_event_wait (Key k)) rt = Some (TaskReady (Ok ()), f, rt') \<and>
    rt_heap rt' = rt_heap rt \<and> (\<exists>rt''. poll_task S waker (Key k :: 'op key) rt' = Some (TaskPending, rt''))"
proof -
  obtain ops' where o: "poll_dummy S waker (Key k) rt = Some (TaskReady (Ok n), rt\<lparr>rt_ops := ops'\<rparr>)"
      "table S ops' = (table S (rt_ops rt))(k := None)"
    using poll_dummy_registered [OF assms(1), where key = "Key k" and rt = rt and r = r] assms(2,4) by auto
  have "win_event_poll S waker (win_event_wait (Key k)) rt =
      Some (TaskReady (Ok ()), \<lparr>fut_user_data = Key k, fut_completed = True\<rparr>, rt\<lparr>rt_ops := ops'\<rparr>)"
    using o(1) by (simp add: win_event_poll_def win_event_wait_def op_future_new_def op_future_poll_dummy_def)
  moreover have "slab_get S k (ops ops') = None" using fun_cong [OF o(2), of k] by (simp add: table_def)
  then have "\<exists>rt''. poll_task S waker (Key k :: 'op key) (rt\<lparr>rt_ops := ops'\<rparr>) = Some (TaskPending, rt'')"
    by (simp add: poll_task_def op_has_result_def)
  ultimately show ?thesis
    by (intro exI [of _ "\<lparr>fut_user_data = Key k, fut_completed = True\<rparr>"] exI [of _ "rt\<lparr>rt_ops := ops'\<rparr>"]) simp
qed

end
