(* ===== verification/Task.thy ===== *)
theory Task
  imports Runtime
begin

text \<open>
  The interface of \<open>src/task/mod.rs\<close>: the runtime of the thread, which is made on first use, and the
  two functions that reach it, with the methods of \<open>Runtime\<close> behind them.
\<close>

subsection \<open>The runtime of the thread\<close>

datatype ('rt, 'w) runtime_local = RuntimeUninit 'w | RuntimeInit 'rt

text \<open>
  \<open>RUNTIME.with\<close>: the first use runs the initialiser, whose \<open>expect\<close> panics. The closure may not return,
  and may panic.
\<close>

definition runtime_with ::
  "('d, 'op, 'w, 'raw, 'fd) driver_ops \<Rightarrow> ('s, registered_op) slab \<Rightarrow>
   (('d, 's, 'op, 'w) runtime \<Rightarrow> ('r \<times> ('d, 's, 'op, 'w) runtime) option option) \<Rightarrow>
   (('d, 's, 'op, 'w) runtime, 'w) runtime_local \<Rightarrow> ('r \<times> (('d, 's, 'op, 'w) runtime, 'w) runtime_local) option option" where
  "runtime_with D S f cell =
     (case (case cell of
              RuntimeInit rt \<Rightarrow> Some rt
            | RuntimeUninit w \<Rightarrow> (case runtime_new D S w of (Err _, _) \<Rightarrow> None | (Ok rt, _) \<Rightarrow> Some rt)) of
        None \<Rightarrow> Some None
      | Some rt \<Rightarrow> map_option (map_option (\<lambda>(r, rt'). (r, RuntimeInit rt'))) (f rt))"

definition task_block_on ::
  "('d, 'op, 'w, 'raw, 'fd) driver_ops \<Rightarrow> ('s, registered_op) slab \<Rightarrow>
   (nat \<Rightarrow> nat \<Rightarrow> ('d, 's, 'op, 'w) runtime \<Rightarrow> ('r option \<times> ('d, 's, 'op, 'w) runtime) option) \<Rightarrow>
   (('d, 's, 'op, 'w) runtime, 'w) runtime_local \<Rightarrow> ('r \<times> (('d, 's, 'op, 'w) runtime, 'w) runtime_local) option option" where
  "task_block_on D S run cell = runtime_with D S (block_on D S run) cell"

definition runtime_spawn :: "('d, 's, 'op, 'w) runtime \<Rightarrow> nat \<times> ('d, 's, 'op, 'w) runtime" where
  "runtime_spawn rt = spawn rt"

definition task_spawn ::
  "('d, 'op, 'w, 'raw, 'fd) driver_ops \<Rightarrow> ('s, registered_op) slab \<Rightarrow>
   (('d, 's, 'op, 'w) runtime, 'w) runtime_local \<Rightarrow> (nat \<times> (('d, 's, 'op, 'w) runtime, 'w) runtime_local) option option" where
  "task_spawn D S cell = runtime_with D S (\<lambda>rt. Some (Some (runtime_spawn rt))) cell"

text \<open>\<open>as_raw_fd\<close> of the driver is an argument.\<close>

definition raw_driver :: "('d \<Rightarrow> 'raw) \<Rightarrow> ('d, 's, 'op, 'w) runtime \<Rightarrow> 'raw" where
  "raw_driver as_raw_fd rt = as_raw_fd (rt_driver rt)"

subsection \<open>Tasks keep their order\<close>

text \<open>
  Tasks spawned before a \<open>block_on\<close> run before its future does: the queue of the thread's runtime keeps
  the order of the spawns, whichever function made them.
\<close>

fun spawn_all :: "nat \<Rightarrow> ('d, 's, 'op, 'w) runtime \<Rightarrow> ('d, 's, 'op, 'w) runtime" where
  "spawn_all 0 rt = rt"
| "spawn_all (Suc n) rt = spawn_all n (snd (runtime_spawn rt))"

lemma spawn_all_queue:
  "runnables (spawn_all n rt) = runnables rt @ [next_task rt..<next_task rt + n] \<and> next_task (spawn_all n rt) = next_task rt + n"
proof (induction n arbitrary: rt)
  case (Suc n)
  then show ?case using upt_conv_Cons [of "next_task rt" "next_task rt + Suc n"] by (simp add: runtime_spawn_def spawn_def)
qed simp

lemma runtime_with_init [simp]:
  "runtime_with D S f (RuntimeInit rt) = map_option (map_option (\<lambda>(r, rt'). (r, RuntimeInit rt'))) (f rt)"
  by (simp add: runtime_with_def)

lemma runtime_with_new:
  "runtime_new D S w = (Ok rt, w') \<Longrightarrow> runtime_with D S f (RuntimeUninit w) = runtime_with D S f (RuntimeInit rt)"
  by (simp add: runtime_with_def)

lemma runtime_with_panics: "runtime_new D S w = (Err e, w') \<Longrightarrow> runtime_with D S f (RuntimeUninit w) = Some None"
  by (simp add: runtime_with_def)

end
