(* ===== verification/Complete_Io.thy ===== *)
theory Complete_Io
  imports Runtime_Kqueue Runtime_Iour Runtime_Iocp
begin

text \<open>
  The whole trait \<open>CompleteIo\<close> of \<open>src/driver/mod.rs\<close>: the methods the runtime calls, \<open>driver_ops\<close>,
  with those it leaves to other callers, and the three drivers as its implementations. An operation that
  is pushed with its type is an address here as well; a refused one comes back as it was.
\<close>

record ('d, 'op, 'w, 'raw, 'fd, 'fixed) complete_io_ops = "('d, 'op, 'w, 'raw, 'fd) driver_ops" +
  drv_register_fd :: "'raw \<Rightarrow> u32 \<Rightarrow> 'd \<Rightarrow> 'op op_heap \<times> 'w \<Rightarrow> ('fixed io_result \<times> 'd \<times> 'op op_heap \<times> 'w) option"
  drv_unregister_fd :: "'fixed \<Rightarrow> 'd \<Rightarrow> 'op op_heap \<times> 'w \<Rightarrow> (unit io_result \<times> 'd \<times> 'op op_heap \<times> 'w) option"
  drv_try_push :: "nat operation \<Rightarrow> 'd \<Rightarrow> 'op op_heap \<times> 'w \<Rightarrow> ((nat operation + unit) \<times> 'd \<times> 'op op_heap \<times> 'w) option"
  drv_capacity_left :: "'d \<Rightarrow> nat"

definition kq_complete_io ::
  "('op op_heap \<times> 'w) kq_sys \<Rightarrow> (nat, 'op op_heap \<times> 'w) kq_opcode \<Rightarrow> (io_error \<Rightarrow> bool) \<Rightarrow>
   (nat kq_driver, 'op, 'w, i32, kq_fd, kq_fd) complete_io_ops" where
  "kq_complete_io K V tmo =
     driver_ops.extend (kq_driver_ops K V tmo)
       (complete_io_ops.fields
          (\<lambda>fd ix d hw. let (r, d') = kq_register_fd fd ix d in Some (r, d', hw))
          (\<lambda>fixed_fd d hw. let (r, d') = kq_unregister_fd fixed_fd d in Some (r, d', hw))
          (\<lambda>op d hw. let (r, d') = kq_try_push (\<lambda>a. a) op d in Some (r, d', hw))
          kq_capacity_left)"

definition iocp_complete_io ::
  "('op op_heap \<times> 'w) iocp_sys \<Rightarrow> win_consts \<Rightarrow> (nat, 'op op_heap \<times> 'w) iocp_opcode \<Rightarrow>
   (nat iocp_driver, 'op, 'w, usize, win_fd, win_fd) complete_io_ops" where
  "iocp_complete_io S N V =
     driver_ops.extend (iocp_driver_ops S N V)
       (complete_io_ops.fields
          (iocp_register_fd S N)
          (\<lambda>fixed_fd d hw. let (r, d') = iocp_unregister_fd fixed_fd d in Some (r, d', hw))
          (\<lambda>op d hw. let (r, d') = iocp_try_push (\<lambda>a. a) op d in Some (r, d', hw))
          iocp_capacity_left)"

definition iour_complete_io ::
  "'r io_uring \<Rightarrow> errnos \<Rightarrow> ('op \<Rightarrow> (sqe_op \<times> 'op) option) \<Rightarrow> (io_error \<Rightarrow> bool) \<Rightarrow>
   ('r iour_driver, 'op, 'w, i32, fd, fixed_fd) complete_io_ops" where
  "iour_complete_io U no C tmo =
     driver_ops.extend (iour_driver_ops U no C tmo)
       (complete_io_ops.fields
          (\<lambda>fd ix d hw. map_option (\<lambda>(r, d'). (r, d', hw)) (iour_register_fd U fd ix d))
          (\<lambda>fixed_fd d hw. map_option (\<lambda>(r, d'). (r, d', hw)) (iour_unregister_fd U fixed_fd d))
          (\<lambda>op d (h, w).
             do { o1 \<leftarrow> boxes h (operation_op op);
                  (r, d') \<leftarrow> iour_try_push U C (operation_new o1 (operation_user_data op)) d;
                  (_, o2) \<leftarrow> C o1;
                  Some (case r of Err _ \<Rightarrow> Err op | Ok _ \<Rightarrow> Ok (), d', h\<lparr>boxes := (boxes h)(operation_op op \<mapsto> o2)\<rparr>, w) })
          (iour_capacity_left U))"

text \<open>
  The contract of the two single pushes: they do the same, and refuse an operation only without room,
  in which case it comes back. A push that panics, because the operation has no entry or its box is
  gone, panics in both.
\<close>

locale typed_push =
  fixes F :: "('d, 'op, 'w, 'raw, 'fd, 'fixed) complete_io_ops" and inv_drv :: "'d \<Rightarrow> bool"
  assumes typed_eq_dyn: "drv_try_push F op d hw =
      map_option (\<lambda>(r, d', hw'). ((case r of Err _ \<Rightarrow> Err op | Ok _ \<Rightarrow> Ok ()), d', hw'))
        (drv_try_push_dyn F (op_object_from_operation (\<lambda>a. a) op) d hw)"
    and full_iff: "inv_drv d \<Longrightarrow> drv_try_push_dyn F x d hw = Some (r, d', hw') \<Longrightarrow>
      (\<exists>x'. r = Err x') \<longleftrightarrow> drv_capacity_left F d = 0"
begin

lemma try_push_full_iff:
  assumes "inv_drv d" "drv_try_push F op d hw = Some (r, d', hw')"
  shows "r = (if drv_capacity_left F d = 0 then Err op else Ok ())"
proof -
  obtain x where x: "drv_try_push_dyn F (op_object_from_operation (\<lambda>a. a) op) d hw = Some (x, d', hw')"
    "r = (case x of Err _ \<Rightarrow> Err op | Ok _ \<Rightarrow> Ok ())" using assms(2) by (auto simp: typed_eq_dyn)
  show ?thesis using full_iff [OF assms(1) x(1)] x(2) by (cases x) auto
qed

end

interpretation kqt: typed_push "kq_complete_io K V tmo" "\<lambda>d. True"
  by unfold_locales (auto simp: kq_complete_io_def kq_driver_ops_def driver_ops.defs complete_io_ops.defs kq_try_push_def
      kq_try_push_dyn_def split: if_splits)

interpretation iocpt: typed_push "iocp_complete_io S N V" "\<lambda>d. True"
  by unfold_locales (auto simp: iocp_complete_io_def iocp_driver_ops_def driver_ops.defs complete_io_ops.defs iocp_try_push_def
      iocp_try_push_dyn_def split: if_splits)

lemma iour_complete_io_simps:
  "drv_try_push_dyn (iour_complete_io U no C tmo) =
     (\<lambda>x d (h, w). map_option (\<lambda>(r, d', h'). (r, d', h', w)) (boxed_try_push U C x d h))"
  "drv_capacity_left (iour_complete_io U no C tmo) = iour_capacity_left U"
  "drv_try_push (iour_complete_io U no C tmo) = (\<lambda>op d (h, w).
     do { o1 \<leftarrow> boxes h (operation_op op);
          (r, d') \<leftarrow> iour_try_push U C (operation_new o1 (operation_user_data op)) d;
          (_, o2) \<leftarrow> C o1;
          Some (case r of Err _ \<Rightarrow> Err op | Ok _ \<Rightarrow> Ok (), d', h\<lparr>boxes := (boxes h)(operation_op op \<mapsto> o2)\<rparr>, w) })"
  by (simp_all add: iour_complete_io_def iour_driver_ops_def driver_ops.defs complete_io_ops.defs)

lemma boxed_push_full_iff:
  assumes "ring_spec U sq" "boxed_try_push U C x d h = Some (r, d', h')"
  shows "(\<exists>x'. r = Err x') \<longleftrightarrow> iour_capacity_left U d = 0"
proof -
  have "\<exists>e y. sq_push U e (inner d) = y \<and> (y = None \<longleftrightarrow> (\<exists>x'. r = Err x'))"
    using assms(2) by (auto simp: boxed_try_push_def iour_try_push_dyn_def split: bind_splits option.splits) blast+
  then obtain e y where y: "sq_push U e (inner d) = y" "y = None \<longleftrightarrow> (\<exists>x'. r = Err x')" by (elim exE conjE)
  show ?thesis using y ring_push_cases [OF assms(1), where e = e and r = "inner d"] ring_len(2) [OF assms(1), of "inner d"]
    by (cases y) (simp_all add: capacity_left_ring [OF assms(1)])
qed

interpretation iourt: typed_push "iour_complete_io U no C tmo" "\<lambda>d. ring_spec U sq"
  for U :: "'r io_uring" and no sq tmo and C :: "'op \<Rightarrow> (sqe_op \<times> 'op) option"
proof unfold_locales
  fix op :: "nat operation" and d :: "'r iour_driver" and hw :: "'op op_heap \<times> 'a"
  show "drv_try_push (iour_complete_io U no C tmo) op d hw =
      map_option (\<lambda>(r, d', hw'). ((case r of Err _ \<Rightarrow> Err op | Ok _ \<Rightarrow> Ok ()), d', hw'))
        (drv_try_push_dyn (iour_complete_io U no C tmo) (op_object_from_operation (\<lambda>a. a) op) d hw)"
    by (cases hw) (auto simp: iour_complete_io_simps boxed_try_push_def iour_try_push_def iour_try_push_dyn_def op_object_from_operation_def
        op_object_new_def operation_new_def split: bind_splits option.splits)
next
  fix x :: "nat op_object" and d :: "'r iour_driver" and r d' and hw hw' :: "'op op_heap \<times> 'a"
  assume "ring_spec U sq" "drv_try_push_dyn (iour_complete_io U no C tmo) x d hw = Some (r, d', hw')"
  then show "(\<exists>x'. r = Err x') \<longleftrightarrow> drv_capacity_left (iour_complete_io U no C tmo) d = 0"
    unfolding iour_complete_io_simps(2)
    by (cases hw) (auto simp: iour_complete_io_simps(1) simp del: split_paired_Ex dest: boxed_push_full_iff [of U sq C x d, rotated])
qed

end
