(* ===== verification/Macros.thy ===== *)
theory Macros
  imports Signal Net_Stream
begin

text \<open>
  The macros of \<open>src/lib.rs\<close> that have no place of their own: the forms of \<open>syscall\<close> on Windows for
  functions that return a socket error or a handle, and \<open>impl_raw_fd\<close>, which gives a wrapper the traits
  for its descriptor.
\<close>

subsection \<open>System calls on Windows\<close>

text \<open>A call gives its result and the error the thread has after it.\<close>

definition syscall_fails :: "('a \<Rightarrow> bool) \<Rightarrow> 'a \<times> io_error \<Rightarrow> 'a io_result" where
  "syscall_fails failed c = (if failed (fst c) then Err (snd c) else Ok (fst c))"

definition syscall_SOCKET :: "i32 \<times> io_error \<Rightarrow> i32 io_result" where
  "syscall_SOCKET c = syscall_fails (\<lambda>res. res \<noteq> 0) c"

definition syscall_HANDLE :: "usize \<Rightarrow> usize \<times> io_error \<Rightarrow> usize io_result" where
  "syscall_HANDLE INVALID_HANDLE_VALUE c = syscall_fails (\<lambda>res. res = INVALID_HANDLE_VALUE) c"

lemma syscall_BOOL_fails: "syscall_BOOL c = syscall_fails (\<lambda>res. res = 0) c"
  by (simp add: syscall_BOOL_def syscall_fails_def split_def)

text \<open>A socket call that succeeds has the result 0, a call for a handle never gives the invalid one.\<close>

lemma syscall_results:
  "syscall_SOCKET c = Ok res \<Longrightarrow> res = 0" "syscall_HANDLE invalid c2 = Ok h \<Longrightarrow> h \<noteq> invalid"
  by (auto simp: syscall_SOCKET_def syscall_HANDLE_def syscall_fails_def split: if_splits)

subsection \<open>Descriptors of wrappers\<close>

text \<open>
  \<open>impl_raw_fd\<close> on the two types with an attacher. The other wrappers have one of these as their field and
  are identified with it.
\<close>

definition file_as_raw_fd :: "('raw, 'f) fs_file \<Rightarrow> 'raw" where
  "file_as_raw_fd f = file_inner f"

definition file_from_raw_fd :: "'raw \<Rightarrow> ('raw, 'f) fs_file" where
  "file_from_raw_fd fd = \<lparr>file_inner = fd, file_attacher = attacher_new\<rparr>"

definition file_into_raw_fd :: "('raw, 'f) fs_file \<Rightarrow> 'raw" where
  "file_into_raw_fd f = file_inner f"

definition sock_as_raw_fd :: "('raw, 'f) socket \<Rightarrow> 'raw" where
  "sock_as_raw_fd s = sock_raw s"

definition sock_from_raw_fd :: "'raw \<Rightarrow> ('raw, 'f) socket" where
  "sock_from_raw_fd fd = \<lparr>sock_raw = fd, sock_attacher = attacher_new\<rparr>"

definition sock_into_raw_fd :: "('raw, 'f) socket \<Rightarrow> 'raw" where
  "sock_into_raw_fd s = sock_raw s"

lemma raw_fd_roundtrip:
  "file_into_raw_fd (file_from_raw_fd fd) = fd" "sock_into_raw_fd (sock_from_raw_fd fd) = fd"
  by (simp_all add: file_into_raw_fd_def file_from_raw_fd_def sock_into_raw_fd_def sock_from_raw_fd_def)

text \<open>
  A wrapper made from the descriptor of another one has not kept the attachment: it attaches the
  descriptor again. Where a descriptor can be attached only once, as to a completion port, every receive
  and every exact read of a nonempty buffer then fails with the error of attaching.
\<close>

lemma refused_attach:
  assumes "net_attach E (sock_raw s) w = (Err e, w')"
  shows "sock_recv E (sock_from_raw_fd (sock_into_raw_fd s)) b w = Some ((Err e, b), sock_from_raw_fd (sock_raw s), w')"
  using assms
  by (simp add: sock_recv_def sock_attach_def attacher_attach_def sock_from_raw_fd_def sock_into_raw_fd_def attacher_new_def)

theorem raw_roundtrip_loses_attachment:
  assumes "once (sock_attacher s) = Some fd" "net_attach E (sock_raw s) w = (Err e, w')" "as_uninit_slice b = Some (a, n)" "0 < n"
  shows "sock_recv_exact E (sock_from_raw_fd (sock_into_raw_fd s)) b w = Some (Some ((Err e, b), sock_from_raw_fd (sock_raw s), w'))"
    "sock_attach E s w = (Ok fd, s, w)"
  using assms(3,4) attached_sock [OF assms(1)]
  by (simp_all add: sock_recv_exact_def recv_exact_loop.simps [of E n 0 b] refused_attach [OF assms(2)])

end
