(* ===== verification/Examples.thy ===== *)
theory Examples
  imports Task File_Kqueue File_Iour Net_Stream Time Named_Pipe
begin

text \<open>
  The programs of \<open>examples\<close>, over the models of the parts they use. What a program prints is its result,
  as the bytes of the text; \<open>unwrap\<close>, \<open>assert_eq\<close> and \<open>expect\<close> panic.

  An \<open>await\<close> in the body of \<open>block_on\<close> is \<open>await_op\<close> of \<open>Await\<close>, behind the environments of \<open>Fs_File\<close> and
  \<open>Net_Socket\<close>: the loop of \<open>block_on\<close> until the awaited task has its result. The order in which the join
  and select macros of the futures crate finish their futures is an argument. The allocator and the
  place of a literal are arguments, too.
\<close>

subsection \<open>The standard library\<close>

text \<open>\<open>String::from_utf8\<close> accepts the well-formed sequences of the Unicode standard.\<close>

definition utf8_tail :: "u8 \<Rightarrow> bool" where
  "utf8_tail b \<longleftrightarrow> 0x80 \<le> b \<and> b \<le> 0xBF"

fun utf8_valid :: "u8 list \<Rightarrow> bool" where
  "utf8_valid [] = True"
| "utf8_valid (a # bs) =
     (if a \<le> 0x7F then utf8_valid bs
      else case bs of
        [] \<Rightarrow> False
      | b # cs \<Rightarrow>
          if 0xC2 \<le> a \<and> a \<le> 0xDF then utf8_tail b \<and> utf8_valid cs
          else case cs of
            [] \<Rightarrow> False
          | c # ds \<Rightarrow>
              if 0xE0 \<le> a \<and> a \<le> 0xEF then
                utf8_tail b \<and> (a = 0xE0 \<longrightarrow> 0xA0 \<le> b) \<and> (a = 0xED \<longrightarrow> b \<le> 0x9F) \<and> utf8_tail c \<and> utf8_valid ds
              else case ds of
                [] \<Rightarrow> False
              | d # es \<Rightarrow>
                  0xF0 \<le> a \<and> a \<le> 0xF4 \<and> utf8_tail b \<and> (a = 0xF0 \<longrightarrow> 0x90 \<le> b) \<and> (a = 0xF4 \<longrightarrow> b \<le> 0x8F) \<and>
                  utf8_tail c \<and> utf8_tail d \<and> utf8_valid es)"

text \<open>\<open>String::from_utf8 (..).unwrap ()\<close> on the initialised bytes of a vector.\<close>

definition from_utf8 :: "iobuf \<Rightarrow> u8 list option" where
  "from_utf8 b = do { s \<leftarrow> as_slice b; if utf8_valid s then Some s else None }"

definition unwrap :: "'a io_result \<Rightarrow> 'a option" where
  "unwrap r = (case r of Err _ \<Rightarrow> None | Ok x \<Rightarrow> Some x)"

lemma unwrap_simps [simp]: "unwrap (Ok x) = Some x" "unwrap (Err e) = None"
  by (simp_all add: unwrap_def)

definition vec_with_capacity :: "(nat \<Rightarrow> nat \<times> u8 list) \<Rightarrow> nat \<Rightarrow> raw_buf" where
  "vec_with_capacity alloc n = \<lparr>raw_kind = VecU8, raw_ptr = fst (alloc n), raw_mem = snd (alloc n), raw_len = 0\<rparr>"

definition vec_set_len :: "nat \<Rightarrow> iobuf \<Rightarrow> iobuf" where
  "vec_set_len n b = (case b of Raw v \<Rightarrow> Raw (v\<lparr>raw_len := n\<rparr>) | Slice _ _ _ \<Rightarrow> b)"

text \<open>Going on after a call that may not return or may panic.\<close>

definition and_then :: "'a option option \<Rightarrow> ('a \<Rightarrow> 'b option option) \<Rightarrow> 'b option option" where
  "and_then m k = (case m of None \<Rightarrow> None | Some None \<Rightarrow> Some None | Some (Some x) \<Rightarrow> k x)"

lemma and_then_simps [simp]: "and_then None k = None" "and_then (Some None) k = Some None" "and_then (Some (Some x)) k = k x"
  by (simp_all add: and_then_def)

subsection \<open>Reading a file\<close>

definition basic_body ::
  "('raw, 'f, 'fd, 'w) file_env \<Rightarrow> bool \<Rightarrow> (nat \<Rightarrow> nat \<times> u8 list) \<Rightarrow> 'w \<Rightarrow> (u8 list \<times> 'w) option option" where
  "basic_body E windows alloc w =
     (case options_open E windows ''Cargo.toml'' (options_read True open_options_new) w of
        (Err e, _) \<Rightarrow> Some None
      | (Ok file, w1) \<Rightarrow>
          and_then (file_read_to_end_at E file (vec_with_capacity alloc 4096) 0 w1) (\<lambda>((read, buffer), _, w2).
            Some (do { read \<leftarrow> unwrap read;
                       len \<leftarrow> buf_len buffer;
                       if read = len then do { s \<leftarrow> from_utf8 buffer; Some (s, w2) } else None })))"

definition basic_main ::
  "('d, 'op, 'w, 'raw, 'f) driver_ops \<Rightarrow> ('s, registered_op) slab \<Rightarrow>
   ('raw, 'f, 'fd, ('d, 's, 'op, 'w) runtime) file_env \<Rightarrow> bool \<Rightarrow> (nat \<Rightarrow> nat \<times> u8 list) \<Rightarrow> 'w \<Rightarrow>
   (u8 list \<times> (('d, 's, 'op, 'w) runtime, 'w) runtime_local) option option" where
  "basic_main D S E windows alloc w = runtime_with D S (basic_body E windows alloc) (RuntimeUninit w)"

text \<open>The driver is used without the runtime. The operation on the stack has an address like a box.\<close>

definition driver_main ::
  "('d, 'op, 'w, 'raw, 'f) driver_ops \<Rightarrow> ('raw, 'f, 'fd, 'w) file_env \<Rightarrow> bool \<Rightarrow>
   ('fd read_at_op \<Rightarrow> 'op) \<times> ('op \<Rightarrow> 'fd read_at_op option) \<Rightarrow> (nat \<Rightarrow> nat \<times> u8 list) \<Rightarrow> 'w \<Rightarrow> (u8 list \<times> 'w) option" where
  "driver_main D E windows as_read_at alloc w =
     (let (r, h, w1) = drv_new D (\<lparr>boxes = Map.empty, next_box = 0\<rparr>, w) in
      do { d \<leftarrow> unwrap r;
           let (r, w2) = file_open E windows ''Cargo.toml'' w1 in
           do { file \<leftarrow> unwrap r;
                (r, d, h, w3) \<leftarrow> drv_attach D (file_inner file) d (h, w2);
                fd \<leftarrow> unwrap r;
                let op = fst as_read_at (read_at_new (env_into E) fd 0 (Raw (vec_with_capacity alloc 4096)));
                    (op_mut, h) = box_leak op h in
                do { (_, d, h, w4) \<leftarrow> drv_push_queue D [op_object_new op_mut 0] d (h, w3);
                     ((r, entries), d, h, w5) \<leftarrow> drv_submit D None d (h, w4);
                     _ \<leftarrow> (if length entries \<le> 1 then unwrap r else None);
                     case entries of
                       [] \<Rightarrow> None
                     | entry # _ \<Rightarrow>
                         if entry_user_data entry = 0 then
                           do { n \<leftarrow> unwrap (entry_result entry);
                                x \<leftarrow> boxes h op_mut;
                                op \<leftarrow> snd as_read_at x;
                                s \<leftarrow> from_utf8 (vec_set_len (unat n) (read_at_into_inner op));
                                Some (s, w5) }
                         else None } } })"

subsection \<open>Sockets\<close>

definition hello_world :: "u8 list" where
  "hello_world = map of_char ''Hello world!''"

definition literal :: "nat \<Rightarrow> u8 list \<Rightarrow> iobuf" where
  "literal rodata bs = Raw \<lparr>raw_kind = Str, raw_ptr = rodata, raw_mem = bs, raw_len = length bs\<rparr>"

definition net_setup ::
  "('raw, 'f, 'fd, 'w) socket_env \<Rightarrow> ('sa \<Rightarrow> sock_addr) \<Rightarrow> 'sa \<Rightarrow> bool \<Rightarrow> 'w \<Rightarrow>
   (('raw, 'f) socket \<times> ('raw, 'f) socket \<times> 'w) option" where
  "net_setup E from localhost_0 connect_first w =
     (let (r, w1) = tcp_listener_bind E (to_sock_addrs from (StdAddrs (Ok [localhost_0]))) w in
      do { listener \<leftarrow> unwrap r;
           let (r, w2) = tcp_listener_local_addr E listener w1 in
           do { addr \<leftarrow> unwrap r;
                let ((tx, rx), w5) =
                  (if connect_first then
                     (let (tx, w3) = tcp_stream_connect E (to_sock_addrs id (AddrRef (OneAddr addr))) w2;
                          (rx, _, w4) = tcp_listener_accept E listener w3
                      in ((tx, rx), w4))
                   else
                     (let (rx, _, w3) = tcp_listener_accept E listener w2;
                          (tx, w4) = tcp_stream_connect E (to_sock_addrs id (AddrRef (OneAddr addr))) w3
                      in ((tx, rx), w4))) in
                do { tx \<leftarrow> unwrap tx; (rx, _) \<leftarrow> unwrap rx; Some (tx, rx, w5) } } })"

definition net_body ::
  "('raw, 'f, 'fd, 'w) socket_env \<Rightarrow> ('sa \<Rightarrow> sock_addr) \<Rightarrow> 'sa \<Rightarrow> bool \<Rightarrow> nat \<Rightarrow> (nat \<Rightarrow> nat \<times> u8 list) \<Rightarrow> 'w \<Rightarrow>
   (u8 list \<times> 'w) option option" where
  "net_body E from localhost_0 connect_first rodata alloc w =
     and_then (Some (net_setup E from localhost_0 connect_first w)) (\<lambda>(tx, rx, w1).
     and_then (tcp_stream_send_all E tx (literal rodata hello_world) w1) (\<lambda>((r, _), _, w2).
     and_then (Some (unwrap r)) (\<lambda>_.
     and_then (tcp_stream_recv_exact E rx (Raw (vec_with_capacity alloc 12)) w2) (\<lambda>((n, buffer), _, w3).
       Some (do { n \<leftarrow> unwrap n;
                  len \<leftarrow> buf_len buffer;
                  if n = len then do { s \<leftarrow> from_utf8 buffer; Some (s, w3) } else None })))))"

text \<open>The address of the path in the temporary directory, or the error of making it, is an argument.\<close>

definition unix_setup ::
  "('raw, 'f, 'fd, 'w) socket_env \<Rightarrow> sock_addr io_result \<Rightarrow> 'w \<Rightarrow> (('raw, 'f) socket \<times> ('raw, 'f) socket \<times> 'w) option" where
  "unix_setup E path_addr w =
     (let (r, w1) = unix_listener_bind E path_addr w in
      do { listener \<leftarrow> unwrap r;
           let (r, w2) = unix_listener_local_addr E listener w1 in
           do { addr \<leftarrow> unwrap r;
                let (r, w3) = unix_stream_connect_addr E (to_sock_addrs id (AddrRef (OneAddr addr))) w2 in
                do { tx \<leftarrow> unwrap r;
                     let (r, _, w4) = unix_listener_accept E listener w3 in
                     do { (rx, _) \<leftarrow> unwrap r;
                          let (r, w5) = unix_stream_peer_addr E tx w4 in
                          do { peer \<leftarrow> unwrap r; if addr = peer then Some (tx, rx, w5) else None } } } } })"

definition unix_body ::
  "('raw, 'f, 'fd, 'w) socket_env \<Rightarrow> sock_addr io_result \<Rightarrow> nat \<Rightarrow> (nat \<Rightarrow> nat \<times> u8 list) \<Rightarrow> 'w \<Rightarrow>
   (u8 list \<times> 'w) option option" where
  "unix_body E path_addr rodata alloc w =
     and_then (Some (unix_setup E path_addr w)) (\<lambda>(tx, rx, w1).
     and_then (unix_stream_send_all E tx (literal rodata hello_world) w1) (\<lambda>((r, _), _, w2).
     and_then (Some (unwrap r)) (\<lambda>_.
     and_then (unix_stream_recv_exact E rx (Raw (vec_with_capacity alloc 12)) w2) (\<lambda>((n, buffer), _, w3).
       Some (do { _ \<leftarrow> unwrap n; s \<leftarrow> from_utf8 buffer; Some (s, w3) })))))"

subsection \<open>Named pipes\<close>

definition named_pipe_body ::
  "('raw, 'w) pipe_api \<Rightarrow> ('raw, win_fd, 'fd, 'w) file_env \<Rightarrow>
   (connect_named_pipe_op \<Rightarrow> 'w \<Rightarrow> (usize io_result \<times> connect_named_pipe_op) \<times> 'w) \<Rightarrow> 16 word list \<Rightarrow> bool \<Rightarrow> nat \<Rightarrow>
   (nat \<Rightarrow> nat \<times> u8 list) \<Rightarrow> 'w \<Rightarrow> (u8 list \<times> 'w) option option" where
  "named_pipe_body A E await_connect_pipe PIPE_NAME write_first rodata alloc w =
     (let (r, w1) = server_create A (set_access_inbound False server_options_new) (Some PIPE_NAME) w in
      and_then (Some (unwrap r)) (\<lambda>server.
      let (r, w2) = client_open A (set_generic_write False client_options_new) (Some PIPE_NAME) w1 in
      and_then (Some (unwrap r)) (\<lambda>client.
      let (r, server, w3) = server_connect E await_connect_pipe server w2;
          write = server_write_all E server (literal rodata hello_world);
          read = client_read_exact E client (Raw (vec_with_capacity alloc 12)) in
      and_then (Some (unwrap r)) (\<lambda>_.
      and_then
        (if write_first then
           and_then (write w3) (\<lambda>((wr, _), _, w4). and_then (Some (read w4)) (\<lambda>((rd, buffer), _, w5).
             Some (Some (wr, rd, buffer, w5))))
         else
           and_then (Some (read w3)) (\<lambda>((rd, buffer), _, w4). and_then (write w4) (\<lambda>((wr, _), _, w5).
             Some (Some (wr, rd, buffer, w5)))))
        (\<lambda>(wr, rd, buffer, w6).
          Some (do { _ \<leftarrow> unwrap wr; _ \<leftarrow> unwrap rd; s \<leftarrow> from_utf8 buffer; Some (s, w6) }))))))"

subsection \<open>Ticks until a signal\<close>

text \<open>
  \<open>ctrlc w\<close> is the result of the future of \<open>ctrl_c\<close> when the select macro finds it ready before the next
  tick. The tick that is dropped then has not changed the interval. The second loop of the program
  does not end; \<open>ping_loop\<close> are the lines of so many rounds.
\<close>

partial_function (option) select_loop ::
  "'w time_env \<Rightarrow> ('w \<Rightarrow> (unit io_result \<times> 'w) option) \<Rightarrow> interval \<Rightarrow> string list \<Rightarrow> 'w \<Rightarrow>
   (string list \<times> interval \<times> 'w) option option" where
  "select_loop E ctrlc iv out w =
     (case ctrlc w of
        Some (res, w') \<Rightarrow> Some (do { _ \<leftarrow> unwrap res; Some (out @ [''break''], iv, w') })
      | None \<Rightarrow>
          (case tick E iv w of
             None \<Rightarrow> Some None
           | Some (_, iv', w') \<Rightarrow> select_loop E ctrlc iv' (out @ [''ping'']) w'))"

fun ping_loop :: "'w time_env \<Rightarrow> nat \<Rightarrow> interval \<Rightarrow> string list \<Rightarrow> 'w \<Rightarrow> (string list \<times> 'w) option" where
  "ping_loop E 0 iv out w = Some (out, w)"
| "ping_loop E (Suc n) iv out w = do { (_, iv', w') \<leftarrow> tick E iv w; ping_loop E n iv' (out @ [''ping'']) w' }"

definition tick_body ::
  "'w time_env \<Rightarrow> ('w \<Rightarrow> (unit io_result \<times> 'w) option) \<Rightarrow> nat \<Rightarrow> 'w \<Rightarrow> (string list \<times> 'w) option option" where
  "tick_body E ctrlc rounds w =
     and_then (Some (interval_now E 2000000000 w)) (\<lambda>interval.
     and_then (select_loop E ctrlc interval [] w) (\<lambda>(out, interval, w1).
       Some (ping_loop E rounds interval (out @ [''exit first loop'']) w1)))"

subsection \<open>The first example reads the whole file\<close>

text \<open>The first read attaches the file.\<close>

lemma file_attach_again:
  assumes "file_attach E f w = (Ok fd, f', w')"
  shows "once (file_attacher f') = Some fd" "file_attach E f' w' = (Ok fd, f', w')"
  using assms by (auto simp: file_attach_def attacher_attach_def Let_def split: option.splits prod.splits sum.splits)

lemma read_to_end_attaches:
  assumes "file_attach E f w = (Ok fd, f', w')"
  shows "file_read_to_end_at E f v pos w = file_read_to_end_at E f' v pos w'"
proof -
  have eq: "file_read_at E f b at w = file_read_at E f' b at w'" for b at
    using assms file_attach_again(2) [OF assms] by (simp add: file_read_at_def)
  show ?thesis
    unfolding file_read_to_end_at_def read_to_end_loop.simps [of E pos 0 v f w] read_to_end_loop.simps [of E pos 0 v f' w'] eq ..
qed

lemma kq_attaches:
  "file_attach (kq_file_env (kq_driver_ops K V tmo) S base) \<lparr>file_inner = fd, file_attacher = attacher_new\<rparr> rt =
     (Ok (KqFd fd), \<lparr>file_inner = fd, file_attacher = \<lparr>once = Some (KqFd fd)\<rparr>\<rparr>, rt)"
  by (cases rt) (simp add: file_attach_def attacher_attach_def attacher_new_def kq_file_env_def runtime_file_env_def
      runtime_attach_def kq_driver_ops_def kq_attach_def)

lemma basic_body_prints:
  assumes "reads_file_on I (\<lambda>k. True) E content" "allocates E" "I w1" "4096 \<le> length (snd (alloc 4096))"
    and "options_open E windows ''Cargo.toml'' (options_read True open_options_new) w = (Ok f, w1)"
    and "file_attach E f w1 = (Ok fd, f', w1)" "length (content (env_into E fd) w1) < 2 ^ 64"
  shows "\<exists>w2. I w2 \<and> basic_body E windows alloc w =
    Some (if utf8_valid (content (env_into E fd) w1) then Some (content (env_into E fd) w1, w2) else None)"
proof -
  let ?v = "vec_with_capacity alloc 4096" and ?C = "content (env_into E fd) w1"
  have v: "raw_kind ?v = VecU8" "raw_len ?v < length (raw_mem ?v)" "take (raw_len ?v) (raw_mem ?v) = []"
    using assms(4) by (auto simp: vec_with_capacity_def)
  obtain v' w2 where r: "file_read_to_end_at E f ?v 0 w1 = Some (Some ((Ok (length ?C), Raw v'), f', w2))"
      "as_slice (Raw v') = Some ?C" "I w2" "wf_buf (Raw v')"
    using file_read_to_end_at_appended [OF assms(1,2) file_attach_again(1) [OF assms(6)] v(1,2) assms(7,3), of 0]
    unfolding read_to_end_attaches [OF assms(6)] v(3) by auto
  have "buf_len (Raw v') = Some (length ?C)" by (rule as_slice_buf_len [OF r(4,2)])
  then show ?thesis using assms(5) r(1-3) by (intro exI [of _ w2]) (simp add: basic_body_def from_utf8_def)
qed

text \<open>
  C5. The example \<open>basic\<close> over the whole stack, on a platform with kqueue: it makes the runtime of the
  thread, opens the file, and reads it to the end however many system calls that takes. It prints
  exactly the contents of the file; it panics just when they are not UTF-8. The runtime is idle again.
\<close>

theorem basic_main_prints_file:
  assumes "slab_spec S" "slab_reuses S" "preads_file L content" "allocates base" "4096 \<le> length (snd (alloc 4096))"
    and "\<forall>h. kqueue K (h, w) = (Ok (), h, w1)"
    and "\<forall>rt. env_open base ''Cargo.toml'' (options_read True open_options_new) rt = (Ok fd, rt\<lparr>rt_world := opened (rt_world rt)\<rparr>)"
    and "length (content fd (opened w1)) < 2 ^ 64"
  shows "\<exists>rt. idle idle_kq S rt \<and>
    basic_main (kq_driver_ops K (boxed (kq_operate L) event delay) tmo) S
      (kq_file_env (kq_driver_ops K (boxed (kq_operate L) event delay) tmo) S base) False alloc w =
    Some (if utf8_valid (content fd (opened w1)) then Some (content fd (opened w1), RuntimeInit rt) else None)"
proof -
  let ?D = "kq_driver_ops K (boxed (kq_operate L) event delay) tmo"
  let ?E = "kq_file_env ?D S base" and ?f = "\<lparr>file_inner = fd, file_attacher = attacher_new\<rparr> :: (i32, kq_fd) fs_file"
  obtain rt where rt: "runtime_new ?D S w = (Ok rt, w1)"
    using assms(6) by (simp add: runtime_new_def kq_driver_ops_def kq_new_def kq_with_def)
  let ?rt1 = "rt\<lparr>rt_world := opened (rt_world rt)\<rparr>"
  have i: "idle idle_kq S rt" "rt_world rt = w1" using kq_runtime_new_idle [OF assms(1) rt] assms(6) by simp_all
  have I: "idle idle_kq S ?rt1" using i(1) by (simp add: idle_def)
  have al: "allocates ?E" using assms(4) by (simp add: allocates_def kq_file_env_def runtime_file_env_def)
  have op: "options_open ?E False ''Cargo.toml'' (options_read True open_options_new) rt = (Ok ?f, ?rt1)"
    using assms(7) by (simp add: options_open_def with_options_def file_with_options_def kq_file_env_def runtime_file_env_def)
  have into: "env_into ?E (KqFd fd) = KqFd fd" by (simp add: kq_file_env_def runtime_file_env_def)
  obtain rt2 where "idle idle_kq S rt2" "basic_body ?E False alloc rt =
      Some (if utf8_valid (content fd (opened w1)) then Some (content fd (opened w1), rt2) else None)"
    using basic_body_prints [where alloc = alloc, OF kq_env_reads_file [OF assms(1-3)] al I assms(5) op kq_attaches] assms(8) i(2)
    unfolding into by auto
  then show ?thesis by (intro exI [of _ rt2]) (simp add: basic_main_def runtime_with_new [OF rt])
qed

definition opening_std :: "(i32, kq_fd, kq_fd, (nat kq_driver, registered_op option, kq_op, u8 list) runtime) file_env" where
  "opening_std = sample_std\<lparr>env_open := (\<lambda>path options rt. (Ok 3, rt\<lparr>rt_world := rt_world rt\<rparr>))\<rparr>"

theorem basic_main_prints_file_witness:
  "\<exists>rt. basic_main pread_driver cell_slab (kq_file_env pread_driver cell_slab opening_std) False
      (\<lambda>n. (4096, replicate n 0)) [79, 107, 0xC3, 0xA9] = Some (Some ([79, 107, 0xC3, 0xA9], RuntimeInit rt))"
proof -
  let ?C = "[79, 107, 0xC3, 0xA9] :: u8 list" and ?alloc = "\<lambda>n. (4096, replicate n 0) :: nat \<times> u8 list"
  have al: "allocates opening_std" by (simp add: allocates_def opening_std_def sample_std_def)
  have k: "\<forall>h. kqueue quiet_kq (h, ?C) = (Ok (), h, ?C)" by (simp add: quiet_kq_def)
  have op: "\<forall>rt. env_open opening_std ''Cargo.toml'' (options_read True open_options_new) rt = (Ok 3, rt\<lparr>rt_world := (\<lambda>w. w) (rt_world rt)\<rparr>)"
    by (simp add: opening_std_def)
  have len: "4096 \<le> length (snd (?alloc 4096))" "length ?C < 2 ^ 64" by simp_all
  have utf8: "utf8_valid ?C" by (simp add: utf8_tail_def)
  from basic_main_prints_file [where opened = "\<lambda>w. w" and alloc = ?alloc and event = "\<lambda>a i. None" and delay = "\<lambda>a. None"
      and tmo = "\<lambda>e. False", OF cell_slab_spec pread_libc_reads al len(1) k op len(2), folded pread_driver_def]
  show ?thesis unfolding if_P [OF utf8] by blast
qed

subsection \<open>One operation on a bare driver\<close>

text \<open>
  A driver that completes an operation at once, \<open>prompt_driver\<close>, gives the second example its result:
  what the operation answers and leaves in its buffer.
\<close>

definition read_text :: "('op \<Rightarrow> 'fd read_at_op option) \<Rightarrow> usize io_result \<Rightarrow> 'op \<Rightarrow> u8 list option" where
  "read_text downcast res x =
     do { n \<leftarrow> unwrap res; op \<leftarrow> downcast x; from_utf8 (vec_set_len (unat n) (read_at_into_inner op)) }"

context prompt_driver
begin

lemma driver_main_outcome:
  assumes "drv_new D (\<lparr>boxes = Map.empty, next_box = 0\<rparr>, w) = (Ok d, \<lparr>boxes = Map.empty, next_box = 0\<rparr>, w1)"
    and "file_open E windows ''Cargo.toml'' w1 = (Ok file, w2)"
    and "drv_attach D (file_inner file) d (\<lparr>boxes = Map.empty, next_box = 0\<rparr>, w2) = Some (Ok fd, d, \<lparr>boxes = Map.empty, next_box = 0\<rparr>, w2)"
    and "idle_drv d" "op = dyn (read_at_new (env_into E) fd 0 (Raw (vec_with_capacity alloc 4096)))" "prompt op (view d w2)"
  shows "\<exists>res op' d' w3. outcome op (view d w2) res op' (view d' w3) \<and>
    driver_main D E windows (dyn, downcast) alloc w = map_option (\<lambda>s. (s, w3)) (read_text downcast res op')"
proof -
  let ?h = "\<lparr>boxes = [0 \<mapsto> op], next_box = 1\<rparr>"
  obtain d3 h3 where p: "drv_push_queue D [op_object_new 0 0] d (?h, w2) = Some ([], d3, h3, w2)"
      "queued 0 0 op (view d w2) d3 h3 w2"
    using push_queue_one [OF assms(4,6), of ?h 0 0] by auto
  obtain res op' d4 h4 w4 where s: "drv_submit D None d3 (h3, w2) = Some ((Ok (), [entry_new 0 res]), d4, h4, w4)"
      "boxes h4 = [0 \<mapsto> op']" "outcome op (view d w2) res op' (view d4 w4)"
    using submit_one [OF p(2)] by blast
  have "driver_main D E windows (dyn, downcast) alloc w = map_option (\<lambda>s. (s, w4)) (read_text downcast res op')"
    using assms(1-3,5) p(1) s(1,2)
    by (cases res; cases "downcast op'") (simp_all add: driver_main_def box_leak_def read_text_def entry_new_def Option.map_conv_bind_option comp_def)
  then show ?thesis using s(3) by blast
qed

end

lemma vec_stored:
  assumes "length ds \<le> length (snd (alloc n))"
  shows "from_utf8 (vec_set_len (length ds) (store_bytes (fst (alloc n)) ds (Raw (vec_with_capacity alloc n)))) =
    (if utf8_valid ds then Some ds else None)"
  using assms by (simp add: from_utf8_def vec_set_len_def vec_with_capacity_def store_raw_def as_slice_Raw)

lemma iour_read_outcome:
  assumes "iour_outcome content (IoReadAt x) r res op' r'" "as_uninit_slice (read_at_buffer x) = Some (a, n)"
  shows "\<exists>m. res = Ok (of_nat m) \<and> m \<le> n \<and> m < 2 ^ 31 \<and>
    m \<le> length (drop (unat (read_at_offset x)) (content (target_of (read_at_fd x)) r)) \<and>
    (m = 0 \<longrightarrow> n = 0 \<or> drop (unat (read_at_offset x)) (content (target_of (read_at_fd x)) r) = []) \<and>
    op' = IoReadAt (x\<lparr>read_at_buffer :=
      store_bytes a (take m (drop (unat (read_at_offset x)) (content (target_of (read_at_fd x)) r))) (read_at_buffer x)\<rparr>)"
  using assms(1) [unfolded iour_outcome.simps Let_def assms(2) option.inject prod.inject] by blast

lemma vec_spare: "as_uninit_slice (Raw (vec_with_capacity alloc n)) = Some (fst (alloc n), length (snd (alloc n)))"
  "wf_buf (Raw (vec_with_capacity alloc n))"
  by (simp_all add: vec_with_capacity_def as_uninit_slice_def raw_capacity_def wf_raw_def)

text \<open>
  C33. The example \<open>driver\<close> on the io_uring driver: one read is pushed, submitted and reported under its
  user data. The program prints what the one read gave, a piece of the file from its start that is empty
  only for an empty file; when that piece ends within a character the program panics.
\<close>

theorem driver_main_prints_piece:
  assumes "ring_laws U M no sq fl content" "new_rings_idle U sq fl" "ring_new U 1024 = Ok r"
    and "env_open E ''Cargo.toml'' (options_read True open_options_new) w = (Ok fd, w1)" "env_into E = OfFd"
    and "4096 \<le> length (snd (alloc 4096))" "length (snd (alloc 4096)) < 2 ^ 32"
  shows "\<exists>m w'. m \<le> length (snd (alloc 4096)) \<and> m \<le> length (content (TFd fd) r) \<and> (m = 0 \<longrightarrow> content (TFd fd) r = []) \<and>
    driver_main (iour_memory_ops U M no F tmo) E False (IoReadAt, \<lambda>x. case x of IoReadAt op \<Rightarrow> Some op | _ \<Rightarrow> None) alloc w =
      (if utf8_valid (take m (content (TFd fd) r)) then Some (take m (content (TFd fd) r), w') else None)"
proof -
  let ?D = "iour_memory_ops U M no F tmo" and ?h = "\<lparr>boxes = Map.empty, next_box = 0\<rparr> :: iour_op op_heap"
  let ?d = "\<lparr>inner = r, squeue_buffer = [], files_update_fds = [], files_update_state = NoUpdateInProgress\<rparr>"
  let ?v = "Raw (vec_with_capacity alloc 4096)" and ?C = "content (TFd fd) r"
  let ?op = "IoReadAt (read_at_new OfFd (Fd fd) 0 ?v)"
  let ?as = "\<lambda>x. case x of IoReadAt op \<Rightarrow> Some op | _ \<Rightarrow> None"
  have new: "drv_new ?D (?h, w) = (Ok ?d, ?h, w)"
    using assms(3) by (simp add: iour_memory_ops_def iour_driver_ops_def iour_new_def iour_with_def)
  have opn: "file_open E False ''Cargo.toml'' w = (Ok \<lparr>file_inner = fd, file_attacher = attacher_new\<rparr>, w1)"
    using assms(4) by (simp add: file_open_def options_open_def with_options_def file_with_options_def)
  have att: "drv_attach ?D (file_inner \<lparr>file_inner = fd, file_attacher = attacher_new\<rparr>) ?d (?h, w1) = Some (Ok (Fd fd), ?d, ?h, w1)"
    by (simp add: iour_memory_ops_def iour_driver_ops_def iour_attach_def)
  have idle: "ring_laws U M no sq fl content \<and> ring_idle U sq fl ?d"
    using assms(1-3) by (simp add: ring_idle_def new_rings_idle_def)
  have prompt: "iour_prompt ?op (inner ?d)" using vec_spare [of alloc 4096] assms(7) by (simp add: read_at_new_def)
  obtain res op' r' w3 where o: "iour_outcome content ?op (inner ?d) res op' r'"
      "driver_main ?D E False (IoReadAt, ?as) alloc w = map_option (\<lambda>s. (s, w3)) (read_text ?as res op')"
    using iourp.driver_main_outcome [OF new opn att idle refl, where downcast = ?as and dyn = IoReadAt and alloc = alloc,
        unfolded assms(5), OF prompt] by (elim exE conjE) (rule that)
  have x: "as_uninit_slice (read_at_buffer (read_at_new OfFd (Fd fd) 0 ?v)) = Some (fst (alloc 4096), length (snd (alloc 4096)))"
      "read_at_offset (read_at_new OfFd (Fd fd) 0 ?v) = 0" "target_of (read_at_fd (read_at_new OfFd (Fd fd) 0 ?v)) = TFd fd"
      "read_at_buffer (read_at_new OfFd (Fd fd) 0 ?v) = ?v"
    using vec_spare(1) [of alloc 4096] by (simp_all add: read_at_new_def target_of_def)
  have ne: "length (snd (alloc 4096)) \<noteq> 0" using assms(6) by linarith
  obtain m where m: "res = Ok (of_nat m)" "m \<le> length (snd (alloc 4096))" "m \<le> length ?C" "m < 2 ^ 31" "m = 0 \<longrightarrow> ?C = []"
      "op' = IoReadAt (read_at_new OfFd (Fd fd) 0 ?v\<lparr>read_at_buffer := store_bytes (fst (alloc 4096)) (take m ?C) ?v\<rparr>)"
    using iour_read_outcome [OF o(1) x(1), unfolded x(2-4) unat_0 drop_0 iour_driver.simps] ne by blast
  have "read_text ?as res op' = (if utf8_valid (take m ?C) then Some (take m ?C) else None)"
    using vec_stored [of "take m ?C" alloc 4096] m by (simp add: read_text_def read_at_into_inner_def read_at_new_def)
  then show ?thesis unfolding o(2) using m(2,3,5) by (intro exI [of _ m] exI [of _ w3]) simp
qed

lemma ascii_valid: "\<forall>b \<in> set bs. b \<le> 0x7F \<Longrightarrow> utf8_valid bs"
  by (induction bs) simp_all

definition driver_std :: "(i32, fd, fd_or_fixed, unit) file_env" where
  "driver_std =
     \<lparr>env_open = (\<lambda>path options w. (Ok 3, w)), env_dup = (\<lambda>fd w. (Err (Os 24), w)),
      env_attach = (\<lambda>fd w. (Ok (Fd fd), w)), env_into = OfFd,
      env_grow = (\<lambda>v additional. (raw_ptr v, replicate additional 0)),
      await_read_at = (\<lambda>op w. ((Err no_value, op), w)), await_write_at = (\<lambda>op w. ((Err no_value, op), w)),
      await_sync = (\<lambda>op w. ((Err no_value, op), w))\<rparr>"

theorem driver_main_prints_piece_witness:
  "\<exists>m w'. 0 < m \<and> driver_main file_driver driver_std False (IoReadAt, \<lambda>x. case x of IoReadAt op \<Rightarrow> Some op | _ \<Rightarrow> None)
      (\<lambda>n. (4096, replicate n 0)) () = Some (take m [10, 11, 12, 13, 14], w')"
proof -
  let ?r = "\<lparr>fr_sq = [], fr_done = [], fr_file = [10, 11, 12, 13, 14], fr_mem = (\<lambda>p n. []), fr_stores = []\<rparr>"
  let ?alloc = "\<lambda>n. (4096, replicate n 0) :: nat \<times> u8 list"
  have new: "ring_new file_io_uring 1024 = Ok ?r" by (simp add: file_io_uring_def)
  have op: "env_open driver_std ''Cargo.toml'' (options_read True open_options_new) () = (Ok 3, ())" "env_into driver_std = OfFd"
    by (simp_all add: driver_std_def)
  have len: "4096 \<le> length (snd (?alloc 4096))" "length (snd (?alloc 4096)) < 2 ^ 32" by simp_all
  have utf8: "utf8_valid (take m [10, 11, 12, 13, 14])" for m
    by (rule ascii_valid, rule ballI, drule in_set_takeD) auto
  have "fr_file ?r = [10, 11, 12, 13, 14]" by simp
  note piece = driver_main_prints_piece [where alloc = ?alloc, OF file_ring_laws file_rings_idle new op len,
      of "\<lparr>BOOTTIME = 4, ETIME_SUCCESS = 64\<rparr>" "\<lambda>e. False", folded file_driver_def, unfolded this if_P [OF utf8]]
  then obtain m w' where m: "m = 0 \<longrightarrow> [10, 11, 12, 13, 14 :: u8] = []" "driver_main file_driver driver_std False
      (IoReadAt, \<lambda>x. case x of IoReadAt op \<Rightarrow> Some op | _ \<Rightarrow> None) ?alloc () = Some (take m [10, 11, 12, 13, 14], w')"
    by (elim exE conjE) (rule that)
  then have "0 < m" by (cases m) simp_all
  then show ?thesis using m(2) by (intro exI conjI)
qed

subsection \<open>Two ends of a connection\<close>

text \<open>
  What is relied on: a receive and a send are those of a stream, attaching a descriptor succeeds, as it
  does with the drivers of the unix platforms, and the sockets are the ends of one connection with
  nothing on its way. The vector has just the capacity that was asked for; the standard library promises
  no less, and a larger one would make \<open>recv_exact\<close> wait for more than is sent.
\<close>

definition attaches :: "('raw, 'f, 'fd, 'w) socket_env \<Rightarrow> ('raw \<Rightarrow> 'f) \<Rightarrow> bool" where
  "attaches E att \<longleftrightarrow> (\<forall>raw w. net_attach E raw w = (Ok (att raw), w))"

definition linked ::
  "('raw, 'f, 'fd, 'w) socket_env \<Rightarrow> ('fd \<Rightarrow> 'w \<Rightarrow> u8 list) \<Rightarrow> ('fd \<Rightarrow> 'fd) \<Rightarrow> ('raw \<Rightarrow> 'f) \<Rightarrow>
   ('raw, 'f) socket \<Rightarrow> ('raw, 'f) socket \<Rightarrow> 'w \<Rightarrow> bool" where
  "linked E incoming peer att tx rx w \<longleftrightarrow>
     net_into E (att (sock_raw rx)) = peer (net_into E (att (sock_raw tx))) \<and> incoming (net_into E (att (sock_raw rx))) w = []"

definition attachable :: "('raw \<Rightarrow> 'f) \<Rightarrow> ('raw, 'f) socket \<Rightarrow> bool" where
  "attachable att s \<longleftrightarrow> once (sock_attacher s) = None \<or> once (sock_attacher s) = Some (att (sock_raw s))"

definition attached :: "('raw \<Rightarrow> 'f) \<Rightarrow> ('raw, 'f) socket \<Rightarrow> ('raw, 'f) socket" where
  "attached att s = s\<lparr>sock_attacher := (sock_attacher s)\<lparr>once := Some (att (sock_raw s))\<rparr>\<rparr>"

lemma attached_simps [simp]: "sock_raw (attached att s) = sock_raw s" "once (sock_attacher (attached att s)) = Some (att (sock_raw s))"
  by (simp_all add: attached_def)

lemma attachable_attach:
  assumes "attaches E att" "attachable att s"
  shows "sock_attach E s w = (Ok (att (sock_raw s)), attached att s, w)"
  using assms
  by (cases s; cases "sock_attacher s") (auto simp: attaches_def attachable_def attached_def sock_attach_def attacher_attach_def)

lemma send_all_attaches:
  assumes "attaches E att" "attachable att s" "buf_len b = Some n" "0 < n"
  shows "sock_send_all E s b w = sock_send_all E (attached att s) b w"
proof -
  have eq: "sock_send E s part w = sock_send E (attached att s) part w" for part
    by (simp add: sock_send_def attachable_attach [OF assms(1,2)] attached_sock)
  show ?thesis
    unfolding sock_send_all_def assms(3) option.case send_all_loop.simps [of E n 0 b s w] send_all_loop.simps [of E n 0 b "attached att s" w] eq
    using assms(4) by simp
qed

lemma recv_exact_attaches:
  assumes "attaches E att" "attachable att s" "as_uninit_slice b = Some (a, n)" "0 < n"
  shows "sock_recv_exact E s b w = sock_recv_exact E (attached att s) b w"
proof -
  have eq: "sock_recv E s b w = sock_recv E (attached att s) b w"
    by (simp add: sock_recv_def attachable_attach [OF assms(1,2)] attached_sock)
  show ?thesis
    unfolding sock_recv_exact_def assms(3) option.case prod.case recv_exact_loop.simps [of E n 0 b s w]
      recv_exact_loop.simps [of E n 0 b "attached att s" w] eq
    using assms(4) by simp
qed

lemma hello_world_simps [simp]: "length hello_world = 12" "utf8_valid hello_world" "hello_world \<noteq> []"
  by (simp_all add: hello_world_def)

lemma hello_passes:
  assumes "receives_stream E incoming" "sends_stream E (\<lambda>fd. incoming (peer fd))" "attaches E att"
    and "attachable att tx" "attachable att rx" "linked E incoming peer att tx rx w" "length (snd (alloc 12)) = 12"
  obtains w1 c w2 where
    "sock_send_all E tx (literal rodata hello_world) w = Some (Some ((Ok 12, literal rodata hello_world), attached att tx, w1))"
    "sock_recv_exact E rx (Raw (vec_with_capacity alloc 12)) w1 = Some (Some ((Ok 12, c), attached att rx, w2))"
    "buf_len c = Some 12" "from_utf8 c = Some hello_world"
proof -
  let ?b = "literal rodata hello_world" and ?c = "Raw (vec_with_capacity alloc 12)"
  let ?in = "incoming (net_into E (att (sock_raw rx)))"
  have b: "wf_buf ?b" "as_slice ?b = Some hello_world" "buf_len ?b = Some 12"
    by (simp_all add: literal_def wf_raw_def as_slice_Raw)
  have c: "wf_buf ?c" "mut_buf ?c" "as_slice ?c = Some []" "as_uninit_slice ?c = Some (fst (alloc 12), 12)"
    using vec_spare [of alloc 12] assms(7) by (simp_all add: vec_with_capacity_def mut_buf_def as_slice_Raw)
  obtain w1 where 1: "sock_send_all E (attached att tx) ?b w = Some (Some ((Ok 12, ?b), attached att tx, w1))" "?in w1 = hello_world"
    using sock_send_all_sent [OF assms(2) attached_simps(2) [of att tx] b(1,2), of w] assms(6) by (auto simp: linked_def)
  obtain c' w2 where 2: "sock_recv_exact E (attached att rx) ?c w1 = Some (Some ((Ok 12, c'), attached att rx, w2))"
      "wf_buf c'" "as_slice c' = Some hello_world"
    using sock_recv_exact_filled [OF assms(1) attached_simps(2) [of att rx] c, of w1] 1(2) by (auto)
  show thesis
  proof (rule that)
    show "sock_send_all E tx ?b w = Some (Some ((Ok 12, ?b), attached att tx, w1))"
      using send_all_attaches [OF assms(3,4) b(3)] 1(1) by simp
    show "sock_recv_exact E rx ?c w1 = Some (Some ((Ok 12, c'), attached att rx, w2))"
      using recv_exact_attaches [OF assms(3,5) c(4)] 2(1) by simp
    show "buf_len c' = Some 12" using as_slice_buf_len [OF 2(2,3)] by simp
    show "from_utf8 c' = Some hello_world" using 2(3) by (simp add: from_utf8_def)
  qed
qed

text \<open>The sender is attached by connecting, or not yet; the receiver is not.\<close>

lemma net_setup_attachable:
  assumes "attaches E att" "net_setup E from sa first w = Some (tx, rx, w1)"
  shows "attachable att tx" "attachable att rx"
proof -
  have tx: "attachable att s" if "tcp_stream_connect E (to_sock_addrs id (AddrRef (OneAddr a))) v = (Ok s, v')" for a v s v'
    using that assms(1)
    by (auto simp: tcp_stream_connect_def each_addr_async_def sock_new_def sock_connect_async_def sock_attach_def attaches_def
        attachable_def attacher_attach_def from_socket2_def attacher_new_def Let_def split: prod.splits sum.splits option.splits)
  have rx: "attachable att s" if "tcp_listener_accept E l v = (Ok (s, a), l', v')" for l v s a l' v'
    using that
    by (auto simp: tcp_listener_accept_def sock_accept_def from_socket2_def attacher_new_def attachable_def Let_def
        split: prod.splits sum.splits)
  show "attachable att tx" "attachable att rx"
    using assms(2) by (auto simp: net_setup_def unwrap_def Let_def split: prod.splits sum.splits if_splits bind_splits intro: tx rx)
qed


lemma unix_setup_attachable:
  assumes "unix_setup E path_addr w = Some (tx, rx, w1)"
  shows "attachable att tx" "attachable att rx"
proof -
  have tx: "attachable att s" if "unix_stream_connect_addr E (to_sock_addrs id (AddrRef (OneAddr a))) v = (Ok s, v')" for a v s v'
    using that
    by (auto simp: unix_stream_connect_addr_def each_addr_def sock_new_def attachable_def from_socket2_def attacher_new_def
        split: prod.splits sum.splits option.splits)
  have rx: "attachable att s" if "unix_listener_accept E l v = (Ok (s, a), l', v')" for l v s a l' v'
    using that
    by (auto simp: unix_listener_accept_def sock_accept_def from_socket2_def attacher_new_def attachable_def Let_def
        split: prod.splits sum.splits)
  show "attachable att tx" "attachable att rx"
    using assms by (auto simp: unix_setup_def unwrap_def Let_def split: prod.splits sum.splits if_splits bind_splits intro: tx rx)
qed

text \<open>The example \<open>unix\<close> likewise, over a Unix domain socket.\<close>

theorem unix_body_prints_hello:
  assumes "receives_stream E incoming" "sends_stream E (\<lambda>fd. incoming (peer fd))" "attaches E att"
    and "unix_setup E path_addr w = Some (tx, rx, w1)" "linked E incoming peer att tx rx w1" "length (snd (alloc 12)) = 12"
  shows "\<exists>w2. unix_body E path_addr rodata alloc w = Some (Some (map of_char ''Hello world!'', w2))"
proof -
  obtain w2 c w3 where
    "sock_send_all E tx (literal rodata hello_world) w1 = Some (Some ((Ok 12, literal rodata hello_world), attached att tx, w2))"
    "sock_recv_exact E rx (Raw (vec_with_capacity alloc 12)) w2 = Some (Some ((Ok 12, c), attached att rx, w3))"
    "buf_len c = Some 12" "from_utf8 c = Some hello_world"
    by (rule hello_passes [where peer = peer and incoming = incoming and alloc = alloc and att = att, OF assms(1-3) unix_setup_attachable [where att = att, OF assms(4)] assms(5,6)])
  then show ?thesis unfolding hello_world_def [symmetric]
    by (intro exI [of _ w3]) (simp add: unix_body_def assms(4) unix_stream_send_all_def unix_stream_recv_exact_def)
qed

text \<open>A system with one connection from descriptor 3 to descriptor 4, two bytes at a time.\<close>

definition hello_link :: "(nat, nat, nat, u8 list) socket_env" where
  "hello_link = (sample_link 2)\<lparr>await_accept := (\<lambda>op w. ((Ok 4, op), w))\<rparr>"

lemma hello_link_stream:
  "receives_stream hello_link (\<lambda>fd w. w)" "sends_stream hello_link (\<lambda>fd w. w)" "attaches hello_link (\<lambda>raw. raw)"
  using sample_link_stream [of 2]
  by (simp_all add: receives_stream_def sends_stream_def attaches_def hello_link_def sample_link_def)


subsection \<open>Ticks until a signal\<close>

text \<open>
  The example \<open>tick\<close>: with a signal that arrives at some time, the first loop ends. Every line before is a
  ping, then come the lines of the end of the first loop and a ping for every further round.
\<close>

definition interrupts :: "'w time_env \<Rightarrow> ('w \<Rightarrow> (unit io_result \<times> 'w) option) \<Rightarrow> nat \<Rightarrow> bool" where
  "interrupts E ctrlc T \<longleftrightarrow>
     (\<forall>w. T \<le> instant_now E w \<longrightarrow> ctrlc w \<noteq> None) \<and>
     (\<forall>w res w'. ctrlc w = Some (res, w') \<longrightarrow> res = Ok () \<and> instant_now E w \<le> instant_now E w')"

lemma tick_first:
  assumes "keeps_time E" "\<not> first_ticked iv"
  obtains t w' where "tick E iv w = Some (t, iv\<lparr>first_ticked := True\<rparr>, w')" "instant_now E w \<le> instant_now E w'"
    "interval_start iv \<le> instant_now E w'"
  using assms(2) by (rule_tac keeps_time_sleep_until [OF assms(1), of "interval_start iv" w]) (auto simp: tick_def)

definition running :: "'w time_env \<Rightarrow> interval \<Rightarrow> 'w \<Rightarrow> bool" where
  "running E iv w \<longleftrightarrow> first_ticked iv \<and> 0 < interval_period iv \<and> interval_period iv \<le> 2 ^ 64 \<and> interval_start iv \<le> instant_now E w"

lemma running_tick:
  assumes "keeps_time E" "running E iv w"
  obtains t w' where "tick E iv w = Some (t, iv, w')" "running E iv w'" "instant_now E w < instant_now E w'"
proof -
  have r: "first_ticked iv" "0 < interval_period iv" "interval_period iv \<le> 2 ^ 64" "interval_start iv \<le> instant_now E w"
    using assms(2) by (simp_all add: running_def)
  show thesis by (rule tick_grid [OF assms(1) r], rule that) (use r in \<open>auto simp: running_def\<close>)
qed

lemma ping_loop_pings:
  assumes "keeps_time E" "running E iv w"
  shows "\<exists>w'. ping_loop E n iv out w = Some (out @ replicate n ''ping'', w')"
  using assms(2)
proof (induction n arbitrary: w out)
  case (Suc n)
  obtain t w' where "tick E iv w = Some (t, iv, w')" "running E iv w'" by (rule running_tick [OF assms(1) Suc.prems])
  then show ?case using Suc.IH [of w' "out @ [''ping'']"] by simp
qed simp

lemma select_loop_ends:
  assumes "keeps_time E" "interrupts E ctrlc T" "running E iv w"
  shows "\<exists>k w'. select_loop E ctrlc iv out w = Some (Some (out @ replicate k ''ping'' @ [''break''], iv, w')) \<and> running E iv w'"
  using assms(3)
proof (induction "T - instant_now E w" arbitrary: w out rule: less_induct)
  case less
  show ?case
  proof (cases "ctrlc w")
    case None
    obtain t w' where t: "tick E iv w = Some (t, iv, w')" "running E iv w'" "instant_now E w < instant_now E w'"
      by (rule running_tick [OF assms(1) less.prems])
    have "instant_now E w < T" using None assms(2) by (meson interrupts_def not_le)
    then have "T - instant_now E w' < T - instant_now E w" using t(3) by simp
    from less.hyps [OF this t(2), of "out @ [''ping'']"] obtain k w2 where
      "select_loop E ctrlc iv (out @ [''ping'']) w' = Some (Some ((out @ [''ping'']) @ replicate k ''ping'' @ [''break''], iv, w2))"
      "running E iv w2" by blast
    then show ?thesis using None t(1)
      by (intro exI [of _ "Suc k"] exI [of _ w2]) (simp add: select_loop.simps [of E ctrlc iv out w])
  next
    case (Some x)
    then obtain w' where "ctrlc w = Some (Ok (), w')" "instant_now E w \<le> instant_now E w'"
      using assms(2) unfolding interrupts_def by (metis surj_pair)
    then show ?thesis using less.prems
      by (intro exI [of _ 0] exI [of _ w']) (simp add: select_loop.simps [of E ctrlc iv out w] running_def)
  qed
qed

text \<open>Both loops may also be entered before the first tick.\<close>

definition fresh :: "interval \<Rightarrow> bool" where
  "fresh iv \<longleftrightarrow> \<not> first_ticked iv \<and> 0 < interval_period iv \<and> interval_period iv \<le> 2 ^ 64"

lemma fresh_tick:
  assumes "keeps_time E" "fresh iv"
  obtains t iv' w' where "tick E iv w = Some (t, iv', w')" "running E iv' w'"
  by (rule tick_first [OF assms(1), of iv w]) (use assms(2) that in \<open>auto simp: fresh_def running_def\<close>)

lemma ping_loop_pings_any:
  assumes "keeps_time E" "fresh iv \<or> running E iv w"
  shows "\<exists>w'. ping_loop E n iv out w = Some (out @ replicate n ''ping'', w')"
proof (cases "running E iv w \<or> n = 0")
  case True
  then show ?thesis using ping_loop_pings [OF assms(1)] by auto
next
  case False
  then obtain k where k: "n = Suc k" "fresh iv" using assms(2) by (cases n) auto
  obtain t iv' w' where "tick E iv w = Some (t, iv', w')" "running E iv' w'" by (rule fresh_tick [OF assms(1) k(2)])
  then show ?thesis using ping_loop_pings [OF assms(1), of iv' w' k "out @ [''ping'']"] k(1) by simp
qed

lemma select_loop_ends_any:
  assumes "keeps_time E" "interrupts E ctrlc T" "fresh iv"
  shows "\<exists>k iv' w'. select_loop E ctrlc iv out w = Some (Some (out @ replicate k ''ping'' @ [''break''], iv', w')) \<and>
    (fresh iv' \<or> running E iv' w')"
proof (cases "ctrlc w")
  case None
  obtain t iv' w' where t: "tick E iv w = Some (t, iv', w')" "running E iv' w'" by (rule fresh_tick [OF assms(1,3)])
  from select_loop_ends [OF assms(1,2) t(2), of "out @ [''ping'']"] obtain k w2 where
    "select_loop E ctrlc iv' (out @ [''ping'']) w' = Some (Some ((out @ [''ping'']) @ replicate k ''ping'' @ [''break''], iv', w2))"
    "running E iv' w2" by blast
  then show ?thesis using None t(1)
    by (intro exI [of _ "Suc k"] exI [of _ iv'] exI [of _ w2]) (simp add: select_loop.simps [of E ctrlc iv out w])
next
  case (Some x)
  then obtain w' where "ctrlc w = Some (Ok (), w')" using assms(2) unfolding interrupts_def by (metis surj_pair)
  then show ?thesis using assms(3)
    by (intro exI [of _ 0] exI [of _ iv] exI [of _ w']) (simp add: select_loop.simps [of E ctrlc iv out w])
qed

theorem tick_body_prints:
  assumes "keeps_time E" "interrupts E ctrlc T"
  shows "\<exists>k w'. tick_body E ctrlc rounds w =
    Some (Some (replicate k ''ping'' @ [''break'', ''exit first loop''] @ replicate rounds ''ping'', w'))"
proof -
  let ?iv = "interval_new (instant_now E w) 2000000000"
  have f: "fresh ?iv" by (simp add: fresh_def interval_new_def)
  from select_loop_ends_any [OF assms f, of "[]" w] obtain k iv w1 where
    1: "select_loop E ctrlc ?iv [] w = Some (Some (replicate k ''ping'' @ [''break''], iv, w1))" "fresh iv \<or> running E iv w1" by auto
  from ping_loop_pings_any [OF assms(1) 1(2), of rounds "replicate k ''ping'' @ [''break'', ''exit first loop'']"] obtain w2 where
    "ping_loop E rounds iv (replicate k ''ping'' @ [''break'', ''exit first loop'']) w1 =
      Some ((replicate k ''ping'' @ [''break'', ''exit first loop'']) @ replicate rounds ''ping'', w2)" by blast
  then show ?thesis using 1(1)
    by (intro exI [of _ k] exI [of _ w2]) (simp add: tick_body_def interval_now_def interval_at_def)
qed

end
