(* ===== verification/Spec2Isabelle.thy ===== *)
theory Spec2Isabelle
  imports Buf Timer_Wheel Unix_Op Iour_Spec Iour_Op Kqueue_Total Iocp_Op Runtime_Kqueue Runtime_Iour Runtime_Iocp
    File_Kqueue File_Iour Net_Stream Net_Windows Time Signal Named_Pipe Event Event_Iocp Task Complete_Io Macros Examples
begin

text \<open>
  A verification of completeio, a thread-per-core runtime for completion based IO.

  \<^bold>\<open>The program.\<close> A thread owns one runtime (\<open>src/task\<close>) and the runtime one driver
  (\<open>src/driver\<close>): io_uring on Linux, kqueue on the BSDs and macOS, IOCP on Windows. A future submits
  an operation, a struct that owns its buffer (\<open>src/buf\<close>). The runtime boxes it, registers it in its
  table under a key and pushes a pointer to it to the driver; what the driver refuses waits in a
  queue. Polling the runtime retries cancellations, pushes the queue, submits to the system and
  stores the completed entries in the table, which wakes the futures; a future then takes the
  operation with its buffer and result out again. Files, sockets, pipes, timers, events and signals
  (\<open>src/fs\<close>, \<open>src/net\<close>, \<open>src/named_pipe.rs\<close>, \<open>src/time.rs\<close>, \<open>src/event\<close>, \<open>src/signal\<close>) are written
  on top of that.

  \<^bold>\<open>Conventions.\<close> Fixed width integers are words (\<open>usize\<close>, \<open>u64\<close>, \<open>u32\<close>, \<open>i32\<close>, \<open>u8\<close>) where the code
  casts or wraps; addresses, lengths and capacities are natural numbers, durations are nanoseconds.
  \<open>io::Result\<close> is a sum type with \<open>Err\<close> and \<open>Ok\<close>. A panic is \<open>None\<close>. A loop that may not end is a
  \<open>partial_function (option)\<close>: its outer \<open>None\<close> is not returning, the inner one a panic. The system,
  its libraries and third-party crates are parameters, records of functions that thread a world;
  what is relied on is a named predicate (\<open>ring_spec\<close>, \<open>slab_spec\<close>, \<open>reads_file\<close> and so on), and
  every property under such a hypothesis is applied to a concrete instance in its witness. A trait
  object is a value of a datatype of operations with a record of its methods.

  \<^bold>\<open>The theories.\<close>

  \<^item> \<open>Prelude\<close>: word types, results, vectors, filtering by position.

  \<^item> \<open>Buf\<close> (\<open>src/buf\<close>, \<open>src/op.rs\<close>): the buffer types over an allocation, \<open>Slice\<close> as a view that
    nests, the vectored wrappers, and the length updates after a completion. The locales \<open>io_buf\<close>
    and \<open>io_buf_mut\<close> are the contracts of the unsafe traits, interpreted on every implementation at
    once. A completed read appends exactly the received bytes, the region given to the kernel is the
    spare room; a vectored receive distributes the bytes over empty buffers exactly, and overflows
    partly filled ones.

  \<^item> \<open>Driver_Base\<close> (\<open>src/driver/mod.rs\<close>): operations, trait objects, entries. The locale
    \<open>submission_queue\<close> is the contract of \<open>try_push_dyn\<close> and \<open>push_queue\<close>: a batch push conserves the
    operations and agrees with single pushes. All three drivers interpret it.

  \<^item> \<open>Timer_Wheel\<close> (\<open>src/driver/time.rs\<close>): the heap of timers. The locale \<open>max_heap\<close> is what it uses of
    \<open>BinaryHeap\<close>. \<open>drain_while\<close> has the length of the heap plus one as fuel, and every round takes an
    element out. Expiring reports exactly the due timers in order.

  \<^item> \<open>Unix_Op\<close> (\<open>src/driver/unix/op.rs\<close>): the operation structs shared by io_uring and kqueue.

  \<^item> \<open>Iour_Driver\<close>, \<open>Iour_Spec\<close>, \<open>Iour_Op\<close> (\<open>src/driver/iour\<close>): the driver over a ring that is a
    parameter, and \<open>create_entry\<close> of every operation. Completions are reported in order and decoded;
    at most one registration of descriptors is outstanding and its array is not written meanwhile;
    every region of a submission entry lies in the spare room or the initialised bytes of a buffer;
    its length is that of the region modulo \<open>2\<^sup>3\<^sup>2\<close>.

  \<^item> \<open>Kqueue_Driver\<close>, \<open>Kqueue_Spec\<close>, \<open>Kqueue_Op\<close>, \<open>Kqueue_Total\<close> (\<open>src/driver/kqueue\<close>): \<open>submit\<close> with its
    three phases over \<open>kevent\<close>, and every operation. \<open>submit\<close> loses no operation, reports only held
    ones, requeues exactly the uncompleted ones, registers one event per descriptor and direction.
    The locale \<open>kq_opcodes\<close> is the contract of the operations under which it never panics, interpreted
    on the operations of the crate. One flaw, the last pending operation staying in the queue, is a
    theorem as well.

  \<^item> \<open>Iocp_Driver\<close>, \<open>Iocp_Spec\<close>, \<open>Iocp_Op\<close> (\<open>src/driver/iocp\<close>): the driver over a completion port, the
    operations with their epilogues. \<open>submit\<close> accounts for every operation, the memory handed to the
    system is safe, posted results and offsets survive their encoding; several flaws are theorems.

  \<^item> \<open>Op_Runtime\<close> (\<open>src/key.rs\<close>, \<open>src/task/op.rs\<close>): keys, the table of operations and the boxes it owns.
    The table refines an abstract map from keys to states; a registered operation can be removed with
    its box in every reachable table.

  \<^item> \<open>Runtime\<close>, \<open>Runtime_Spec\<close> (\<open>src/task/runtime.rs\<close>, \<open>src/attacher.rs\<close>): the runtime over any driver, the
    record \<open>driver_ops\<close>. The locale \<open>complete_io\<close> is the contract of a driver: which operations it
    holds, what a push and a submit do to them, and which of them a submit may be silent about. Under
    it a \<open>poll\<close> of the runtime accounts for every operation. \<open>op_turn\<close> is the way of an operation through
    the runtime, from its submission to its future being ready. \<open>block_on\<close> returns once its future has
    its result. The leaks after cancellations are theorems.

  \<^item> \<open>Runtime_Kqueue\<close>, \<open>Runtime_Iour\<close>, \<open>Runtime_Iocp\<close>: the runtime composed with each driver, every one an
    interpretation of \<open>complete_io\<close>. On kqueue and io_uring a completed operation is delivered to its
    future by the next poll, and no operation is lost between the runtime, the driver and the kernel.
    On kqueue the driver uses freed memory afterwards, on IOCP the future of an operation that does not
    complete at once waits forever; both are theorems.

  \<^item> \<open>Fs_File\<close>, \<open>Net_Socket\<close>, \<open>Net_Stream\<close>, \<open>Net_Windows\<close> (\<open>src/fs\<close>, \<open>src/net\<close>): submitting an operation and
    awaiting it is a parameter per operation. The loops end and transfer every byte once and in order
    on a regular file and a stream, so that what one end of a connection sends the other one receives;
    where they never return, that is a theorem too. \<open>Net_Stream\<close> has the methods of the TCP, UDP and
    Unix domain types, \<open>Net_Windows\<close> accepting and connecting on Windows, which leaks no socket.

  \<^item> \<open>Await\<close>, \<open>File_Kqueue\<close>, \<open>File_Iour\<close>: the whole stack. The parameter of \<open>Fs_File\<close> for awaiting an
    operation is instantiated with submitting it to the runtime over a driver and blocking until its
    future is ready. The locale \<open>prompt_driver\<close> is what that needs of a driver, one that completes the
    operation it holds in the next \<open>submit\<close>; the kqueue and the io_uring driver are interpretations. On
    kqueue an exact read rests on the slab and on \<open>pread\<close> alone. For io_uring the memory behind the
    boxes is part of the model: the kernel reads the bytes of a write when the ring is submitted and
    stores those of a read before its completion. What \<open>write_all_at\<close> has written \<open>read_exact_at\<close>
    reads back.

  \<^item> \<open>Time\<close>, \<open>Signal\<close>, \<open>Event\<close>, \<open>Event_Iocp\<close>, \<open>Named_Pipe\<close>: ticks lie on the grid of their interval, a
    timeout ends; signals reach the listeners of one thread, and may be lost between threads;
    notifications; descriptors that are not leaked; pipe options, transfers and information.

  \<^item> \<open>Task\<close>, \<open>Complete_Io\<close>, \<open>Macros\<close> (\<open>src/task/mod.rs\<close>, \<open>src/driver/mod.rs\<close>, \<open>src/lib.rs\<close>): the runtime of a thread,
    made on first use; the whole driver trait with its three implementations, whose typed and untyped
    pushes agree and refuse only without room (the locale \<open>typed_push\<close>); the macros for system calls and
    descriptors.

  \<^item> \<open>Examples\<close> (\<open>examples\<close>): the six programs. Over the whole stack on kqueue the first one prints exactly
    the file; the one that uses a bare driver prints what one read gives; the two ends of a connection
    print the text that was sent; the ticks end with the signal. The program with named pipes is
    defined, and nothing is shown of it.

  \<^bold>\<open>Not modelled.\<close> Tests and benches call the library. The lifetimes and the markers of
  \<open>Send\<close> have no run time content. The order in which the select and join macros of the futures crate
  finish their futures is an argument of \<open>timeout\<close> and of the examples. The executor
  behind \<open>spawn\<close> is the \<open>async_task\<close> crate: a task is a number, and running it is an argument of
  \<open>block_on\<close>. On kqueue the stack is composed for operations that complete at once, since a blocking one
  leaves a dangling pointer behind; a written byte is followed into the file on io_uring only, the calls
  of kqueue being modelled with addresses. Two
  threads share only the signal tables; interleavings of their memory accesses are left out.
\<close>

end
